(* ===== verification/Prelude.thy ===== *)
theory Prelude
  imports Main "HOL-Library.Finite_Map" "HOL-Library.Word" "HOL-Library.Sublist"
    "HOL-Library.Multiset"
begin

text \<open>
  The prelude of the development: the collections of simplification rules that the component
  theories fill, the outcome type of a Go call (a value, an error or a panic), the reading of
  a Go map as a finite map together with the orders in which a \<open>range\<close> statement may walk
  it, and generic lemmas on lists, strings and finite maps that several components share.
\<close>

section \<open>Collections\<close>

named_theorems run_simps \<open>evaluation of a process in one go\<close>
named_theorems err_simps \<open>error values: unwrapping, dispositions, messages\<close>
named_theorems cond_simps \<open>status conditions and their projections\<close>
named_theorems hdr_simps \<open>HTTP headers\<close>

section \<open>Outcomes of a Go call\<close>

text \<open>
  A Go function that returns \<open>(T, error)\<close> either returns a value, returns an error, or panics
  (a nil dereference, an index out of range).  The type of errors is a parameter here; the
  component theories use the error values of theory \<open>Go_Errors\<close>.
\<close>

datatype ('e, 'a) outcome = Ok 'a | Err 'e | Panic

fun bind_outcome :: "('e, 'a) outcome \<Rightarrow> ('a \<Rightarrow> ('e, 'b) outcome) \<Rightarrow> ('e, 'b) outcome" where
  "bind_outcome (Ok x) k = k x"
| "bind_outcome (Err e) k = Err e"
| "bind_outcome Panic k = Panic"

lemma bind_outcome_Ok_iff:
  "bind_outcome r k = Ok y \<longleftrightarrow> (\<exists>x. r = Ok x \<and> k x = Ok y)"
  by (cases r) auto

lemma bind_outcome_assoc:
  "bind_outcome (bind_outcome r k) h = bind_outcome r (\<lambda>x. bind_outcome (k x) h)"
  by (cases r) auto

fun is_ok :: "('e, 'a) outcome \<Rightarrow> bool" where
  "is_ok (Ok x) = True"
| "is_ok (Err e) = False"
| "is_ok Panic = False"

lemma is_ok_iff: "is_ok r \<longleftrightarrow> (\<exists>x. r = Ok x)"
  by (cases r) auto

section \<open>Go maps\<close>

text \<open>
  A Go map is a finite map.  A missing key reads as the zero value of the value type; for
  strings that is the empty string.  The order in which \<open>range\<close> walks a map is not
  specified by the language: an operation that walks one takes the walk as an argument, and
  \<open>walk_of m\<close> says which lists of entries are walks of \<open>m\<close>.
\<close>

type_synonym smap = "(string, string) fmap"

definition str_at :: "smap \<Rightarrow> string \<Rightarrow> string" where
  "str_at m k = (case fmlookup m k of None \<Rightarrow> '''' | Some v \<Rightarrow> v)"

definition walk_of :: "('k, 'v) fmap \<Rightarrow> ('k \<times> 'v) list \<Rightarrow> bool" where
  "walk_of m kvs \<longleftrightarrow> distinct (map fst kvs) \<and> fmap_of_list kvs = m"

lemma fmlookup_of_list: "fmlookup (fmap_of_list kvs) k = map_of kvs k"
  by (simp add: fmap_of_list.rep_eq)

lemma walk_of_mem: "walk_of m kvs \<Longrightarrow> (k, v) \<in> set kvs \<longleftrightarrow> fmlookup m k = Some v"
  by (auto simp: walk_of_def fmlookup_of_list)

lemma walk_of_keys: "walk_of m kvs \<Longrightarrow> set (map fst kvs) = fmdom' m"
  by (auto simp: walk_of_def fmlookup_of_list fmlookup_dom'_iff)
    (metis map_of_SomeD fst_conv image_eqI)

lemma walk_of_distinct: "walk_of m kvs \<Longrightarrow> distinct kvs"
  by (simp add: walk_of_def distinct_map)

text \<open>Two walks of one map visit the same entries: they differ in order only.\<close>

lemma walk_of_perm:
  assumes "walk_of m xs" and "walk_of m ys"
  shows "mset xs = mset ys"
proof -
  have "set xs = set ys"
    using assms by (auto simp: walk_of_mem)
  with assms show ?thesis
    by (simp add: set_eq_iff_mset_eq_distinct walk_of_distinct)
qed

lemma sorted_keys_walk:
  assumes "walk_of m xs" and "walk_of m ys"
  shows "sort (map fst xs) = sort (map fst ys)"
proof -
  from walk_of_perm [OF assms] have "mset (map fst xs) = mset (map fst ys)" by (metis mset_map)
  then show ?thesis by (simp add: properties_for_sort)
qed

lemma walk_of_length: "walk_of m kvs \<Longrightarrow> length kvs = fcard (fmdom m)"
proof -
  assume w: "walk_of m kvs"
  then have "length kvs = card (set (map fst kvs))"
    by (metis distinct_card length_map walk_of_def)
  also have "\<dots> = fcard (fmdom m)"
    using walk_of_keys [OF w] by (simp add: fcard.rep_eq fmdom'_alt_def)
  finally show ?thesis .
qed

lemma walk_exists: "\<exists>kvs. walk_of m kvs"
proof -
  obtain xs where "fmap_of_list xs = m" using exists_fmap_of_list by blast
  then have "fmlookup (fmap_of_list (AList.clearjunk xs)) k = fmlookup m k" for k
    by (auto simp: fmlookup_of_list map_of_clearjunk)
  then have "walk_of m (AList.clearjunk xs)"
    by (auto simp: walk_of_def distinct_clearjunk intro: fmap_ext)
  then show ?thesis by blast
qed

text \<open>The walk in the order of the keys.\<close>

definition sorted_walk :: "('k :: linorder, 'v) fmap \<Rightarrow> ('k \<times> 'v) list" where
  "sorted_walk m = map (\<lambda>k. (k, the (fmlookup m k))) (sorted_list_of_fset (fmdom m))"

lemma walk_of_sorted: "walk_of m (sorted_walk m)"
proof -
  have keys: "map fst (sorted_walk m) = sorted_list_of_fset (fmdom m)"
    by (simp add: sorted_walk_def comp_def)
  have "fmlookup (fmap_of_list (sorted_walk m)) k = fmlookup m k" for k
  proof -
    have "map_of (map (\<lambda>k. (k, the (fmlookup m k))) ks) k = (if k \<in> set ks then Some (the (fmlookup m k)) else None)" for ks
      by (induction ks) auto
    then show ?thesis
      by (auto simp: sorted_walk_def fmlookup_of_list fmlookup_dom_iff sorted_list_of_fset_simps(1) fmdom_notI
          dest: fmdom_notI intro: fmdom_notD [symmetric])
  qed
  with keys show ?thesis by (simp add: walk_of_def fmap_ext sorted_list_of_fset.rep_eq)
qed

text \<open>Assigning the entries of a walk one after the other rebuilds the map.\<close>

lemma foldl_fmupd_lookup:
  "distinct (map fst kvs) \<Longrightarrow>
   fmlookup (foldl (\<lambda>m kv. fmupd (fst kv) (snd kv) m) m0 kvs) k =
     (case map_of kvs k of None \<Rightarrow> fmlookup m0 k | Some v \<Rightarrow> Some v)"
proof (induction kvs arbitrary: m0)
  case Nil
  then show ?case by simp
next
  case (Cons kv kvs)
  obtain a b where kv: "kv = (a, b)" by (cases kv)
  from Cons.prems have "map_of kvs a = None"
    by (simp add: kv map_of_eq_None_iff)
  with Cons show ?case
    by (auto simp: kv split: option.splits)
qed

lemma foldl_fmupd_walk:
  assumes "walk_of m kvs"
  shows "foldl (\<lambda>m kv. fmupd (fst kv) (snd kv) m) fmempty kvs = m"
proof (rule fmap_ext)
  fix k
  from assms have "distinct (map fst kvs)" and m: "m = fmap_of_list kvs"
    by (auto simp: walk_of_def)
  then show "fmlookup (foldl (\<lambda>m kv. fmupd (fst kv) (snd kv) m) fmempty kvs) k = fmlookup m k"
    by (simp add: foldl_fmupd_lookup fmlookup_of_list split: option.splits)
qed

section \<open>Strings\<close>

text \<open>\<open>strings.Join\<close> and \<open>strings.Split\<close> on a one-character separator.\<close>

fun str_join :: "string \<Rightarrow> string list \<Rightarrow> string" where
  "str_join sep [] = ''''"
| "str_join sep [x] = x"
| "str_join sep (x # y # ys) = x @ sep @ str_join sep (y # ys)"

fun str_split :: "char \<Rightarrow> string \<Rightarrow> string list" where
  "str_split c [] = [[]]"
| "str_split c (x # xs) =
     (if x = c then [] # str_split c xs
      else (case str_split c xs of [] \<Rightarrow> [[x]] | y # ys \<Rightarrow> (x # y) # ys))"

lemma str_split_nonempty [simp]: "str_split c s \<noteq> []"
  by (induction s) (auto split: list.splits)

lemma str_split_no_sep: "c \<notin> set s \<Longrightarrow> str_split c s = [s]"
  by (induction s) auto

lemma str_split_append_sep:
  "c \<notin> set s \<Longrightarrow> str_split c (s @ c # t) = s # str_split c t"
  by (induction s) auto

lemma length_str_split: "length (str_split c s) = Suc (count_list s c)"
  by (induction s) (auto split: list.splits)

lemma str_split_parts_no_sep: "p \<in> set (str_split c s) \<Longrightarrow> c \<notin> set p"
proof (induction s arbitrary: p)
  case Nil
  then show ?case by simp
next
  case (Cons x xs)
  then show ?case
    by (cases "str_split c xs") (auto split: if_splits)
qed

lemma str_join_split: "str_join [c] (str_split c s) = s"
proof (induction s)
  case Nil
  then show ?case by simp
next
  case (Cons x xs)
  show ?case
  proof (cases "str_split c xs")
    case Nil
    then show ?thesis by simp
  next
    case ys: (Cons y ys)
    with Cons.IH show ?thesis
      by (cases ys) auto
  qed
qed

text \<open>Decimal rendering of a natural number, as \<open>%d\<close> and \<open>strconv.Itoa\<close> print it.\<close>

fun show_nat :: "nat \<Rightarrow> string" where
  "show_nat n = (if n < 10 then [char_of (48 + n)]
                 else show_nat (n div 10) @ [char_of (48 + n mod 10)])"

declare show_nat.simps [simp del]

lemma show_nat_nonempty [simp]: "show_nat n \<noteq> []" "[] \<noteq> show_nat n"
  by (simp_all add: show_nat.simps [of n])

lemma of_char_digit: "a < 10 \<Longrightarrow> of_char (char_of (48 + a) :: char) = 48 + (a :: nat)"
  by simp

lemma char_of_digit_inj:
  assumes "a < 10" and "b < 10" and "char_of (48 + a) = (char_of (48 + b) :: char)"
  shows "a = (b :: nat)"
proof -
  have "of_char (char_of (48 + a) :: char) = (of_char (char_of (48 + b) :: char) :: nat)"
    using assms(3) by simp
  then show ?thesis
    unfolding of_char_digit [OF assms(1)] of_char_digit [OF assms(2)] by simp
qed

text \<open>The decimal rendering determines the number.\<close>

lemma show_nat_inj: "show_nat m = show_nat n \<Longrightarrow> m = n"
proof (induction m arbitrary: n rule: show_nat.induct)
  case (1 m)
  show ?case
  proof (cases "m < 10 \<or> n < 10")
    case True
    with "1.prems" have "m < 10 \<and> n < 10 \<and> char_of (48 + m) = (char_of (48 + n) :: char)"
      by (auto simp: show_nat.simps [of m] show_nat.simps [of n] split: if_splits)
    then show ?thesis by (blast intro: char_of_digit_inj)
  next
    case False
    with "1.prems" have d: "show_nat (m div 10) = show_nat (n div 10)"
      and c: "char_of (48 + m mod 10) = (char_of (48 + n mod 10) :: char)"
      by (auto simp: show_nat.simps [of m] show_nat.simps [of n])
    from d False have "m div 10 = n div 10"
      using "1.IH" by simp
    moreover from c have "m mod 10 = n mod 10"
      by (rule char_of_digit_inj [rotated 2]) simp_all
    ultimately show ?thesis by (metis div_mult_mod_eq)
  qed
qed

end
