(* ===== verification/Constants.thy ===== *)
theory Constants
  imports Prelude
begin

text \<open>
  The constants of \<open>pkg/constants/constants.go\<close>: the labels and annotations that carry a
  resource's name, scope and provenance, the finalizer that inhibits deletion, the yield
  timeout, and the label priorities.  The label keys are pairwise different, which is what lets
  a resource carry several of them in one map.
\<close>

section \<open>Labels, annotations and the finalizer\<close>

definition DeveloperVersion :: string where
  "DeveloperVersion = ''0.0.0''"

definition PrincipalPrefix :: string where
  "PrincipalPrefix = ''principal.''"

definition NameLabel :: string where
  "NameLabel = ''unikorn-cloud.org/name''"

definition DescriptionAnnotation :: string where
  "DescriptionAnnotation = ''unikorn-cloud.org/description''"

definition CreatorAnnotation :: string where
  "CreatorAnnotation = ''unikorn-cloud.org/creator''"

definition CreatorPrincipalAnnotation :: string where
  "CreatorPrincipalAnnotation = PrincipalPrefix @ CreatorAnnotation"

definition ModifierAnnotation :: string where
  "ModifierAnnotation = ''unikorn-cloud.org/modifier''"

definition ModifierPrincipalAnnotation :: string where
  "ModifierPrincipalAnnotation = PrincipalPrefix @ ModifierAnnotation"

definition ModifiedTimestampAnnotation :: string where
  "ModifiedTimestampAnnotation = ''unikorn-cloud.org/modifiedTimestamp''"

definition KindLabel :: string where
  "KindLabel = ''unikorn-cloud.org/kind''"

definition KindLabelValueOrganization :: string where
  "KindLabelValueOrganization = ''organization''"

definition KindLabelValueProject :: string where
  "KindLabelValueProject = ''project''"

definition KindLabelValueClusterManager :: string where
  "KindLabelValueClusterManager = ''clustermanager''"

definition KindLabelValueKubernetesCluster :: string where
  "KindLabelValueKubernetesCluster = ''kubernetescluster''"

definition KindLabelValueVirtualKubernetesCluster :: string where
  "KindLabelValueVirtualKubernetesCluster = ''virtualkubernetescluster''"

definition KindLabelValueComputeCluster :: string where
  "KindLabelValueComputeCluster = ''baremetalcluster''"

definition KindLabelValueApplicationSet :: string where
  "KindLabelValueApplicationSet = ''applicationset''"

definition OrganizationLabel :: string where
  "OrganizationLabel = ''unikorn-cloud.org/organization''"

definition OrganizationPrincipalLabel :: string where
  "OrganizationPrincipalLabel = PrincipalPrefix @ OrganizationLabel"

definition ProjectLabel :: string where
  "ProjectLabel = ''unikorn-cloud.org/project''"

definition ProjectPrincipalLabel :: string where
  "ProjectPrincipalLabel = PrincipalPrefix @ ProjectLabel"

definition UserLabel :: string where
  "UserLabel = ''unikorn-cloud.org/user''"

definition KubernetesClusterLabel :: string where
  "KubernetesClusterLabel = ''unikorn-cloud.org/kubernetescluster''"

definition ComputeClusterLabel :: string where
  "ComputeClusterLabel = ''unikorn-cloud.org/computecluster''"

definition ApplicationLabel :: string where
  "ApplicationLabel = ''unikorn-cloud.org/application''"

definition ApplicationSetLabel :: string where
  "ApplicationSetLabel = ''unikorn-cloud.org/applicationset''"

definition ApplicationIDLabel :: string where
  "ApplicationIDLabel = ''unikorn-cloud.org/application-id''"

definition NetworkLabel :: string where
  "NetworkLabel = ''unikorn-cloud.org/network-id''"

definition ConfigurationHashAnnotation :: string where
  "ConfigurationHashAnnotation = ''unikorn-cloud.org/config-hash''"

definition IdentityAnnotation :: string where
  "IdentityAnnotation = ''unikorn-cloud.org/identity-id''"

definition PhysicalNetworkAnnotation :: string where
  "PhysicalNetworkAnnotation = ''unikorn-cloud.org/physical-network-id''"

definition AllocationAnnotation :: string where
  "AllocationAnnotation = ''unikorn-cloud.org/allocation-id''"

definition ReferencedResourceKindLabel :: string where
  "ReferencedResourceKindLabel = ''unikorn-cloud.org/resource-kind''"

definition ReferencedResourceIDLabel :: string where
  "ReferencedResourceIDLabel = ''unikorn-cloud.org/resource-id''"

definition UndefinedName :: string where
  "UndefinedName = ''undefined''"

definition Finalizer :: string where
  "Finalizer = ''unikorn''"

section \<open>Durations and priorities\<close>

text \<open>A \<open>time.Duration\<close> counts nanoseconds; a \<open>time.Time\<close> is read as nanoseconds on one clock.\<close>

type_synonym duration = int
type_synonym time = int

definition second :: duration where
  "second = 1000000000"

text \<open>The zero \<open>time.Time\<close> is the first of January of year 1; times count from 1970.\<close>

definition zero_time :: time where
  "zero_time = -62135596800 * second"

definition DefaultYieldTimeout :: duration where
  "DefaultYieldTimeout = 10 * second"

definition LabelPriorities :: "string list" where
  "LabelPriorities = [KubernetesClusterLabel, ProjectLabel, OrganizationLabel]"

lemmas label_defs =
  NameLabel_def DescriptionAnnotation_def CreatorAnnotation_def ModifierAnnotation_def
  ModifiedTimestampAnnotation_def KindLabel_def OrganizationLabel_def ProjectLabel_def
  UserLabel_def KubernetesClusterLabel_def ComputeClusterLabel_def ApplicationLabel_def
  ApplicationSetLabel_def ApplicationIDLabel_def NetworkLabel_def
  ReferencedResourceKindLabel_def ReferencedResourceIDLabel_def

lemma scope_labels_distinct [simp]:
  "distinct [NameLabel, OrganizationLabel, ProjectLabel, UserLabel, KubernetesClusterLabel,
     ComputeClusterLabel, ApplicationLabel, ApplicationSetLabel, ApplicationIDLabel, NetworkLabel,
     KindLabel, ReferencedResourceKindLabel, ReferencedResourceIDLabel]"
  by (simp add: label_defs)

lemma label_neqs [simp]:
  "OrganizationLabel \<noteq> ProjectLabel" "ProjectLabel \<noteq> OrganizationLabel"
  "NameLabel \<noteq> OrganizationLabel" "OrganizationLabel \<noteq> NameLabel"
  "NameLabel \<noteq> ProjectLabel" "ProjectLabel \<noteq> NameLabel"
  "ApplicationLabel \<noteq> ApplicationIDLabel" "ApplicationIDLabel \<noteq> ApplicationLabel"
  by (simp_all add: label_defs)

lemma annotation_neqs [simp]:
  "DescriptionAnnotation \<noteq> CreatorAnnotation" "CreatorAnnotation \<noteq> DescriptionAnnotation"
  "ModifiedTimestampAnnotation \<noteq> DescriptionAnnotation"
  "DescriptionAnnotation \<noteq> ModifiedTimestampAnnotation"
  "ModifiedTimestampAnnotation \<noteq> CreatorAnnotation"
  "CreatorAnnotation \<noteq> ModifiedTimestampAnnotation"
  "ModifiedTimestampAnnotation \<noteq> ModifierAnnotation"
  "ModifierAnnotation \<noteq> ModifiedTimestampAnnotation"
  by (simp_all add: label_defs)

lemma DefaultYieldTimeout_pos [simp]: "0 < DefaultYieldTimeout"
  by (simp add: DefaultYieldTimeout_def second_def)

end
