(* ===== verification/Go_Errors.thy ===== *)
theory Go_Errors
  imports Constants
begin

text \<open>
  Error values.  Every \<open>errors.New\<close> sentinel of the repository is a constructor of
  \<open>sentinel\<close>; an error value is a sentinel, a wrapping made by \<open>fmt.Errorf\<close>, one of the two
  error structs (\<open>provisioners.Error\<close>, \<open>server/errors.Error\<close>), a \<open>retry.Error\<close>, a status
  error of the Kubernetes API, or some other error of a library.  \<open>errors.Is\<close> and
  \<open>errors.As\<close> walk the tree that \<open>Unwrap\<close> spans.  The second half is
  \<open>pkg/provisioners/errors.go\<close>: the dispositions and the typed provisioning error.
\<close>

section \<open>Sentinels\<close>

datatype sentinel =
    ErrYield | ProvErrNotFound | ErrTerminal | ErrUserActionRequired
  | CdErrNotFound | ErrItemLengthMismatch
  | ErrParseFlag | ErrCDDriver | ErrInvalidContext | ErrKubeconfig | ErrSecretFormatError
  | ErrAPIStatus | ErrConsistency | ErrUnsupportedKeyType | ErrKey | ErrTypeConversion
  | ErrResourceNotFound | CoreErrConflict
  | ErrK8SConnectionError | ErrNamespaceLookup
  | ErrStatusConditionLookup | ErrMissingLabel | ErrApplicationLookup | ErrVersionNotFound
  | ErrJSONUnmarshal | ErrResourceError | ErrAnnotation
  | CacheErrConflict | CacheErrInvalid | CacheErrNotFound | CacheErrWorkerPanic
  | ContextCanceled | ContextDeadlineExceeded | ErrUnsupported
  | ClientErrUnexpectedStatusCode | ClientErrResourceNotFound | ClientErrAccessDenied | ClientErrServerError
  | ClientErrUnexpectedStatus

text \<open>The text of each sentinel, as given to \<open>errors.New\<close>.\<close>

fun sentinel_text :: "sentinel \<Rightarrow> string" where
  "sentinel_text ErrYield = ''controller timeout yield''"
| "sentinel_text ProvErrNotFound = ''resource not found''"
| "sentinel_text ErrTerminal = ''provisioning terminally failed''"
| "sentinel_text ErrUserActionRequired = ''provisioning requires user action''"
| "sentinel_text CdErrNotFound = ''resource not found''"
| "sentinel_text ErrItemLengthMismatch = ''item count not as expected''"
| "sentinel_text ErrParseFlag = ''flag was unable to be parsed''"
| "sentinel_text ErrCDDriver = ''unhandled CD driver''"
| "sentinel_text ErrInvalidContext = ''context invalid''"
| "sentinel_text ErrKubeconfig = ''kubeconfig error''"
| "sentinel_text ErrSecretFormatError = ''secret incorrectly formatted''"
| "sentinel_text ErrAPIStatus = ''api status code unexpected''"
| "sentinel_text ErrConsistency = ''consistency error''"
| "sentinel_text ErrUnsupportedKeyType = ''private key type is unsupported''"
| "sentinel_text ErrKey = ''key error''"
| "sentinel_text ErrTypeConversion = ''type conversion error''"
| "sentinel_text ErrResourceNotFound = ''resource not found''"
| "sentinel_text CoreErrConflict = ''resource conflict''"
| "sentinel_text ErrK8SConnectionError = ''unable to connection the kubernetes API''"
| "sentinel_text ErrNamespaceLookup = ''unable to lookup namespace''"
| "sentinel_text ErrStatusConditionLookup = ''status condition not found''"
| "sentinel_text ErrMissingLabel = ''expected label is missing''"
| "sentinel_text ErrApplicationLookup = ''failed to lookup an application''"
| "sentinel_text ErrVersionNotFound = ''version not found''"
| "sentinel_text ErrJSONUnmarshal = ''failed to unmarshal JSON''"
| "sentinel_text ErrResourceError = ''unable to assert resource type''"
| "sentinel_text ErrAnnotation = ''a required annotation was missing''"
| "sentinel_text CacheErrConflict = ''a cache index was witnessed more than once''"
| "sentinel_text CacheErrInvalid = ''cache invalid''"
| "sentinel_text CacheErrNotFound = ''cache index not found''"
| "sentinel_text CacheErrWorkerPanic = ''worker panic''"
| "sentinel_text ContextCanceled = ''context canceled''"
| "sentinel_text ContextDeadlineExceeded = ''context deadline exceeded''"
| "sentinel_text ErrUnsupported = ''unsupported operation''"
| "sentinel_text ClientErrUnexpectedStatusCode = ''unexpected status code''"
| "sentinel_text ClientErrResourceNotFound = ''resource not found''"
| "sentinel_text ClientErrAccessDenied = ''access denied''"
| "sentinel_text ClientErrServerError = ''server error''"
| "sentinel_text ClientErrUnexpectedStatus = ''unexpected status code''"

section \<open>Error values\<close>

text \<open>
  The status errors of the Kubernetes API carry a reason; the code asks for two of them
  (\<open>IsNotFound\<close>, \<open>IsConflict\<close>).  \<open>Wrapf pre e post\<close> is \<open>fmt.Errorf(pre + "%w" + post, e)\<close>.
  \<open>HTTPError\<close> holds the fields of \<open>server/errors.Error\<close>: status, code, description, headers,
  the wrapped library error and the values to log.
\<close>

datatype api_reason = StatusNotFound | StatusConflict | StatusAlreadyExists | StatusOther string

type_synonym reason = string

datatype gerror =
    Sentinel sentinel
  | Wrapf string gerror string
  | ProvError gerror reason string
  | HTTPError nat string string "(string, string list) fmap" "gerror option" "string list"
  | RetryError gerror gerror
  | APIError api_reason string
  | OtherError string

type_synonym 'a result = "(gerror, 'a) outcome"

text \<open>\<open>errors.Is(err, target)\<close> for a sentinel target: the error itself, or anything below it.\<close>

primrec errors_Is :: "gerror \<Rightarrow> sentinel \<Rightarrow> bool" where
  "errors_Is (Sentinel s) t = (s = t)"
| "errors_Is (Wrapf pre e post) t = errors_Is e t"
| "errors_Is (ProvError d r m) t = errors_Is d t"
| "errors_Is (HTTPError st c desc h eo vs) t = (case map_option (\<lambda>e. errors_Is e t) eo of None \<Rightarrow> False | Some b \<Rightarrow> b)"
| "errors_Is (RetryError c e) t = (errors_Is c t \<or> errors_Is e t)"
| "errors_Is (APIError r m) t = False"
| "errors_Is (OtherError m) t = False"

text \<open>\<open>errors.As(err, *provisioners.Error)\<close>: the first such error, outermost first.\<close>

primrec errors_As_prov :: "gerror \<Rightarrow> (gerror \<times> reason \<times> string) option" where
  "errors_As_prov (Sentinel s) = None"
| "errors_As_prov (Wrapf pre e post) = errors_As_prov e"
| "errors_As_prov (ProvError d r m) = Some (d, r, m)"
| "errors_As_prov (HTTPError st c desc h eo vs) =
     (case map_option errors_As_prov eo of None \<Rightarrow> None | Some x \<Rightarrow> x)"
| "errors_As_prov (RetryError c e) =
     (case errors_As_prov c of Some x \<Rightarrow> Some x | None \<Rightarrow> errors_As_prov e)"
| "errors_As_prov (APIError r m) = None"
| "errors_As_prov (OtherError m) = None"

text \<open>\<open>errors.As(err, *server/errors.Error)\<close>.\<close>

primrec errors_As_http :: "gerror \<Rightarrow> gerror option" where
  "errors_As_http (Sentinel s) = None"
| "errors_As_http (Wrapf pre e post) = errors_As_http e"
| "errors_As_http (ProvError d r m) = errors_As_http d"
| "errors_As_http (HTTPError st c desc h eo vs) = Some (HTTPError st c desc h eo vs)"
| "errors_As_http (RetryError c e) =
     (case errors_As_http c of Some x \<Rightarrow> Some x | None \<Rightarrow> errors_As_http e)"
| "errors_As_http (APIError r m) = None"
| "errors_As_http (OtherError m) = None"

text \<open>\<open>kerrors.IsNotFound\<close> and \<open>kerrors.IsConflict\<close> unwrap to the status error and read its reason.\<close>

primrec api_status :: "gerror \<Rightarrow> api_reason option" where
  "api_status (Sentinel s) = None"
| "api_status (Wrapf pre e post) = api_status e"
| "api_status (ProvError d r m) = api_status d"
| "api_status (HTTPError st c desc h eo vs) =
     (case map_option api_status eo of None \<Rightarrow> None | Some x \<Rightarrow> x)"
| "api_status (RetryError c e) =
     (case api_status c of Some x \<Rightarrow> Some x | None \<Rightarrow> api_status e)"
| "api_status (APIError r m) = Some r"
| "api_status (OtherError m) = None"

definition IsNotFound :: "gerror \<Rightarrow> bool" where
  "IsNotFound e \<longleftrightarrow> api_status e = Some StatusNotFound"

definition IsConflict :: "gerror \<Rightarrow> bool" where
  "IsConflict e \<longleftrightarrow> api_status e = Some StatusConflict"

lemma IsNotFound_simps [err_simps, simp]:
  "IsNotFound (APIError r m) \<longleftrightarrow> r = StatusNotFound"
  "\<not> IsNotFound (Sentinel s)" "\<not> IsNotFound (OtherError m)"
  by (auto simp: IsNotFound_def)

lemma IsConflict_simps [err_simps, simp]:
  "IsConflict (APIError r m) \<longleftrightarrow> r = StatusConflict"
  "\<not> IsConflict (Sentinel s)" "\<not> IsConflict (OtherError m)"
  by (auto simp: IsConflict_def)

section \<open>Typed provisioning errors (pkg/provisioners/errors.go)\<close>

definition newError :: "gerror \<Rightarrow> reason \<Rightarrow> string \<Rightarrow> gerror" where
  "newError disposition reason message = ProvError disposition reason message"

definition Terminal :: "reason \<Rightarrow> string \<Rightarrow> gerror" where
  "Terminal reason message = newError (Sentinel ErrTerminal) reason message"

definition UserActionRequired :: "reason \<Rightarrow> string \<Rightarrow> gerror" where
  "UserActionRequired reason message = newError (Sentinel ErrUserActionRequired) reason message"

definition Yield :: "reason \<Rightarrow> string \<Rightarrow> gerror" where
  "Yield reason message = newError (Sentinel ErrYield) reason message"

definition IsTerminal :: "gerror \<Rightarrow> bool" where
  "IsTerminal err \<longleftrightarrow> errors_Is err ErrTerminal \<or> errors_Is err ErrUserActionRequired"

text \<open>
  \<open>Error()\<close>: the text of an error.  A typed provisioning error embeds disposition, reason and
  message; an HTTP error shows its description; a retry error shows the last callback error.
\<close>

primrec error_text :: "gerror \<Rightarrow> string" where
  "error_text (Sentinel s) = sentinel_text s"
| "error_text (Wrapf pre e post) = pre @ error_text e @ post"
| "error_text (ProvError d r m) =
     (if m = '''' then error_text d @ '': '' @ r
      else error_text d @ '': '' @ r @ '': '' @ m)"
| "error_text (HTTPError st c desc h eo vs) = desc"
| "error_text (RetryError c e) = error_text e"
| "error_text (APIError r m) = m"
| "error_text (OtherError m) = m"

section \<open>Dependency errors\<close>

text \<open>
  The reasons are strings (the vocabulary is open).  \<open>scheme.ObjectKinds\<close> belongs to the
  Kubernetes libraries: its answer for the object is the argument \<open>gvks\<close>, \<open>None\<close> where it
  returns an error.
\<close>

record gvk =
  gvk_group :: string
  gvk_version :: string
  gvk_kind :: string

definition ConditionReasonDependencyNotReady :: reason where
  "ConditionReasonDependencyNotReady = ''DependencyNotReady''"

definition ConditionReasonDependencyFailed :: reason where
  "ConditionReasonDependencyFailed = ''DependencyFailed''"

definition ConditionReasonDependencyNotFound :: reason where
  "ConditionReasonDependencyNotFound = ''DependencyNotFound''"

text \<open>\<open>%q\<close> on the bytes a label value may hold: backslash and double quote are escaped.\<close>

definition go_quote :: "string \<Rightarrow> string" where
  "go_quote s =
     CHR 0x22 # concat (map (\<lambda>c. if c = CHR 0x22 \<or> c = CHR 0x5C then [CHR 0x5C, c] else [c]) s) @ [CHR 0x22]"

definition describeResource :: "gvk list option \<Rightarrow> string \<Rightarrow> smap \<Rightarrow> string" where
  "describeResource gvks object_name labels =
     (let kind = (case gvks of Some (g # _) \<Rightarrow> gvk_kind g | _ \<Rightarrow> ''resource'');
          id' = object_name;
          name = str_at labels NameLabel
      in if name = '''' then kind @ '' '' @ id'
         else kind @ '' '' @ go_quote name @ '' ('' @ id' @ '')'')"

definition DependencyNotReady :: "gvk list option \<Rightarrow> string \<Rightarrow> smap \<Rightarrow> gerror" where
  "DependencyNotReady gvks n ls =
     Yield ConditionReasonDependencyNotReady (describeResource gvks n ls @ '' is not ready'')"

definition DependencyFailed :: "gvk list option \<Rightarrow> string \<Rightarrow> smap \<Rightarrow> gerror" where
  "DependencyFailed gvks n ls =
     Yield ConditionReasonDependencyFailed (describeResource gvks n ls @ '' has failed'')"

definition DependencyNotFound :: "gvk list option \<Rightarrow> string \<Rightarrow> smap \<Rightarrow> gerror" where
  "DependencyNotFound gvks n ls =
     Terminal ConditionReasonDependencyNotFound (describeResource gvks n ls @ '' does not exist'')"

lemmas prov_error_defs =
  newError_def Terminal_def UserActionRequired_def Yield_def
  DependencyNotReady_def DependencyFailed_def DependencyNotFound_def

section \<open>Dispositions survive wrapping\<close>

text \<open>
  \<open>wraps ps e\<close> wraps an error in several layers of \<open>fmt.Errorf\<close>, innermost layer last.
\<close>

fun wraps :: "(string \<times> string) list \<Rightarrow> gerror \<Rightarrow> gerror" where
  "wraps [] e = e"
| "wraps ((pre, post) # ps) e = Wrapf pre (wraps ps e) post"

lemma errors_Is_wraps [err_simps, simp]: "errors_Is (wraps ps e) t = errors_Is e t"
  by (induction ps e rule: wraps.induct) auto

lemma errors_As_prov_wraps [err_simps, simp]: "errors_As_prov (wraps ps e) = errors_As_prov e"
  by (induction ps e rule: wraps.induct) auto

lemma errors_As_http_wraps [err_simps, simp]: "errors_As_http (wraps ps e) = errors_As_http e"
  by (induction ps e rule: wraps.induct) auto

lemma IsTerminal_wraps [err_simps, simp]: "IsTerminal (wraps ps e) = IsTerminal e"
  by (simp add: IsTerminal_def)

lemma api_status_wraps [err_simps, simp]: "api_status (wraps ps e) = api_status e"
  by (induction ps e rule: wraps.induct) auto

lemma Yield_not_terminal [err_simps]:
  "errors_Is (Yield r m) ErrYield" "\<not> IsTerminal (Yield r m)"
  by (simp_all add: prov_error_defs IsTerminal_def)

lemma Terminal_terminal [err_simps]:
  "IsTerminal (Terminal r m)" "\<not> errors_Is (Terminal r m) ErrYield"
  by (simp_all add: prov_error_defs IsTerminal_def)

lemma UserActionRequired_terminal [err_simps]:
  "IsTerminal (UserActionRequired r m)" "\<not> errors_Is (UserActionRequired r m) ErrYield"
  by (simp_all add: prov_error_defs IsTerminal_def)

text \<open>An error that \<open>errors.As\<close> finds inside another has its disposition seen from outside.\<close>

lemma errors_As_prov_Is:
  "errors_As_prov e = Some (d, r, m) \<Longrightarrow> errors_Is d t \<Longrightarrow> errors_Is e t"
proof (induction e)
  case (HTTPError st c desc h eo vs)
  then show ?case by (cases eo) auto
next
  case (RetryError c e)
  then show ?case by (auto split: option.splits)
qed auto

end
