(* ===== verification/Proc.thy ===== *)
theory Proc
  imports Go_Errors
begin

text \<open>
  Processes.  A Go function that talks to the outside world is a process: a tree whose inner
  nodes are single atomic accesses to the world (one call of the Kubernetes API, one access to
  a shared counter under its lock) and whose leaves are outcomes.  Running a process alone is
  \<open>run\<close>; running the goroutines of an \<open>errgroup\<close> is \<open>interleave\<close>, which lets a schedule pick
  which goroutine makes its next access.  A schedule that stops early leaves the remaining
  goroutines to finish one after the other, so a group always returns: the trees are finite in
  depth.
\<close>

section \<open>Processes\<close>

datatype (dead 'w, 'a) proc =
    Ret "'a result"
  | Act "'w \<Rightarrow> ('w, 'a) proc \<times> 'w"

primrec bindR :: "('w, 'a) proc \<Rightarrow> ('a result \<Rightarrow> ('w, 'b) proc) \<Rightarrow> ('w, 'b) proc" where
  "bindR (Ret r) k = k r"
| "bindR (Act f) k = Act (\<lambda>w. map_prod (\<lambda>p. bindR p k) id (f w))"

text \<open>\<open>bindP\<close> is the pattern \<open>x, err := f(); if err != nil \<open>{\<close> return err \<open>}\<close>\<close>.\<close>

definition bindP :: "('w, 'a) proc \<Rightarrow> ('a \<Rightarrow> ('w, 'b) proc) \<Rightarrow> ('w, 'b) proc" where
  "bindP p k = bindR p (\<lambda>r. case r of Ok x \<Rightarrow> k x | Err e \<Rightarrow> Ret (Err e) | Panic \<Rightarrow> Ret Panic)"

abbreviation return :: "'a \<Rightarrow> ('w, 'a) proc" where
  "return x \<equiv> Ret (Ok x)"

abbreviation throw :: "gerror \<Rightarrow> ('w, 'a) proc" where
  "throw e \<equiv> Ret (Err e)"

text \<open>One atomic access to the world.\<close>

definition call :: "('w \<Rightarrow> 'a result \<times> 'w) \<Rightarrow> ('w, 'a) proc" where
  "call f = Act (\<lambda>w. case f w of (r, w') \<Rightarrow> (Ret r, w'))"

primrec run :: "('w, 'a) proc \<Rightarrow> 'w \<Rightarrow> 'a result \<times> 'w" where
  "run (Ret r) = (\<lambda>w. (r, w))"
| "run (Act f) = (\<lambda>w. case map_prod run id (f w) of (g, w') \<Rightarrow> g w')"

lemma run_Ret [run_simps, simp]: "run (Ret r) w = (r, w)"
  by simp

lemma run_Act: "run (Act f) w = (case f w of (p, w') \<Rightarrow> run p w')"
  by (cases "f w") simp

declare run.simps(2) [simp del]

lemma run_call [run_simps, simp]: "run (call f) w = f w"
  by (simp add: call_def run_Act split: prod.splits)

lemma proc_induct [case_names Ret Act]:
  assumes "\<And>r. P (Ret r)"
    and "\<And>f. (\<And>w p w'. f w = (p, w') \<Longrightarrow> P p) \<Longrightarrow> P (Act f)"
  shows "P p"
proof (induction p)
  case (Ret r)
  show ?case by (rule assms(1))
next
  case (Act f)
  show ?case
  proof (rule assms(2))
    fix w p w' assume fw: "f w = (p, w')"
    show "P p" by (rule Act [of "f w"]) (rule rangeI, simp add: fw fsts.simps)
  qed
qed

lemma run_bindR: "run (bindR p k) w = (case run p w of (r, w') \<Rightarrow> run (k r) w')"
proof (induction p arbitrary: w rule: proc_induct)
  case (Ret r)
  then show ?case by simp
next
  case (Act f)
  obtain p' w' where fw: "f w = (p', w')" by (cases "f w")
  then show ?case by (simp add: run_Act fw Act.IH [OF fw])
qed

lemma run_bindP [run_simps]:
  "run (bindP p k) w =
     (case run p w of
        (Ok x, w') \<Rightarrow> run (k x) w'
      | (Err e, w') \<Rightarrow> (Err e, w')
      | (Panic, w') \<Rightarrow> (Panic, w'))"
  by (simp add: bindP_def run_bindR split: prod.splits outcome.splits)

lemma bindP_Ret [run_simps, simp]:
  "bindP (Ret (Ok x)) k = k x" "bindP (Ret (Err e)) k = Ret (Err e)" "bindP (Ret Panic) k = Ret Panic"
  by (simp_all add: bindP_def)

lemma run_bindP_Ok:
  "run p w = (Ok x, w') \<Longrightarrow> run (bindP p k) w = run (k x) w'"
  by (simp add: run_bindP)

lemma run_bindP_Err:
  "run p w = (Err e, w') \<Longrightarrow> run (bindP p k) w = (Err e, w')"
  by (simp add: run_bindP)

lemma run_bindP_OkD:
  assumes "run (bindP p k) w = (Ok y, w2)"
  obtains x w1 where "run p w = (Ok x, w1)" and "run (k x) w1 = (Ok y, w2)"
  using assms by (auto simp: run_bindP split: prod.splits outcome.splits)

lemma bindR_assoc: "bindR (bindR p k) h = bindR p (\<lambda>r. bindR (k r) h)"
proof (induction p rule: proc_induct)
  case (Ret r)
  then show ?case by simp
next
  case (Act f)
  have "map_prod (\<lambda>p. bindR p h) id (map_prod (\<lambda>p. bindR p k) id (f w)) =
        map_prod (\<lambda>p. bindR p (\<lambda>r. bindR (k r) h)) id (f w)" for w
    using Act.IH by (cases "f w") auto
  then show ?case by simp
qed

lemma bindP_assoc: "bindP (bindP p k) h = bindP p (\<lambda>x. bindP (k x) h)"
proof -
  have "bindR (case r of Ok x \<Rightarrow> k x | Err e \<Rightarrow> Ret (Err e) | Panic \<Rightarrow> Ret Panic)
          (\<lambda>r. case r of Ok x \<Rightarrow> h x | Err e \<Rightarrow> Ret (Err e) | Panic \<Rightarrow> Ret Panic) =
        (case r of Ok x \<Rightarrow> bindR (k x) (\<lambda>r. case r of Ok x \<Rightarrow> h x | Err e \<Rightarrow> Ret (Err e) | Panic \<Rightarrow> Ret Panic)
         | Err e \<Rightarrow> Ret (Err e) | Panic \<Rightarrow> Ret Panic)" for r
    by (cases r) auto
  then show ?thesis by (simp add: bindP_def bindR_assoc)
qed

text \<open>A critical section: the body runs as one access, as it does under a mutex.\<close>

definition locked :: "('w, 'a) proc \<Rightarrow> ('w, 'a) proc" where
  "locked p = call (run p)"

lemma run_locked [run_simps, simp]: "run (locked p) w = run p w"
  by (simp add: locked_def)

section \<open>Invariants of the world\<close>

text \<open>
  \<open>preserves I p\<close>: every single access of \<open>p\<close> keeps \<open>I\<close>.  It is a property of the accesses,
  not of the whole run, so it is stable under interleaving.
\<close>

primrec preserves :: "('w \<Rightarrow> bool) \<Rightarrow> ('w, 'a) proc \<Rightarrow> bool" where
  "preserves I (Ret r) = True"
| "preserves I (Act f) =
     (\<forall>w. I w \<longrightarrow> (case map_prod (preserves I) id (f w) of (ok, w') \<Rightarrow> ok \<and> I w'))"

lemma preserves_Act:
  "preserves I (Act f) \<longleftrightarrow> (\<forall>w p w'. I w \<longrightarrow> f w = (p, w') \<longrightarrow> preserves I p \<and> I w')"
  by (simp add: map_prod_def split_beta) (metis fst_conv snd_conv prod.collapse)

declare preserves.simps(2) [simp del]

lemma preserves_run: "preserves I p \<Longrightarrow> I w \<Longrightarrow> run p w = (r, w') \<Longrightarrow> I w'"
proof (induction p arbitrary: w rule: proc_induct)
  case (Ret x)
  then show ?case by simp
next
  case (Act f)
  obtain p1 w1 where fw: "f w = (p1, w1)" by (cases "f w")
  with Act.prems have "preserves I p1" "I w1" "run p1 w1 = (r, w')"
    by (auto simp: preserves_Act run_Act)
  with Act.IH [OF fw] show ?case by blast
qed

lemma preserves_bindR:
  "preserves I p \<Longrightarrow> (\<And>r. preserves I (k r)) \<Longrightarrow> preserves I (bindR p k)"
proof (induction p rule: proc_induct)
  case (Ret x)
  then show ?case by simp
next
  case (Act f)
  have "preserves I (bindR p' k)" if "I w" "f w = (p', w')" for w p' w'
    using that Act.IH Act.prems by (simp add: preserves_Act)
  with Act.prems(1) show ?case
    by (auto simp: preserves_Act map_prod_def split: prod.splits)
qed

lemma preserves_bindP [intro]:
  "preserves I p \<Longrightarrow> (\<And>x. preserves I (k x)) \<Longrightarrow> preserves I (bindP p k)"
  unfolding bindP_def by (rule preserves_bindR) (auto split: outcome.splits)

lemma preserves_call:
  "preserves I (call f) \<longleftrightarrow> (\<forall>w r w'. I w \<longrightarrow> f w = (r, w') \<longrightarrow> I w')"
  unfolding call_def preserves_Act by (fastforce split: prod.splits)

lemma preserves_locked [intro]: "preserves I p \<Longrightarrow> preserves I (locked p)"
  unfolding locked_def preserves_call by (auto dest: preserves_run)

text \<open>\<open>leaves v p\<close>: no access of \<open>p\<close> changes what \<open>v\<close> sees of the world.\<close>

primrec leaves :: "('w \<Rightarrow> 'v) \<Rightarrow> ('w, 'a) proc \<Rightarrow> bool" where
  "leaves v (Ret r) = True"
| "leaves v (Act f) = (\<forall>w. case map_prod (leaves v) id (f w) of (ok, w') \<Rightarrow> ok \<and> v w' = v w)"

lemma leaves_Act:
  "leaves v (Act f) \<longleftrightarrow> (\<forall>w p w'. f w = (p, w') \<longrightarrow> leaves v p \<and> v w' = v w)"
  by (simp add: map_prod_def split_beta) (metis fst_conv snd_conv prod.collapse)

declare leaves.simps(2) [simp del]

lemma leaves_preserves:
  "leaves v p \<Longrightarrow> (\<And>w w'. v w = v w' \<Longrightarrow> I w \<longleftrightarrow> I w') \<Longrightarrow> preserves I p"
proof (induction p rule: proc_induct)
  case (Ret r)
  show ?case by simp
next
  case (Act f)
  have "preserves I p \<and> I w'" if "I w" and fw: "f w = (p, w')" for w p w'
  proof -
    from Act.prems(1) fw have "leaves v p" and "v w' = v w" by (auto simp: leaves_Act)
    with Act.IH [OF fw] Act.prems(2) that show ?thesis by blast
  qed
  then show ?case by (simp add: preserves_Act)
qed

lemma leaves_run: "leaves v p \<Longrightarrow> run p w = (r, w') \<Longrightarrow> v w' = v w"
  using preserves_run [of "\<lambda>x. v x = v w" p w r w'] leaves_preserves [of v p "\<lambda>x. v x = v w"] by auto

lemma leaves_call: "leaves v (call f) \<longleftrightarrow> (\<forall>w r w'. f w = (r, w') \<longrightarrow> v w' = v w)"
  unfolding call_def leaves_Act by (fastforce split: prod.splits)

section \<open>Goroutines and errgroup\<close>

text \<open>
  The goroutines of a group, \<open>None\<close> once finished, and the log of their outcomes in the order
  in which they returned.  A schedule is a list of goroutine numbers: each entry lets that
  goroutine make one access, or return.
\<close>

type_synonym 'w thread = "('w, unit) proc option"
type_synonym completion = "nat \<times> unit result"

fun drain :: "nat \<Rightarrow> 'w thread list \<Rightarrow> completion list \<Rightarrow> ('w, completion list) proc" where
  "drain i [] done = return done"
| "drain i (None # ts) done = drain (Suc i) ts done"
| "drain i (Some p # ts) done = bindR p (\<lambda>r. drain (Suc i) ts (done @ [(i, r)]))"

fun interleave :: "nat list \<Rightarrow> 'w thread list \<Rightarrow> completion list \<Rightarrow> ('w, completion list) proc" where
  "interleave [] ts done = drain 0 ts done"
| "interleave (i # sched) ts done =
     (if i < length ts
      then (case ts ! i of
              None \<Rightarrow> interleave sched ts done
            | Some (Ret r) \<Rightarrow> interleave sched (ts[i := None]) (done @ [(i, r)])
            | Some (Act f) \<Rightarrow>
                Act (\<lambda>w. case f w of (p, w') \<Rightarrow> (interleave sched (ts[i := Some p]) done, w')))
      else interleave sched ts done)"

text \<open>
  \<open>Group.Wait\<close>: a panic of a goroutine is a panic of the caller, otherwise the first error to be
  returned is the error of the group.
\<close>

fun first_err :: "completion list \<Rightarrow> gerror option" where
  "first_err [] = None"
| "first_err ((i, Err e) # cs) = Some e"
| "first_err ((i, Ok u) # cs) = first_err cs"
| "first_err ((i, Panic) # cs) = first_err cs"

definition group_wait :: "completion list \<Rightarrow> unit result" where
  "group_wait cs =
     (if Panic \<in> snd ` set cs then Panic
      else case first_err cs of None \<Rightarrow> Ok () | Some e \<Rightarrow> Err e)"

definition group :: "nat list \<Rightarrow> ('w, unit) proc list \<Rightarrow> ('w, unit) proc" where
  "group sched ps = bindP (interleave sched (map Some ps) []) (\<lambda>cs. Ret (group_wait cs))"

lemma first_err_None: "first_err cs = None \<longleftrightarrow> (\<forall>c \<in> set cs. \<forall>e. snd c \<noteq> Err e)"
proof (induction cs)
  case Nil
  then show ?case by simp
next
  case (Cons c cs)
  then show ?case by (cases c; cases "snd c") auto
qed

lemma first_err_Some:
  "first_err cs = Some e \<Longrightarrow>
   \<exists>xs i ys. cs = xs @ (i, Err e) # ys \<and> (\<forall>c \<in> set xs. \<forall>e'. snd c \<noteq> Err e')"
proof (induction cs)
  case Nil
  then show ?case by simp
next
  case (Cons c cs)
  show ?case
  proof (cases "snd c")
    case (Err e')
    with Cons.prems show ?thesis by (cases c) (auto intro: exI [of _ "[]"])
  next
    case (Ok u)
    with Cons.prems have "first_err cs = Some e" by (cases c) auto
    then obtain xs i ys where "cs = xs @ (i, Err e) # ys" "\<forall>c \<in> set xs. \<forall>e'. snd c \<noteq> Err e'"
      using Cons.IH by blast
    with Ok show ?thesis by (intro exI [of _ "c # xs"]) auto
  next
    case Panic
    with Cons.prems have "first_err cs = Some e" by (cases c) auto
    then obtain xs i ys where "cs = xs @ (i, Err e) # ys" "\<forall>c \<in> set xs. \<forall>e'. snd c \<noteq> Err e'"
      using Cons.IH by blast
    with Panic show ?thesis by (intro exI [of _ "c # xs"]) auto
  qed
qed

lemma group_wait_Ok: "group_wait cs = Ok u \<longleftrightarrow> (\<forall>c \<in> set cs. snd c = Ok ())"
proof -
  have "(\<forall>c \<in> set cs. snd c = Ok ()) \<longleftrightarrow>
        Panic \<notin> snd ` set cs \<and> (\<forall>c \<in> set cs. \<forall>e. snd c \<noteq> Err e)"
  proof (intro iffI ballI conjI)
    fix c assume "Panic \<notin> snd ` set cs \<and> (\<forall>c \<in> set cs. \<forall>e. snd c \<noteq> Err e)" and "c \<in> set cs"
    then show "snd c = Ok ()" by (cases "snd c") (auto simp: image_iff)
  qed (auto simp: image_iff)
  then show ?thesis
    by (auto simp: group_wait_def first_err_None [symmetric] split: option.splits)
qed

text \<open>
  Whatever the schedule, a group lets every goroutine run to its end: the completion log lists
  each one exactly once.  \<open>live ts\<close> are the numbers of the unfinished goroutines.
\<close>

definition live :: "nat \<Rightarrow> 'w thread list \<Rightarrow> nat list" where
  "live i ts = map fst (filter (\<lambda>(j, t). t \<noteq> None) (zip [i ..< i + length ts] ts))"

lemma live_Nil [simp]: "live i [] = []"
  by (simp add: live_def)

lemma live_Cons [simp]:
  "live i (t # ts) = (if t = None then live (Suc i) ts else i # live (Suc i) ts)"
  by (simp add: live_def upt_conv_Cons del: upt_Suc)

lemma live_map_Some: "live i (map Some ps) = [i ..< i + length ps]"
  by (induction ps arbitrary: i) (simp_all add: upt_conv_Cons del: upt_Suc)

lemma live_update_Some: "i < length ts \<Longrightarrow> ts ! i = Some q \<Longrightarrow> live j (ts[i := Some p]) = live j ts"
proof (induction ts arbitrary: i j)
  case Nil
  then show ?case by simp
next
  case (Cons t ts)
  then show ?case by (cases i) auto
qed

lemma live_update_None:
  "i < length ts \<Longrightarrow> ts ! i = Some q \<Longrightarrow> mset (live j ts) = add_mset (j + i) (mset (live j (ts[i := None])))"
proof (induction ts arbitrary: i j)
  case Nil
  then show ?case by simp
next
  case (Cons t ts)
  show ?case
  proof (cases i)
    case 0
    with Cons.prems show ?thesis by simp
  next
    case (Suc k)
    with Cons.prems have "mset (live (Suc j) ts) = add_mset (Suc j + k) (mset (live (Suc j) (ts[k := None])))"
      by (intro Cons.IH) auto
    with Suc show ?thesis by auto
  qed
qed

lemma drain_completes:
  "run (drain i ts done) w = (r, w') \<Longrightarrow>
   \<exists>cs. r = Ok cs \<and> mset (map fst cs) = mset (map fst done) + mset (live i ts)"
proof (induction i ts "done" arbitrary: w rule: drain.induct)
  case (1 i "done")
  then show ?case by auto
next
  case (2 i ts "done")
  then show ?case by simp
next
  case (3 i p ts "done")
  obtain r1 w1 where p: "run p w = (r1, w1)" by (cases "run p w")
  with "3.prems" have "run (drain (Suc i) ts (done @ [(i, r1)])) w1 = (r, w')"
    by (simp add: run_bindR)
  from "3.IH" [OF this] show ?case by simp
qed

lemma interleave_completes:
  "run (interleave sched ts done) w = (r, w') \<Longrightarrow>
   \<exists>cs. r = Ok cs \<and> mset (map fst cs) = mset (map fst done) + mset (live 0 ts)"
proof (induction sched arbitrary: ts "done" w)
  case Nil
  then show ?case using drain_completes by force
next
  case (Cons i sched)
  show ?case
  proof (cases "i < length ts \<and> ts ! i \<noteq> None")
    case False
    with Cons show ?thesis by (auto split: if_splits option.splits)
  next
    case True
    then obtain p where i: "i < length ts" and p: "ts ! i = Some p" by auto
    show ?thesis
    proof (cases p)
      case (Ret r1)
      with Cons.prems i p have "run (interleave sched (ts[i := None]) (done @ [(i, r1)])) w = (r, w')"
        by simp
      from Cons.IH [OF this] show ?thesis
        using live_update_None [OF i p, of 0] by auto
    next
      case (Act f)
      obtain q w1 where "f w = (q, w1)" by (cases "f w")
      with Cons.prems i p Act have "run (interleave sched (ts[i := Some q]) done) w1 = (r, w')"
        by (simp add: run_Act)
      from Cons.IH [OF this] show ?thesis
        by (simp add: live_update_Some [OF i p])
    qed
  qed
qed

lemma preserves_drain:
  "(\<And>p. Some p \<in> set ts \<Longrightarrow> preserves I p) \<Longrightarrow> preserves I (drain i ts done)"
  by (induction i ts "done" rule: drain.induct) (auto intro: preserves_bindR)

lemma preserves_interleave:
  "(\<And>p. Some p \<in> set ts \<Longrightarrow> preserves I p) \<Longrightarrow> preserves I (interleave sched ts done)"
proof (induction sched arbitrary: ts "done")
  case Nil
  then show ?case by (simp add: preserves_drain)
next
  case (Cons i sched)
  have upd: "preserves I p" if "Some p \<in> set (ts[i := t])" and "\<And>q. t = Some q \<Longrightarrow> preserves I q" for p t
    using that Cons.prems set_update_subset_insert [of ts i t] by auto
  show ?case
  proof (cases "i < length ts \<and> ts ! i \<noteq> None")
    case False
    with Cons show ?thesis by (auto split: if_splits option.splits)
  next
    case True
    then obtain p where i: "i < length ts" and p: "ts ! i = Some p" by auto
    then have pp: "preserves I p" using Cons.prems nth_mem by force
    show ?thesis
    proof (cases p)
      case (Ret r)
      have "preserves I (interleave sched (ts[i := None]) (done @ [(i, r)]))"
        by (rule Cons.IH) (auto dest: upd)
      with i p Ret show ?thesis by simp
    next
      case (Act f)
      have "preserves I (interleave sched (ts[i := Some q]) done)" if "preserves I q" for q
        by (rule Cons.IH) (use that upd in auto)
      with pp i p Act show ?thesis by (auto simp: preserves_Act split: prod.splits)
    qed
  qed
qed

lemma preserves_group [intro]:
  "(\<And>p. p \<in> set ps \<Longrightarrow> preserves I p) \<Longrightarrow> preserves I (group sched ps)"
  unfolding group_def by (intro preserves_bindP preserves_interleave) auto

end
