(* ===== verification/Api_Types.thy ===== *)
theory Api_Types
  imports Proc
begin

text \<open>
  The API types of \<open>pkg/apis/unikorn/v1alpha1\<close>: object metadata, status conditions and their
  reasons, the managed resource (the interface of \<open>interfaces.go\<close> as the in-tree implementation
  under \<open>fake\<close> fills it), tags, and the Helm application with its versions.  Functions of the
  Kubernetes libraries that these types call are fields of \<open>klib\<close>; \<open>klib_ok\<close> states what
  their documentation promises.
\<close>

section \<open>Object metadata and conditions\<close>

text \<open>A nil label or annotation map reads as the empty map.\<close>

record objmeta =
  om_name :: string
  om_generateName :: string
  om_namespace :: string
  om_labels :: smap
  om_annotations :: smap
  om_finalizers :: "string list"
  om_creationTimestamp :: time
  om_deletionTimestamp :: "time option"
  om_generation :: int
  om_resourceVersion :: string

text \<open>\<open>metav1.Condition\<close>; type and status are strings on the wire.\<close>

record condition =
  c_type :: string
  c_status :: string
  c_reason :: string
  c_message :: string
  c_lastTransition :: time

definition ConditionTrue :: string where "ConditionTrue = ''True''"
definition ConditionFalse :: string where "ConditionFalse = ''False''"

definition ConditionAvailable :: string where "ConditionAvailable = ''Available''"
definition ConditionHealthy :: string where "ConditionHealthy = ''Healthy''"
definition ConditionActive :: string where "ConditionActive = ''Active''"

definition ConditionReasonProvisioning :: reason where
  "ConditionReasonProvisioning = ''Provisioning''"
definition ConditionReasonProvisioned :: reason where
  "ConditionReasonProvisioned = ''Provisioned''"
definition ConditionReasonErrored :: reason where
  "ConditionReasonErrored = ''Errored''"
definition ConditionReasonDeprovisioning :: reason where
  "ConditionReasonDeprovisioning = ''Deprovisioning''"
definition ConditionReasonDeprovisioned :: reason where
  "ConditionReasonDeprovisioned = ''Deprovisioned''"

definition ConditionReasonUnknown :: reason where "ConditionReasonUnknown = ''Unknown''"
definition ConditionReasonHealthy :: reason where "ConditionReasonHealthy = ''Healthy''"
definition ConditionReasonDegraded :: reason where "ConditionReasonDegraded = ''Degraded''"

lemmas reason_defs [cond_simps] =
  ConditionTrue_def ConditionFalse_def
  ConditionAvailable_def ConditionHealthy_def ConditionActive_def
  ConditionReasonProvisioning_def ConditionReasonProvisioned_def ConditionReasonErrored_def
  ConditionReasonDeprovisioning_def ConditionReasonDeprovisioned_def
  ConditionReasonDependencyNotReady_def ConditionReasonDependencyFailed_def
  ConditionReasonDependencyNotFound_def
  ConditionReasonUnknown_def ConditionReasonHealthy_def ConditionReasonDegraded_def

section \<open>Functions of the Kubernetes libraries\<close>

text \<open>
  \<open>meta.FindStatusCondition\<close>, \<open>meta.SetStatusCondition\<close> and the finalizer helpers of
  \<open>controllerutil\<close>, which return whether they changed the list.
\<close>

record klib =
  FindStatusCondition :: "condition list \<Rightarrow> string \<Rightarrow> condition option"
  SetStatusCondition :: "condition list \<Rightarrow> condition \<Rightarrow> condition list"
  AddFinalizer :: "string list \<Rightarrow> string \<Rightarrow> bool \<times> string list"
  RemoveFinalizer :: "string list \<Rightarrow> string \<Rightarrow> bool \<times> string list"
  ContainsFinalizer :: "string list \<Rightarrow> string \<Rightarrow> bool"

text \<open>
  The documented behaviour: a condition is found by its type; setting one replaces status, reason
  and message of the condition of that type, or adds it, and leaves the other types alone; a
  finalizer is added if absent, removed if present, and the answer says whether the list changed.
\<close>

definition same_condition :: "condition \<Rightarrow> condition \<Rightarrow> bool" where
  "same_condition a b \<longleftrightarrow>
     c_type a = c_type b \<and> c_status a = c_status b \<and> c_reason a = c_reason b \<and> c_message a = c_message b"

definition conditions_ok :: "klib \<Rightarrow> bool" where
  "conditions_ok lib \<longleftrightarrow>
     (\<forall>cs t c. FindStatusCondition lib cs t = Some c \<longrightarrow> c_type c = t) \<and>
     (\<forall>cs c. \<exists>c'. FindStatusCondition lib (SetStatusCondition lib cs c) (c_type c) = Some c' \<and>
        same_condition c' c) \<and>
     (\<forall>cs c t. t \<noteq> c_type c \<longrightarrow>
        FindStatusCondition lib (SetStatusCondition lib cs c) t = FindStatusCondition lib cs t)"

definition finalizers_ok :: "klib \<Rightarrow> bool" where
  "finalizers_ok lib \<longleftrightarrow>
     (\<forall>fs f. fst (AddFinalizer lib fs f) = (f \<notin> set fs)) \<and>
     (\<forall>fs f. set (snd (AddFinalizer lib fs f)) = insert f (set fs)) \<and>
     (\<forall>fs f. f \<in> set fs \<longrightarrow> snd (AddFinalizer lib fs f) = fs) \<and>
     (\<forall>fs f. fst (RemoveFinalizer lib fs f) = (f \<in> set fs)) \<and>
     (\<forall>fs f. set (snd (RemoveFinalizer lib fs f)) = set fs - {f}) \<and>
     (\<forall>fs f. ContainsFinalizer lib fs f = (f \<in> set fs))"

definition klib_ok :: "klib \<Rightarrow> bool" where
  "klib_ok lib \<longleftrightarrow> conditions_ok lib \<and> finalizers_ok lib"

text \<open>A concrete instance, for the witnesses.\<close>

fun set_condition :: "condition list \<Rightarrow> condition \<Rightarrow> condition list" where
  "set_condition [] c = [c]"
| "set_condition (x # xs) c =
     (if c_type x = c_type c
      then c\<lparr>c_lastTransition := (if c_status x = c_status c then c_lastTransition x else c_lastTransition c)\<rparr> # xs
      else x # set_condition xs c)"

definition klib_std :: klib where
  "klib_std =
     \<lparr>FindStatusCondition = (\<lambda>cs t. List.find (\<lambda>c. c_type c = t) cs),
      SetStatusCondition = set_condition,
      AddFinalizer = (\<lambda>fs f. if f \<in> set fs then (False, fs) else (True, fs @ [f])),
      RemoveFinalizer = (\<lambda>fs f. (f \<in> set fs, filter (\<lambda>x. x \<noteq> f) fs)),
      ContainsFinalizer = (\<lambda>fs f. f \<in> set fs)\<rparr>"

lemma find_set_condition_same:
  "\<exists>c'. List.find (\<lambda>x. c_type x = c_type c) (set_condition cs c) = Some c' \<and> same_condition c' c"
  by (induction cs) (auto simp: same_condition_def)

lemma find_set_condition_other:
  "t \<noteq> c_type c \<Longrightarrow>
   List.find (\<lambda>x. c_type x = t) (set_condition cs c) = List.find (\<lambda>x. c_type x = t) cs"
  by (induction cs) auto

lemma find_type: "List.find (\<lambda>c. c_type c = t) cs = Some c \<Longrightarrow> c_type c = t"
  by (auto simp: find_Some_iff)

lemma klib_std_ok: "klib_ok klib_std"
  unfolding klib_ok_def conditions_ok_def finalizers_ok_def
  by (auto simp: klib_std_def find_set_condition_same find_set_condition_other dest: find_type)

lemma finalizers_okD:
  assumes "klib_ok lib"
  shows "fst (AddFinalizer lib fs f) = (f \<notin> set fs)"
    and "set (snd (AddFinalizer lib fs f)) = insert f (set fs)"
    and "fst (RemoveFinalizer lib fs f) = (f \<in> set fs)"
    and "set (snd (RemoveFinalizer lib fs f)) = set fs - {f}"
    and "ContainsFinalizer lib fs f = (f \<in> set fs)"
    and "f \<in> set fs \<Longrightarrow> snd (AddFinalizer lib fs f) = fs"
  using assms by (auto simp: klib_ok_def finalizers_ok_def)

section \<open>Condition helpers (helpers.go)\<close>

definition GetCondition :: "klib \<Rightarrow> condition list \<Rightarrow> string \<Rightarrow> condition result" where
  "GetCondition lib conditions t =
     (case FindStatusCondition lib conditions t of
        None \<Rightarrow> Err (Sentinel ErrStatusConditionLookup)
      | Some c \<Rightarrow> Ok c)"

text \<open>The new condition carries no transition time; the library fills it in.\<close>

definition UpdateCondition ::
    "klib \<Rightarrow> condition list \<Rightarrow> string \<Rightarrow> string \<Rightarrow> string \<Rightarrow> string \<Rightarrow> condition list" where
  "UpdateCondition lib conditions t status reason message =
     SetStatusCondition lib conditions
       \<lparr>c_type = t, c_status = status, c_reason = reason, c_message = message, c_lastTransition = zero_time\<rparr>"

section \<open>Managed resources\<close>

record managed = objmeta +
  m_conditions :: "condition list"
  m_paused :: bool

definition StatusConditionRead :: "klib \<Rightarrow> managed \<Rightarrow> string \<Rightarrow> condition result" where
  "StatusConditionRead lib r t = GetCondition lib (m_conditions r) t"

definition SetProvisioningCondition ::
    "klib \<Rightarrow> managed \<Rightarrow> string \<Rightarrow> reason \<Rightarrow> string \<Rightarrow> managed" where
  "SetProvisioningCondition lib r status reason message =
     r\<lparr>m_conditions := UpdateCondition lib (m_conditions r) ConditionAvailable status reason message\<rparr>"

text \<open>\<open>TypedCondition\<close> narrows the reason's type; the fields are those of the condition.\<close>

definition GetTypedCondition :: "klib \<Rightarrow> managed \<Rightarrow> string \<Rightarrow> condition result" where
  "GetTypedCondition lib r t =
     bind_outcome (StatusConditionRead lib r t) (\<lambda>c.
       Ok \<lparr>c_type = c_type c, c_status = c_status c, c_reason = c_reason c,
           c_message = c_message c, c_lastTransition = c_lastTransition c\<rparr>)"

definition GetAvailableCondition :: "klib \<Rightarrow> managed \<Rightarrow> condition result" where
  "GetAvailableCondition lib r = GetTypedCondition lib r ConditionAvailable"

definition GetHealthyCondition :: "klib \<Rightarrow> managed \<Rightarrow> condition result" where
  "GetHealthyCondition lib r = GetTypedCondition lib r ConditionHealthy"

lemmas condition_access_defs =
  GetCondition_def StatusConditionRead_def GetTypedCondition_def
  GetAvailableCondition_def GetHealthyCondition_def

lemma GetTypedCondition_find [cond_simps]:
  "GetTypedCondition lib r t =
     (case FindStatusCondition lib (m_conditions r) t of
        None \<Rightarrow> Err (Sentinel ErrStatusConditionLookup)
      | Some c \<Rightarrow> Ok c)"
  by (simp add: condition_access_defs split: option.splits)

lemma SetProvisioningCondition_frame [simp]:
  "om_finalizers (SetProvisioningCondition lib r s x m) = om_finalizers r"
  "om_deletionTimestamp (SetProvisioningCondition lib r s x m) = om_deletionTimestamp r"
  "om_name (SetProvisioningCondition lib r s x m) = om_name r"
  "om_labels (SetProvisioningCondition lib r s x m) = om_labels r"
  "om_generation (SetProvisioningCondition lib r s x m) = om_generation r"
  by (simp_all add: SetProvisioningCondition_def)

text \<open>What was written is what is read back, and no other condition changes.\<close>

lemma GetAvailable_after_Set:
  assumes "klib_ok lib"
  shows "\<exists>c. GetAvailableCondition lib (SetProvisioningCondition lib r status reason message) = Ok c \<and>
     c_status c = status \<and> c_reason c = reason \<and> c_message c = message"
proof -
  let ?n = "\<lparr>c_type = ConditionAvailable, c_status = status, c_reason = reason, c_message = message,
     c_lastTransition = zero_time\<rparr>"
  from assms obtain c where
    "FindStatusCondition lib (SetStatusCondition lib (m_conditions r) ?n) ConditionAvailable = Some c"
    "same_condition c ?n"
    unfolding klib_ok_def conditions_ok_def by (metis condition.select_convs(1))
  then show ?thesis
    by (auto simp: GetAvailableCondition_def GetTypedCondition_find SetProvisioningCondition_def
        UpdateCondition_def same_condition_def)
qed

lemma GetHealthy_after_Set:
  assumes "klib_ok lib"
  shows "GetHealthyCondition lib (SetProvisioningCondition lib r status reason message) =
     GetHealthyCondition lib r"
proof -
  have "FindStatusCondition lib (SetStatusCondition lib cs c) ConditionHealthy =
        FindStatusCondition lib cs ConditionHealthy" if "c_type c = ConditionAvailable" for cs c
  proof -
    have "ConditionHealthy \<noteq> c_type c" using that by (simp add: reason_defs)
    then show ?thesis using assms by (simp add: klib_ok_def conditions_ok_def)
  qed
  then show ?thesis
    by (simp add: GetHealthyCondition_def GetTypedCondition_find SetProvisioningCondition_def
        UpdateCondition_def)
qed

section \<open>Tags (types.go, helpers.go)\<close>

record tag =
  t_name :: string
  t_value :: string

definition TagList_Contains :: "tag list \<Rightarrow> tag \<Rightarrow> bool" where
  "TagList_Contains t tg =
     list_ex (\<lambda>temp. t_name temp = t_name tg \<and> t_value temp = t_value tg) t"

fun TagList_ContainsAll :: "tag list \<Rightarrow> tag list \<Rightarrow> bool" where
  "TagList_ContainsAll t [] = True"
| "TagList_ContainsAll t (tg # o') =
     (if \<not> TagList_Contains t tg then False else TagList_ContainsAll t o')"

fun TagList_Find :: "tag list \<Rightarrow> string \<Rightarrow> string option" where
  "TagList_Find [] name = None"
| "TagList_Find (tg # t) name = (if t_name tg = name then Some (t_value tg) else TagList_Find t name)"

lemma TagList_Contains_iff: "TagList_Contains t tg \<longleftrightarrow> tg \<in> set t"
proof -
  have "temp = tg" if "t_name temp = t_name tg" "t_value temp = t_value tg" for temp :: tag
    using that by (cases temp; cases tg) simp
  then show ?thesis unfolding TagList_Contains_def list_ex_iff by blast
qed

lemma TagList_ContainsAll_iff: "TagList_ContainsAll t o' \<longleftrightarrow> set o' \<subseteq> set t"
  by (induction o') (auto simp: TagList_Contains_iff)

lemma TagList_Find_Some:
  "TagList_Find t name = Some v \<Longrightarrow> \<lparr>t_name = name, t_value = v\<rparr> \<in> set t"
proof (induction t)
  case Nil
  then show ?case by simp
next
  case (Cons x t)
  then show ?case by (cases x) (auto split: if_splits)
qed

section \<open>Helm applications (helmapplication\_types.go, helmapplication\_helpers.go)\<close>

text \<open>
  A semantic version is opaque here: the comparison and the original spelling come from the
  \<open>semver\<close> library, as the arguments \<open>ver_eq\<close> and \<open>original\<close> of the functions that use them.
\<close>

record param =
  p_name :: string
  p_value :: string

record 'v app_version =
  v_repo :: "string option"
  v_chart :: "string option"
  v_branch :: "string option"
  v_path :: "string option"
  v_version :: 'v
  v_release :: "string option"
  v_parameters :: "param list"
  v_namespace :: "string option"
  v_createNamespace :: "bool option"
  v_serverSideApply :: "bool option"

record 'v helm_application =
  ha_name :: string
  ha_labels :: smap
  ha_versions :: "'v app_version list"

text \<open>\<open>GetVersion\<close> returns the first version equal to the one asked for.\<close>

fun GetVersion_loop :: "('v \<Rightarrow> 'v \<Rightarrow> bool) \<Rightarrow> ('v \<Rightarrow> string) \<Rightarrow> 'v app_version list \<Rightarrow> 'v \<Rightarrow> 'v app_version result" where
  "GetVersion_loop ver_eq show_version [] version =
     Err (Wrapf '''' (Sentinel ErrVersionNotFound) ('': '' @ show_version version))"
| "GetVersion_loop ver_eq show_version (v # vs) version =
     (if ver_eq (v_version v) version then Ok v else GetVersion_loop ver_eq show_version vs version)"

definition GetVersion :: "('v \<Rightarrow> 'v \<Rightarrow> bool) \<Rightarrow> ('v \<Rightarrow> string) \<Rightarrow> 'v helm_application \<Rightarrow> 'v \<Rightarrow> 'v app_version result" where
  "GetVersion ver_eq show_version a version = GetVersion_loop ver_eq show_version (ha_versions a) version"

lemma GetVersion_Ok:
  "GetVersion ver_eq sv a ver = Ok v \<longleftrightarrow> List.find (\<lambda>v. ver_eq (v_version v) ver) (ha_versions a) = Some v"
proof -
  have "GetVersion_loop ver_eq sv vs ver = Ok v \<longleftrightarrow> List.find (\<lambda>v. ver_eq (v_version v) ver) vs = Some v" for vs
    by (induction vs) auto
  then show ?thesis by (simp add: GetVersion_def)
qed

lemma GetVersion_Err:
  "(\<exists>e. GetVersion ver_eq sv a ver = Err e) \<longleftrightarrow> (\<forall>v \<in> set (ha_versions a). \<not> ver_eq (v_version v) ver)"
proof -
  have "(\<exists>e. GetVersion_loop ver_eq sv vs ver = Err e) \<longleftrightarrow> (\<forall>v \<in> set vs. \<not> ver_eq (v_version v) ver)" for vs
    by (induction vs) auto
  then show ?thesis by (simp add: GetVersion_def)
qed

lemma GetVersion_no_panic: "GetVersion ver_eq sv a ver \<noteq> Panic"
proof -
  have "GetVersion_loop ver_eq sv vs ver \<noteq> Panic" for vs
    by (induction vs) auto
  then show ?thesis by (simp add: GetVersion_def)
qed

end
