(* ===== verification/Reconciler.thy ===== *)
theory Reconciler
  imports Api_Types
begin

text \<open>
  The generic reconciler (\<open>pkg/manager/reconcile.go\<close>), the provisioning log
  (\<open>pkg/provisioninglog\<close>) and the readiness check (\<open>pkg/manager/readiness.go\<close>).  The
  Kubernetes client is a record of accesses to the world; an update returns the object as the
  server stored it, which is what the client writes back into the object it was given.  The
  root provisioner is handed the object and may change it, so its methods return the object
  together with the error.
\<close>

section \<open>The world the reconciler talks to\<close>

type_synonym object_key = "string \<times> string"

record transition_event =
  te_stream :: string
  te_component :: string
  te_type :: string
  te_id :: string
  te_scope :: smap
  te_status :: string
  te_reason :: string
  te_message :: string
  te_observedGeneration :: int

record 'w mclient =
  mc_Get :: "object_key \<Rightarrow> 'w \<Rightarrow> managed result \<times> 'w"
  mc_Update :: "managed \<Rightarrow> 'w \<Rightarrow> managed result \<times> 'w"
  mc_StatusUpdate :: "managed \<Rightarrow> 'w \<Rightarrow> managed result \<times> 'w"
  mc_ObjectKinds :: "managed \<Rightarrow> gvk list option"
  mc_Log :: "transition_event \<Rightarrow> 'w \<Rightarrow> 'w"

text \<open>
  The outcome of a root provisioner's method: the object, as the method left it, and the error
  (\<open>None\<close> for nil).
\<close>

type_synonym 'w obj_method = "managed \<Rightarrow> ('w, managed \<times> gerror option) proc"

record 'w mprovisioner =
  mp_Provision :: "'w obj_method"
  mp_Deprovision :: "'w obj_method"

text \<open>
  Calling a method: an error leaf is the error with the object as it was handed in.  A generic
  provisioner, which leaves the object alone, becomes a method by \<open>object_method\<close>.
\<close>

definition attempt :: "managed \<Rightarrow> ('w, managed \<times> gerror option) proc \<Rightarrow> ('w, managed \<times> gerror option) proc" where
  "attempt object p =
     bindR p (\<lambda>r. case r of Ok x \<Rightarrow> return x | Err e \<Rightarrow> return (object, Some e) | Panic \<Rightarrow> Ret Panic)"

definition object_method :: "('w, unit) proc \<Rightarrow> 'w obj_method" where
  "object_method p object = attempt object (bindP p (\<lambda>_. return (object, None)))"

section \<open>The provisioning log (provisioninglog.go)\<close>

definition StreamProvisioning :: string where "StreamProvisioning = ''provisioning''"
definition StreamLifecycle :: string where "StreamLifecycle = ''lifecycle''"

definition scopeLabels :: "(string \<times> string) list" where
  "scopeLabels = [(''organization'', OrganizationLabel), (''project'', ProjectLabel)]"

fun scope_of :: "smap \<Rightarrow> (string \<times> string) list \<Rightarrow> smap \<Rightarrow> smap" where
  "scope_of labels [] scope = scope"
| "scope_of labels ((key, label) # rest) scope =
     scope_of labels rest
       (case fmlookup labels label of
          Some v \<Rightarrow> (if v \<noteq> '''' then fmupd key v scope else scope)
        | None \<Rightarrow> scope)"

definition transition_of ::
    "gvk list option \<Rightarrow> managed \<Rightarrow> string \<Rightarrow> string \<Rightarrow> reason \<Rightarrow> string \<Rightarrow> transition_event" where
  "transition_of gvks object stream status reason message =
     \<lparr>te_stream = stream,
      te_component = (case gvks of Some (g # _) \<Rightarrow> gvk_group g | _ \<Rightarrow> ''''),
      te_type = (case gvks of Some (g # _) \<Rightarrow> gvk_kind g | _ \<Rightarrow> ''''),
      te_id = om_name object,
      te_scope = scope_of (om_labels object) scopeLabels fmempty,
      te_status = status, te_reason = reason, te_message = message,
      te_observedGeneration = om_generation object\<rparr>"

definition Emit ::
    "'w mclient \<Rightarrow> managed \<Rightarrow> string \<Rightarrow> string \<Rightarrow> reason \<Rightarrow> string \<Rightarrow> ('w, unit) proc" where
  "Emit cl object stream status reason message =
     call (\<lambda>w. (Ok (), mc_Log cl (transition_of (mc_ObjectKinds cl object) object stream status reason message) w))"

section \<open>The condition a reconcile writes\<close>

text \<open>
  Phase 1 derives status, reason and message from the disposition alone; \<open>None\<close> is the cancelled
  context, which leaves the condition as it is.
\<close>

definition condition_phase1 ::
    "gerror option \<Rightarrow> bool \<Rightarrow> (string \<times> reason \<times> string) option" where
  "condition_phase1 err deprovision =
     (case err of
        None \<Rightarrow>
          (if deprovision then Some (ConditionTrue, ConditionReasonDeprovisioned, ''deprovisioned'')
           else Some (ConditionTrue, ConditionReasonProvisioned, ''provisioned''))
      | Some e \<Rightarrow>
          if errors_Is e ErrYield then
            (if deprovision then Some (ConditionFalse, ConditionReasonDeprovisioning, ''deprovisioning'')
             else Some (ConditionFalse, ConditionReasonProvisioning, ''provisioning''))
          else if errors_Is e ContextCanceled then None
          else Some (ConditionFalse, ConditionReasonErrored, ''an unexpected error occurred''))"

text \<open>Phase 2: a typed provisioning error replaces reason and message, never the status.\<close>

definition condition_phase2 ::
    "gerror option \<Rightarrow> string \<times> reason \<times> string \<Rightarrow> string \<times> reason \<times> string" where
  "condition_phase2 err srm =
     (case err of
        None \<Rightarrow> srm
      | Some e \<Rightarrow>
          (case errors_As_prov e of
             None \<Rightarrow> srm
           | Some (d, r, m) \<Rightarrow> (fst srm, r, m)))"

definition condition_of :: "gerror option \<Rightarrow> bool \<Rightarrow> (string \<times> reason \<times> string) option" where
  "condition_of err deprovision = map_option (condition_phase2 err) (condition_phase1 err deprovision)"

definition condition_changed :: "condition result \<Rightarrow> string \<times> reason \<times> string \<Rightarrow> bool" where
  "condition_changed prior srm =
     (case prior of
        Ok c \<Rightarrow> c_status c \<noteq> fst srm \<or> c_reason c \<noteq> fst (snd srm) \<or> c_message c \<noteq> snd (snd srm)
      | _ \<Rightarrow> True)"

definition handleReconcileCondition ::
    "klib \<Rightarrow> 'w mclient \<Rightarrow> managed \<Rightarrow> gerror option \<Rightarrow> bool \<Rightarrow> ('w, managed) proc" where
  "handleReconcileCondition lib cl object err deprovision =
     (let prior = GetAvailableCondition lib object in
      case condition_phase1 err deprovision of
        None \<Rightarrow> return object
      | Some srm \<Rightarrow>
          (let (status, reason, message) = condition_phase2 err srm;
               changed = condition_changed prior (status, reason, message);
               object' = SetProvisioningCondition lib object status reason message
           in bindP (call (mc_StatusUpdate cl object')) (\<lambda>stored.
                if changed
                then bindP (Emit cl stored StreamProvisioning status reason message) (\<lambda>_. return stored)
                else return stored)))"

section \<open>Reconciliation\<close>

text \<open>A reconcile returns the time after which to requeue, zero for not at all, or an error.\<close>

definition FinalizerDeleteDependents :: string where
  "FinalizerDeleteDependents = ''foregroundDeletion''"

definition GetResourceReferences :: "managed \<Rightarrow> string list" where
  "GetResourceReferences object =
     filter (\<lambda>s. s \<notin> set [Finalizer, FinalizerDeleteDependents]) (om_finalizers object)"

text \<open>The finalizer update at the end of a deletion.\<close>

definition drop_finalizer :: "klib \<Rightarrow> 'w mclient \<Rightarrow> managed \<Rightarrow> ('w, duration) proc" where
  "drop_finalizer lib cl object =
     (case RemoveFinalizer lib (om_finalizers object) Finalizer of (ok, fs) \<Rightarrow>
        if ok
        then bindR (call (mc_Update cl (object\<lparr>om_finalizers := fs\<rparr>))) (\<lambda>r.
               case r of
                 Ok _ \<Rightarrow> return 0
               | Err _ \<Rightarrow> return DefaultYieldTimeout
               | Panic \<Rightarrow> Ret Panic)
        else return 0)"

definition reconcileDelete ::
    "klib \<Rightarrow> 'w mclient \<Rightarrow> 'w mprovisioner \<Rightarrow> managed \<Rightarrow> ('w, duration) proc" where
  "reconcileDelete lib cl prov object =
     bindP (if length (GetResourceReferences object) > 0
            then return (object, Some (Sentinel ErrYield))
            else if ContainsFinalizer lib (om_finalizers object) FinalizerDeleteDependents
            then return (object, Some (Sentinel ErrYield))
            else attempt object (mp_Deprovision prov object)) (\<lambda>(object, perr).
     bindR (handleReconcileCondition lib cl object perr True) (\<lambda>r.
       case r of
         Err _ \<Rightarrow> return DefaultYieldTimeout
       | Panic \<Rightarrow> Ret Panic
       | Ok object \<Rightarrow>
           (case perr of
              Some e \<Rightarrow> if \<not> errors_Is e ErrYield then throw e else return DefaultYieldTimeout
            | None \<Rightarrow> drop_finalizer lib cl object)))"

definition ensure_finalizer :: "klib \<Rightarrow> 'w mclient \<Rightarrow> managed \<Rightarrow> ('w, managed) proc" where
  "ensure_finalizer lib cl object =
     (case AddFinalizer lib (om_finalizers object) Finalizer of (ok, fs) \<Rightarrow>
        if ok then call (mc_Update cl (object\<lparr>om_finalizers := fs\<rparr>))
        else return (object\<lparr>om_finalizers := fs\<rparr>))"

definition reconcileNormal ::
    "klib \<Rightarrow> 'w mclient \<Rightarrow> 'w mprovisioner \<Rightarrow> managed \<Rightarrow> ('w, duration) proc" where
  "reconcileNormal lib cl prov object =
     bindP (ensure_finalizer lib cl object) (\<lambda>object.
     bindP (attempt object (mp_Provision prov object)) (\<lambda>(object, perr).
     bindR (handleReconcileCondition lib cl object perr False) (\<lambda>r.
       case r of
         Err _ \<Rightarrow> return DefaultYieldTimeout
       | Panic \<Rightarrow> Ret Panic
       | Ok object \<Rightarrow>
           (case perr of
              Some e \<Rightarrow> if IsTerminal e then return 0 else return DefaultYieldTimeout
            | None \<Rightarrow> return 0))))"

definition DriverKindArgoCD :: string where "DriverKindArgoCD = ''argocd''"

definition getDriver :: "string \<Rightarrow> unit result" where
  "getDriver kind = (if kind \<noteq> DriverKindArgoCD then Err (Sentinel ErrCDDriver) else Ok ())"

definition Reconcile ::
    "klib \<Rightarrow> 'w mclient \<Rightarrow> 'w mprovisioner \<Rightarrow> string \<Rightarrow> object_key \<Rightarrow> ('w, duration) proc" where
  "Reconcile lib cl prov driver_kind request =
     bindP (Ret (getDriver driver_kind)) (\<lambda>_.
     bindR (call (mc_Get cl request)) (\<lambda>r.
       case r of
         Err e \<Rightarrow> if IsNotFound e then return 0 else throw e
       | Panic \<Rightarrow> Ret Panic
       | Ok object \<Rightarrow>
           if om_deletionTimestamp object \<noteq> None
           then (if length (om_finalizers object) = 0 then return 0
                 else reconcileDelete lib cl prov object)
           else if m_paused object then return 0
           else reconcileNormal lib cl prov object))"

section \<open>Readiness (readiness.go)\<close>

definition ResourceReady :: "klib \<Rightarrow> managed \<Rightarrow> unit result" where
  "ResourceReady lib resource =
     (case GetAvailableCondition lib resource of
        Ok c \<Rightarrow> if c_reason c \<noteq> ConditionReasonProvisioned then Err (Sentinel ErrYield) else Ok ()
      | _ \<Rightarrow> Err (Sentinel ErrYield))"

section \<open>What a deletion may do\<close>

lemma run_attempt:
  "run (attempt ob p) w =
     (case run p w of (Ok x, w1) \<Rightarrow> (Ok x, w1) | (Err e, w1) \<Rightarrow> (Ok (ob, Some e), w1) | (Panic, w1) \<Rightarrow> (Panic, w1))"
  by (simp add: attempt_def run_bindR split: prod.splits outcome.splits)

lemma attempt_not_Err: "run (attempt ob p) w \<noteq> (Err e, w')"
  by (simp add: run_attempt split: prod.splits outcome.splits)

text \<open>What holds a deletion back: references of other services, or owned resources.\<close>

definition blocked :: "klib \<Rightarrow> managed \<Rightarrow> bool" where
  "blocked lib object \<longleftrightarrow>
     GetResourceReferences object \<noteq> [] \<or> ContainsFinalizer lib (om_finalizers object) FinalizerDeleteDependents"

lemma reconcileDelete_blocked:
  assumes "blocked lib object"
  shows "run (reconcileDelete lib cl prov object) w =
     (case run (handleReconcileCondition lib cl object (Some (Sentinel ErrYield)) True) w of
        (Ok _, w1) \<Rightarrow> (Ok DefaultYieldTimeout, w1)
      | (Err _, w1) \<Rightarrow> (Ok DefaultYieldTimeout, w1)
      | (Panic, w1) \<Rightarrow> (Panic, w1))"
  using assms
  by (auto simp: reconcileDelete_def blocked_def run_bindR split: prod.splits outcome.splits)

lemma reconcileDelete_unblocked:
  assumes "\<not> blocked lib object"
    and d: "run (attempt object (mp_Deprovision prov object)) w = (Ok (object1, perr), w1)"
  shows "run (reconcileDelete lib cl prov object) w =
     (case run (handleReconcileCondition lib cl object1 perr True) w1 of
        (Ok object2, w2) \<Rightarrow>
          (case perr of
             Some e \<Rightarrow> (if \<not> errors_Is e ErrYield then Err e else Ok DefaultYieldTimeout, w2)
           | None \<Rightarrow> run (drop_finalizer lib cl object2) w2)
      | (Err _, w2) \<Rightarrow> (Ok DefaultYieldTimeout, w2)
      | (Panic, w2) \<Rightarrow> (Panic, w2))"
  using assms
  by (auto simp: reconcileDelete_def blocked_def run_bindR run_bindP split: prod.splits outcome.splits option.splits)

text \<open>
  C4: deleting a resource drops the finalizer only after the resource is unreferenced, has no
  dependents to wait for, its Deprovision returned nil and that was recorded in its condition.  In
  every other case the last thing that happens to the world is the writing of the condition; with
  references or dependents outstanding Deprovision is not called at all.
\<close>

theorem reconcileDelete_finalizer:
  assumes "run (reconcileDelete lib cl prov object) w = (r, w')"
  shows
    "(\<exists>object1 w1 object2 w2. \<not> blocked lib object \<and>
        run (attempt object (mp_Deprovision prov object)) w = (Ok (object1, None), w1) \<and>
        run (handleReconcileCondition lib cl object1 None True) w1 = (Ok object2, w2) \<and>
        run (drop_finalizer lib cl object2) w2 = (r, w')) \<or>
     (blocked lib object \<and>
        w' = snd (run (handleReconcileCondition lib cl object (Some (Sentinel ErrYield)) True) w)) \<or>
     (\<exists>object1 perr w1. \<not> blocked lib object \<and>
        run (attempt object (mp_Deprovision prov object)) w = (Ok (object1, perr), w1) \<and>
        w' = snd (run (handleReconcileCondition lib cl object1 perr True) w1)) \<or>
     (r = Panic \<and> w' = snd (run (mp_Deprovision prov object) w))"
proof (cases "blocked lib object")
  case True
  with assms show ?thesis
    by (auto simp: reconcileDelete_blocked split: prod.splits outcome.splits)
next
  case False
  obtain d w1 where d: "run (attempt object (mp_Deprovision prov object)) w = (d, w1)"
    by (cases "run (attempt object (mp_Deprovision prov object)) w")
  show ?thesis
  proof (cases d)
    case (Err e)
    with d show ?thesis by (simp add: attempt_not_Err)
  next
    case Panic
    with d have "run (mp_Deprovision prov object) w = (Panic, w1)"
      by (auto simp: run_attempt split: prod.splits outcome.splits)
    moreover from Panic d False assms have "r = Panic" "w' = w1"
      by (auto simp: reconcileDelete_def blocked_def run_bindP)
    ultimately show ?thesis by simp
  next
    case (Ok x)
    obtain object1 perr where x: "x = (object1, perr)" by (cases x)
    note u = reconcileDelete_unblocked [OF False d [unfolded Ok x], of cl]
    show ?thesis
    proof (cases perr)
      case None
      with u assms d Ok x False show ?thesis
        by (cases "run (handleReconcileCondition lib cl object1 None True) w1")
          (auto split: outcome.splits)
    next
      case (Some e)
      with u assms d Ok x False show ?thesis
        by (cases "run (handleReconcileCondition lib cl object1 (Some e) True) w1")
          (auto split: outcome.splits)
    qed
  qed
qed

section \<open>Requeueing\<close>


lemma run_ensure_finalizer:
  assumes "klib_ok lib"
  shows "run (ensure_finalizer lib cl object) w =
     (if Finalizer \<in> set (om_finalizers object) then (Ok object, w)
      else mc_Update cl (object\<lparr>om_finalizers := snd (AddFinalizer lib (om_finalizers object) Finalizer)\<rparr>) w)"
  using finalizers_okD(1,6) [OF assms, where fs = "om_finalizers object" and f = Finalizer]
  by (cases "AddFinalizer lib (om_finalizers object) Finalizer") (auto simp: ensure_finalizer_def)

text \<open>The server stores the finalizers it is sent, and answers with the stored object.\<close>

definition update_stores_finalizers :: "'w mclient \<Rightarrow> bool" where
  "update_stores_finalizers cl \<longleftrightarrow>
     (\<forall>ob w ob' w'. mc_Update cl ob w = (Ok ob', w') \<longrightarrow> om_finalizers ob' = om_finalizers ob)"

text \<open>
  C5: Provision is only ever called on a resource that carries our finalizer.  Either it is there
  already, or it is stored first, and reconciling goes on as for the stored object; if storing it
  fails, that error is returned at once and nothing else happens.
\<close>

theorem reconcileNormal_finalizer_first:
  assumes "klib_ok lib" and "update_stores_finalizers cl"
  shows "Finalizer \<in> set (om_finalizers object) \<or>
    (\<exists>w1 object1. mc_Update cl (object\<lparr>om_finalizers := snd (AddFinalizer lib (om_finalizers object) Finalizer)\<rparr>) w = (Ok object1, w1) \<and>
        Finalizer \<in> set (om_finalizers object1) \<and>
        run (reconcileNormal lib cl prov object) w = run (reconcileNormal lib cl prov object1) w1) \<or>
    (\<exists>w1 e. run (ensure_finalizer lib cl object) w = (Err e, w1) \<and>
        run (reconcileNormal lib cl prov object) w = (Err e, w1)) \<or>
    (\<exists>w1. run (ensure_finalizer lib cl object) w = (Panic, w1) \<and>
        run (reconcileNormal lib cl prov object) w = (Panic, w1))"
proof (cases "Finalizer \<in> set (om_finalizers object)")
  case False
  let ?ob = "object\<lparr>om_finalizers := snd (AddFinalizer lib (om_finalizers object) Finalizer)\<rparr>"
  obtain f w1 where f: "mc_Update cl ?ob w = (f, w1)" by (cases "mc_Update cl ?ob w")
  with False have e: "run (ensure_finalizer lib cl object) w = (f, w1)"
    by (simp add: run_ensure_finalizer [OF assms(1)])
  show ?thesis
  proof (cases f)
    case (Ok object1)
    with f assms(2) have "om_finalizers object1 = om_finalizers ?ob"
      unfolding update_stores_finalizers_def by blast
    then have fin: "Finalizer \<in> set (om_finalizers object1)"
      by (simp add: finalizers_okD(2) [OF assms(1)])
    then have "run (ensure_finalizer lib cl object1) w1 = (Ok object1, w1)"
      by (simp add: run_ensure_finalizer [OF assms(1)])
    with e Ok have "run (reconcileNormal lib cl prov object) w = run (reconcileNormal lib cl prov object1) w1"
      by (simp add: reconcileNormal_def run_bindP)
    with f Ok fin show ?thesis by blast
  qed (use e in \<open>auto simp: reconcileNormal_def run_bindP\<close>)
qed simp

section \<open>What reaches the user\<close>

text \<open>
  Two errors that carry no typed provisioning error and agree on the two questions the manager asks
  of them (is it a yield, is it a cancelled context) are indistinguishable.
\<close>

definition untyped_alike :: "gerror \<Rightarrow> gerror \<Rightarrow> bool" where
  "untyped_alike e1 e2 \<longleftrightarrow>
     errors_As_prov e1 = None \<and> errors_As_prov e2 = None \<and>
     errors_Is e1 ErrYield = errors_Is e2 ErrYield \<and>
     errors_Is e1 ContextCanceled = errors_Is e2 ContextCanceled"


text \<open>
  For a typed provisioning error, however deeply wrapped, exactly its own reason and message are
  recorded, with the status its disposition implies; the wrapping text is dropped.
\<close>

theorem condition_of_typed:
  assumes "\<not> errors_Is d ContextCanceled \<or> errors_Is d ErrYield"
  shows "condition_of (Some (wraps ps (ProvError d r m))) deprovision = Some (ConditionFalse, r, m)"
  using assms by (auto simp: condition_of_def condition_phase1_def condition_phase2_def)

lemma condition_of_status:
  "condition_of err dep = Some (s, r, m) \<Longrightarrow> s = (if err = None then ConditionTrue else ConditionFalse)"
  by (auto simp: condition_of_def condition_phase1_def condition_phase2_def split: option.splits if_splits)

section \<open>Edge-triggered transition log\<close>

lemma run_handleReconcileCondition:
  "run (handleReconcileCondition lib cl object err dep) w =
     (case condition_of err dep of
        None \<Rightarrow> (Ok object, w)
      | Some (s, x, m) \<Rightarrow>
          (case mc_StatusUpdate cl (SetProvisioningCondition lib object s x m) w of
             (Ok stored, w1) \<Rightarrow>
               (Ok stored,
                if condition_changed (GetAvailableCondition lib object) (s, x, m)
                then mc_Log cl (transition_of (mc_ObjectKinds cl stored) stored StreamProvisioning s x m) w1
                else w1)
           | (Err e, w1) \<Rightarrow> (Err e, w1)
           | (Panic, w1) \<Rightarrow> (Panic, w1)))"
  by (auto simp: handleReconcileCondition_def condition_of_def Emit_def run_bindP Let_def
      split: option.splits prod.splits outcome.splits)

definition status_update_stores :: "'w mclient \<Rightarrow> bool" where
  "status_update_stores cl \<longleftrightarrow>
     (\<forall>ob w ob' w'. mc_StatusUpdate cl ob w = (Ok ob', w') \<longrightarrow> m_conditions ob' = m_conditions ob)"

lemma stored_condition:
  assumes "klib_ok lib" and "status_update_stores cl"
    and "mc_StatusUpdate cl (SetProvisioningCondition lib object s x m) w = (Ok stored, w1)"
  shows "\<exists>c. GetAvailableCondition lib stored = Ok c \<and> c_status c = s \<and> c_reason c = x \<and> c_message c = m"
proof -
  from assms(2,3) have "m_conditions stored = m_conditions (SetProvisioningCondition lib object s x m)"
    by (auto simp: status_update_stores_def)
  then have "GetAvailableCondition lib stored =
      GetAvailableCondition lib (SetProvisioningCondition lib object s x m)"
    by (simp add: GetAvailableCondition_def GetTypedCondition_find)
  with GetAvailable_after_Set [OF assms(1)] show ?thesis by metis
qed


section \<open>Readiness\<close>

lemma ResourceReady_iff:
  "ResourceReady lib r = Ok () \<longleftrightarrow>
   (\<exists>c. GetAvailableCondition lib r = Ok c \<and> c_reason c = ConditionReasonProvisioned)"
  by (auto simp: ResourceReady_def split: outcome.splits)

text \<open>
  A dependent may use a resource exactly when its last recorded reconcile was a successful
  provision: after recording an outcome, the readiness check passes if that outcome was success on
  the provision path, and yields after a yield or an untyped error, and after any deprovision.
\<close>

theorem ResourceReady_after_record:
  assumes "klib_ok lib" and "status_update_stores cl"
    and "run (handleReconcileCondition lib cl object err dep) w = (Ok object1, w1)"
    and "condition_of err dep = Some (s, x, m)" and "\<forall>e. err = Some e \<longrightarrow> errors_As_prov e = None"
  shows "ResourceReady lib object1 = (if err = None \<and> \<not> dep then Ok () else Err (Sentinel ErrYield))"
proof -
  from assms(3,4) obtain w0 where
    "mc_StatusUpdate cl (SetProvisioningCondition lib object s x m) w = (Ok object1, w0)"
    by (auto simp: run_handleReconcileCondition split: prod.splits outcome.splits)
  from stored_condition [OF assms(1,2) this] obtain c
    where "GetAvailableCondition lib object1 = Ok c" "c_reason c = x" by blast
  moreover from assms(4,5) have "x = ConditionReasonProvisioned \<longleftrightarrow> err = None \<and> \<not> dep"
    by (auto simp: condition_of_def condition_phase1_def condition_phase2_def reason_defs
        split: option.splits if_splits)
  ultimately show ?thesis by (auto simp: ResourceReady_def)
qed

section \<open>Instances\<close>

text \<open>
  An API server that holds one resource and stores what it is sent, beside the list of the
  transition events logged so far; it shows that what is asked of the client can be had.
\<close>

definition mem_client :: "(managed \<times> transition_event list) mclient" where
  "mem_client =
     \<lparr>mc_Get = (\<lambda>k w. (Ok (fst w), w)),
      mc_Update = (\<lambda>ob w. (Ok ob, (ob, snd w))),
      mc_StatusUpdate = (\<lambda>ob w. (Ok ob, (ob, snd w))),
      mc_ObjectKinds = (\<lambda>ob. None),
      mc_Log = (\<lambda>ev w. (fst w, snd w @ [ev]))\<rparr>"

definition fresh_object :: managed where
  "fresh_object =
     \<lparr>om_name = ''r'', om_generateName = '''', om_namespace = ''ns'', om_labels = fmempty,
      om_annotations = fmempty, om_finalizers = [], om_creationTimestamp = 0,
      om_deletionTimestamp = None, om_generation = 1, om_resourceVersion = ''1'', m_conditions = [], m_paused = False\<rparr>"

definition held_object :: managed where
  "held_object = fresh_object\<lparr>om_finalizers := [Finalizer], om_deletionTimestamp := Some 0\<rparr>"

definition idle_provisioner :: "'w mprovisioner" where
  "idle_provisioner =
     \<lparr>mp_Provision = (\<lambda>ob. return (ob, None)), mp_Deprovision = (\<lambda>ob. return (ob, None))\<rparr>"

lemmas instance_defs =
  mem_client_def fresh_object_def held_object_def idle_provisioner_def klib_std_def

lemma mem_client_stores: "update_stores_finalizers mem_client" "status_update_stores mem_client"
  by (auto simp: update_stores_finalizers_def status_update_stores_def mem_client_def)

theorem reconcileNormal_finalizer_first_witness:
  "\<exists>w1 object1. mc_Update mem_client (fresh_object\<lparr>om_finalizers := [Finalizer]\<rparr>) (fresh_object, []) = (Ok object1, w1) \<and>
     Finalizer \<in> set (om_finalizers object1) \<and>
     run (reconcileNormal klib_std mem_client idle_provisioner fresh_object) (fresh_object, []) =
       run (reconcileNormal klib_std mem_client idle_provisioner object1) w1"
  using reconcileNormal_finalizer_first [OF klib_std_ok mem_client_stores(1),
      of fresh_object "(fresh_object, [])" idle_provisioner]
  by (simp add: instance_defs ensure_finalizer_def)

theorem reconcileDelete_finalizer_witness:
  "\<exists>object1 w1 object2 w2. \<not> blocked klib_std held_object \<and>
     run (attempt held_object (mp_Deprovision idle_provisioner held_object)) (held_object, []) = (Ok (object1, None), w1) \<and>
     run (handleReconcileCondition klib_std mem_client object1 None True) w1 = (Ok object2, w2) \<and>
     run (drop_finalizer klib_std mem_client object2) w2 =
       run (reconcileDelete klib_std mem_client idle_provisioner held_object) (held_object, [])"
proof -
  let ?r = "run (reconcileDelete klib_std mem_client idle_provisioner held_object) (held_object, [])"
  have "om_finalizers (fst (snd ?r)) = []" "fst ?r \<noteq> Panic"
    by (simp_all add: instance_defs reconcileDelete_def GetResourceReferences_def attempt_def
        run_handleReconcileCondition condition_of_def condition_phase1_def condition_phase2_def
        drop_finalizer_def run_bindR run_bindP FinalizerDeleteDependents_def Finalizer_def)
  moreover have "om_finalizers (fst (snd (run (handleReconcileCondition klib_std mem_client ob err True) w))) \<noteq> []"
    if "om_finalizers ob = [Finalizer]" "om_finalizers (fst w) = [Finalizer]" for ob err w
    using that by (auto simp: run_handleReconcileCondition mem_client_def split: option.splits)
  ultimately show ?thesis
    using reconcileDelete_finalizer [of klib_std mem_client idle_provisioner held_object "(held_object, [])"
        "fst ?r" "snd ?r"]
    by (auto simp: blocked_def instance_defs attempt_def GetResourceReferences_def run_bindR)
qed



theorem condition_of_typed_witness:
  "condition_of (Some (Wrapf ''outer: '' (Terminal ''BadImage'' ''no such image'') '''')) False =
     Some (ConditionFalse, ''BadImage'', ''no such image'')"
  using condition_of_typed [of "Sentinel ErrTerminal" "[(''outer: '', '''')]" "''BadImage''" "''no such image''" False]
  by (simp add: prov_error_defs)


theorem ResourceReady_after_record_witness:
  "\<exists>object1 w1. run (handleReconcileCondition klib_std mem_client fresh_object None False) (fresh_object, []) = (Ok object1, w1) \<and>
     ResourceReady klib_std object1 = Ok ()"
proof -
  have c: "condition_of None False = Some (ConditionTrue, ConditionReasonProvisioned, ''provisioned'')"
    by (simp add: condition_of_def condition_phase1_def condition_phase2_def)
  obtain object1 w1 where
    r: "run (handleReconcileCondition klib_std mem_client fresh_object None False) (fresh_object, []) = (Ok object1, w1)"
    by (simp add: run_handleReconcileCondition c mem_client_def)
  with ResourceReady_after_record [OF klib_std_ok mem_client_stores(2) r c] show ?thesis by simp
qed

end
