(* ===== verification/References.thy ===== *)
theory References
  imports Reconciler
begin

text \<open>
  Resource references (\<open>pkg/manager/reference.go\<close>): a service that uses a resource owned by
  another adds a finalizer to it, which holds its deletion back until the reference is removed.
  The Kubernetes client is a record of accesses; \<open>api_server\<close> states what the accesses do to
  the stored objects.  The objects of a list are shared between the list and the map built from
  it, so an update made through the map is threaded through the loop.
\<close>

section \<open>The client\<close>

record gvr =
  gvr_group :: string
  gvr_resource :: string

text \<open>
  An item of a list that is not a \<open>client.Object\<close> is \<open>None\<close>.  \<open>'o\<close> are the list options.
\<close>

record ('o, 'w) rclient =
  rc_ObjectKinds :: "managed \<Rightarrow> gvk list result"
  rc_RESTMapping :: "gvk \<Rightarrow> gvr result"
  rc_Get :: "object_key \<Rightarrow> 'w \<Rightarrow> managed result \<times> 'w"
  rc_List :: "'o \<Rightarrow> 'w \<Rightarrow> managed option list result \<times> 'w"
  rc_Update :: "managed \<Rightarrow> 'w \<Rightarrow> managed result \<times> 'w"

definition key_of :: "managed \<Rightarrow> object_key" where
  "key_of ob = (om_namespace ob, om_name ob)"

section \<open>Operations\<close>

definition legacy_group :: "string \<Rightarrow> string" where
  "legacy_group g = (if g = ''unikorn-cloud.org'' then ''kubernetes.unikorn-cloud.org'' else g)"

definition GenerateResourceReference :: "('o, 'w) rclient \<Rightarrow> managed \<Rightarrow> string result" where
  "GenerateResourceReference cl resource =
     bind_outcome (rc_ObjectKinds cl resource) (\<lambda>gvks.
       if length gvks \<noteq> 1
       then Err (Wrapf '''' (Sentinel ErrConsistency) '': expected single GVK for resource'')
       else bind_outcome (rc_RESTMapping cl (hd gvks)) (\<lambda>r.
         Ok (gvr_resource r @ ''.'' @ legacy_group (gvr_group r) @ ''/'' @ om_name resource)))"

fun resourceIDMap_loop ::
    "managed option list \<Rightarrow> (string, managed) fmap \<Rightarrow> (string, managed) fmap result" where
  "resourceIDMap_loop [] out = Ok out"
| "resourceIDMap_loop (None # items) out =
     Err (Wrapf '''' (Sentinel ErrTypeConversion) '': resource not a client object'')"
| "resourceIDMap_loop (Some ob # items) out = resourceIDMap_loop items (fmupd (om_name ob) ob out)"

definition resourceIDMap :: "managed option list \<Rightarrow> (string, managed) fmap result" where
  "resourceIDMap items = resourceIDMap_loop items fmempty"

definition AddResourceReference ::
    "klib \<Rightarrow> ('o, 'w) rclient \<Rightarrow> object_key \<Rightarrow> string \<Rightarrow> ('w, unit) proc" where
  "AddResourceReference lib cl key reference =
     bindP (call (rc_Get cl key)) (\<lambda>resource.
       case AddFinalizer lib (om_finalizers resource) reference of (updated, fs) \<Rightarrow>
         if \<not> updated then return ()
         else bindR (call (rc_Update cl (resource\<lparr>om_finalizers := fs\<rparr>))) (\<lambda>r.
           case r of
             Ok _ \<Rightarrow> return ()
           | Err e \<Rightarrow> if IsConflict e then throw (Sentinel ErrYield) else throw e
           | Panic \<Rightarrow> Ret Panic))"

fun AddResourceReferences_loop ::
    "klib \<Rightarrow> ('o, 'w) rclient \<Rightarrow> string \<Rightarrow> string list \<Rightarrow> (string, managed) fmap \<Rightarrow> ('w, unit) proc" where
  "AddResourceReferences_loop lib cl reference [] m = return ()"
| "AddResourceReferences_loop lib cl reference (i # ids) m =
     (case fmlookup m i of
        None \<Rightarrow>
          throw (Wrapf '''' (Sentinel ErrConsistency) ('': attempt to reference unknown resource ID '' @ i))
      | Some resource \<Rightarrow>
          (case AddFinalizer lib (om_finalizers resource) reference of (updated, fs) \<Rightarrow>
             if \<not> updated then AddResourceReferences_loop lib cl reference ids m
             else bindR (call (rc_Update cl (resource\<lparr>om_finalizers := fs\<rparr>))) (\<lambda>r.
               case r of
                 Ok stored \<Rightarrow> AddResourceReferences_loop lib cl reference ids (fmupd i stored m)
               | Err e \<Rightarrow> if IsConflict e then throw (Sentinel ErrYield) else throw e
               | Panic \<Rightarrow> Ret Panic)))"

definition AddResourceReferences ::
    "klib \<Rightarrow> ('o, 'w) rclient \<Rightarrow> 'o \<Rightarrow> string \<Rightarrow> string list \<Rightarrow> ('w, unit) proc" where
  "AddResourceReferences lib cl options reference ids =
     bindP (call (rc_List cl options)) (\<lambda>items.
     bindP (Ret (resourceIDMap items)) (\<lambda>m.
     AddResourceReferences_loop lib cl reference ids m))"

definition RemoveResourceReference ::
    "klib \<Rightarrow> ('o, 'w) rclient \<Rightarrow> object_key \<Rightarrow> string \<Rightarrow> ('w, unit) proc" where
  "RemoveResourceReference lib cl key reference =
     bindR (call (rc_Get cl key)) (\<lambda>r.
       case r of
         Err e \<Rightarrow> if IsNotFound e then return () else throw e
       | Panic \<Rightarrow> Ret Panic
       | Ok resource \<Rightarrow>
           (case RemoveFinalizer lib (om_finalizers resource) reference of (updated, fs) \<Rightarrow>
              if \<not> updated then return ()
              else bindR (call (rc_Update cl (resource\<lparr>om_finalizers := fs\<rparr>))) (\<lambda>r.
                case r of
                  Ok _ \<Rightarrow> return ()
                | Err e \<Rightarrow>
                    if IsNotFound e then return ()
                    else if IsConflict e then throw (Sentinel ErrYield)
                    else throw e
                | Panic \<Rightarrow> Ret Panic)))"

text \<open>The callback that \<open>meta.EachListItem\<close> runs on every item until one fails.\<close>

definition remove_callback ::
    "klib \<Rightarrow> ('o, 'w) rclient \<Rightarrow> string \<Rightarrow> string list \<Rightarrow> managed option \<Rightarrow> ('w, unit) proc" where
  "remove_callback lib cl reference ids item =
     (case item of
        None \<Rightarrow> throw (Wrapf '''' (Sentinel ErrTypeConversion) '': resource not a client object'')
      | Some object \<Rightarrow>
          if om_name object \<in> set ids then return ()
          else (case RemoveFinalizer lib (om_finalizers object) reference of (updated, fs) \<Rightarrow>
             if \<not> updated then return ()
             else bindR (call (rc_Update cl (object\<lparr>om_finalizers := fs\<rparr>))) (\<lambda>r.
               case r of
                 Ok _ \<Rightarrow> return ()
               | Err e \<Rightarrow> if IsConflict e then throw (Sentinel ErrYield) else throw e
               | Panic \<Rightarrow> Ret Panic)))"

fun each_item :: "('a \<Rightarrow> ('w, unit) proc) \<Rightarrow> 'a list \<Rightarrow> ('w, unit) proc" where
  "each_item f [] = return ()"
| "each_item f (x # xs) = bindP (f x) (\<lambda>_. each_item f xs)"

definition RemoveResourceReferences ::
    "klib \<Rightarrow> ('o, 'w) rclient \<Rightarrow> 'o \<Rightarrow> string \<Rightarrow> string list \<Rightarrow> ('w, unit) proc" where
  "RemoveResourceReferences lib cl options reference ids =
     bindP (call (rc_List cl options)) (each_item (remove_callback lib cl reference ids))"

definition ClearResourceReferences ::
    "klib \<Rightarrow> ('o, 'w) rclient \<Rightarrow> 'o \<Rightarrow> string \<Rightarrow> ('w, unit) proc" where
  "ClearResourceReferences lib cl options reference =
     RemoveResourceReferences lib cl options reference []"

section \<open>The stored objects\<close>

text \<open>
  What the accesses do to the objects the server stores, \<open>stored w\<close>: reading changes nothing and
  answers with what is stored; a successful update stores an object under the same key with the
  finalizers it was sent.  Nothing is promised of an access that fails.
\<close>

definition api_server :: "('o, 'w) rclient \<Rightarrow> ('w \<Rightarrow> object_key \<Rightarrow> managed option) \<Rightarrow> bool" where
  "api_server cl stored \<longleftrightarrow>
     (\<forall>key w ob w'. rc_Get cl key w = (Ok ob, w') \<longrightarrow>
        stored w' = stored w \<and> key_of ob = key \<and> stored w key = Some ob) \<and>
     (\<forall>opts w items w'. rc_List cl opts w = (Ok items, w') \<longrightarrow>
        stored w' = stored w \<and> (\<forall>ob. Some ob \<in> set items \<longrightarrow> stored w (key_of ob) = Some ob)) \<and>
     (\<forall>ob w ob' w'. rc_Update cl ob w = (Ok ob', w') \<longrightarrow>
        stored w' = (stored w)(key_of ob \<mapsto> ob') \<and> key_of ob' = key_of ob \<and>
        om_finalizers ob' = om_finalizers ob)"

lemma api_server_get:
  "api_server cl stored \<Longrightarrow> rc_Get cl key w = (Ok ob, w') \<Longrightarrow>
   stored w' = stored w \<and> key_of ob = key \<and> stored w key = Some ob"
  unfolding api_server_def by blast

lemma api_server_list:
  "api_server cl stored \<Longrightarrow> rc_List cl opts w = (Ok items, w') \<Longrightarrow>
   stored w' = stored w \<and> (\<forall>ob. Some ob \<in> set items \<longrightarrow> stored w (key_of ob) = Some ob)"
  unfolding api_server_def by blast

lemma api_server_update:
  "api_server cl stored \<Longrightarrow> rc_Update cl ob w = (Ok ob', w') \<Longrightarrow>
   stored w' = (stored w)(key_of ob \<mapsto> ob') \<and> key_of ob' = key_of ob \<and>
   om_finalizers ob' = om_finalizers ob"
  unfolding api_server_def by blast

lemma key_of_finalizers [simp]: "key_of (ob\<lparr>om_finalizers := fs\<rparr>) = key_of ob"
  by (simp add: key_of_def)

text \<open>Every entry of the map built from a list is an item of it, under its own name.\<close>

lemma resourceIDMap_loop_entry:
  "resourceIDMap_loop items out = Ok m \<Longrightarrow> fmlookup m i = Some ob \<Longrightarrow>
   fmlookup out i = Some ob \<or> (Some ob \<in> set items \<and> om_name ob = i)"
  by (induction items out rule: resourceIDMap_loop.induct) (auto split: if_splits)

lemma resourceIDMap_entry:
  "resourceIDMap items = Ok m \<Longrightarrow> fmlookup m i = Some ob \<Longrightarrow> Some ob \<in> set items \<and> om_name ob = i"
  unfolding resourceIDMap_def by (drule (1) resourceIDMap_loop_entry) simp

section \<open>Adding references\<close>

definition carries :: "managed option \<Rightarrow> string \<Rightarrow> bool" where
  "carries s reference \<longleftrightarrow> (\<exists>ob. s = Some ob \<and> reference \<in> set (om_finalizers ob))"

text \<open>The copies in the map are the stored objects, under their own names.\<close>

definition map_current :: "(object_key \<Rightarrow> managed option) \<Rightarrow> (string, managed) fmap \<Rightarrow> bool" where
  "map_current st m \<longleftrightarrow>
     (\<forall>i ob. fmlookup m i = Some ob \<longrightarrow> om_name ob = i \<and> st (key_of ob) = Some ob)"

text \<open>What adding a reference may do to one stored object: at most add it.\<close>

definition only_adds :: "string \<Rightarrow> managed option \<Rightarrow> managed option \<Rightarrow> bool" where
  "only_adds reference s s' \<longleftrightarrow>
     (case s of
        None \<Rightarrow> s' = None
      | Some ob \<Rightarrow> \<exists>ob'. s' = Some ob' \<and>
          (s' = s \<or> set (om_finalizers ob') = insert reference (set (om_finalizers ob))))"

lemma only_adds_refl [simp]: "only_adds reference s s"
  by (auto simp: only_adds_def split: option.splits)

lemma only_adds_trans: "only_adds ref a b \<Longrightarrow> only_adds ref b c \<Longrightarrow> only_adds ref a c"
  by (auto simp: only_adds_def split: option.splits)

lemma only_adds_carries: "only_adds reference s s' \<Longrightarrow> carries s reference \<Longrightarrow> carries s' reference"
  by (auto simp: only_adds_def carries_def split: option.splits)

lemma AddResourceReferences_step:
  assumes lib: "klib_ok lib" and srv: "api_server cl stored"
    and cur: "map_current (stored w) m" and res: "fmlookup m i = Some resource"
    and new: "reference \<notin> set (om_finalizers resource)"
    and upd: "rc_Update cl (resource\<lparr>om_finalizers := snd (AddFinalizer lib (om_finalizers resource) reference)\<rparr>) w = (Ok st, w1)"
  shows "map_current (stored w1) (fmupd i st m)" and "carries (stored w1 (key_of st)) reference"
    and "om_name st = i"
    and "only_adds reference (stored w k) (stored w1 k)"
    and "snd k \<noteq> i \<Longrightarrow> stored w1 k = stored w k"
proof -
  note u = api_server_update [OF srv upd]
  from cur res have n: "om_name resource = i" and s: "stored w (key_of resource) = Some resource"
    by (auto simp: map_current_def)
  from u n show name: "om_name st = i" by (simp add: key_of_def)
  from u n show "snd k \<noteq> i \<Longrightarrow> stored w1 k = stored w k"
    by (auto simp: key_of_def)
  show "carries (stored w1 (key_of st)) reference"
    using u finalizers_okD(2) [OF lib] by (simp add: carries_def)
  show "only_adds reference (stored w k) (stored w1 k)"
    using u s finalizers_okD(2) [OF lib] by (auto simp: only_adds_def split: option.splits)
  show "map_current (stored w1) (fmupd i st m)"
    using cur u n name by (auto simp: map_current_def key_of_def)
qed

lemma AddResourceReferences_loop_Ok:
  assumes lib: "klib_ok lib" and srv: "api_server cl stored"
  shows "run (AddResourceReferences_loop lib cl reference ids m) w = (Ok (), w') \<Longrightarrow>
     map_current (stored w) m \<Longrightarrow>
     (\<forall>i \<in> set ids. \<exists>ns. carries (stored w' (ns, i)) reference) \<and>
     (\<forall>k. only_adds reference (stored w k) (stored w' k) \<and> (snd k \<notin> set ids \<longrightarrow> stored w' k = stored w k))"
proof (induction ids arbitrary: m w)
  case Nil
  then show ?case by simp
next
  case (Cons i ids)
  from Cons.prems(1) obtain resource where res: "fmlookup m i = Some resource"
    by (auto split: option.splits)
  let ?f = "AddFinalizer lib (om_finalizers resource) reference"
  have fst: "fst ?f = (reference \<notin> set (om_finalizers resource))"
    by (simp add: finalizers_okD(1) [OF lib])
  show ?case
  proof (cases "fst ?f")
    case False
    with Cons.prems(1) res have "run (AddResourceReferences_loop lib cl reference ids m) w = (Ok (), w')"
      by (auto split: prod.splits)
    note IH = Cons.IH [OF this Cons.prems(2)]
    from Cons.prems(2) res False fst have "carries (stored w (key_of resource)) reference"
      and n: "om_name resource = i"
      by (auto simp: map_current_def carries_def)
    with IH have "carries (stored w' (om_namespace resource, i)) reference"
      by (auto simp: key_of_def intro: only_adds_carries)
    with IH show ?thesis by auto
  next
    case True
    with Cons.prems(1) res obtain st w1 where
      upd: "rc_Update cl (resource\<lparr>om_finalizers := snd ?f\<rparr>) w = (Ok st, w1)"
      and rest: "run (AddResourceReferences_loop lib cl reference ids (fmupd i st m)) w1 = (Ok (), w')"
      by (auto simp: run_bindR split: prod.splits outcome.splits if_splits)
    from True fst have "reference \<notin> set (om_finalizers resource)" by simp
    note step = AddResourceReferences_step [OF lib srv Cons.prems(2) res this upd]
    note IH = Cons.IH [OF rest step(1)]
    from step(2,3) IH have "carries (stored w' (om_namespace st, i)) reference"
      by (auto simp: key_of_def intro: only_adds_carries)
    moreover have "only_adds reference (stored w k) (stored w' k)" for k
      using step(4) [of k] IH by (blast intro: only_adds_trans)
    ultimately show ?thesis using IH step(5) by auto
  qed
qed

text \<open>
  C12: when adding references succeeds, every ID asked for names a stored resource that carries the
  reference; no finalizer is lost anywhere, the reference is the only one gained, and resources
  whose ID was not asked for are as they were.
\<close>

theorem AddResourceReferences_all:
  assumes "klib_ok lib" and "api_server cl stored"
    and "run (AddResourceReferences lib cl options reference ids) w = (Ok (), w')"
  shows "(\<forall>i \<in> set ids. \<exists>ns. carries (stored w' (ns, i)) reference) \<and>
     (\<forall>k. only_adds reference (stored w k) (stored w' k) \<and> (snd k \<notin> set ids \<longrightarrow> stored w' k = stored w k))"
proof -
  from assms(3) obtain items w1 m where l: "rc_List cl options w = (Ok items, w1)"
    and m: "resourceIDMap items = Ok m"
    and rest: "run (AddResourceReferences_loop lib cl reference ids m) w1 = (Ok (), w')"
    unfolding AddResourceReferences_def
    by (auto elim!: run_bindP_OkD)
  note s = api_server_list [OF assms(2) l]
  have "map_current (stored w1) m"
    using s resourceIDMap_entry [OF m] by (auto simp: map_current_def)
  from AddResourceReferences_loop_Ok [OF assms(1,2) rest this] s show ?thesis by simp
qed

section \<open>Removing references\<close>

text \<open>The stored object differs from the listed copy at most by the reference.\<close>

definition without :: "string \<Rightarrow> managed \<Rightarrow> managed option \<Rightarrow> bool" where
  "without reference ob s \<longleftrightarrow>
     (\<exists>ob'. s = Some ob' \<and> set (om_finalizers ob') = set (om_finalizers ob) - {reference})"

definition with_or_without :: "string \<Rightarrow> managed \<Rightarrow> managed option \<Rightarrow> bool" where
  "with_or_without reference ob s \<longleftrightarrow>
     without reference ob s \<or> (\<exists>ob'. s = Some ob' \<and> set (om_finalizers ob') = set (om_finalizers ob))"

definition copies :: "string \<Rightarrow> managed set \<Rightarrow> (object_key \<Rightarrow> managed option) \<Rightarrow> bool" where
  "copies reference L st \<longleftrightarrow>
     inj_on key_of L \<and> (\<forall>ob \<in> L. with_or_without reference ob (st (key_of ob)))"

lemma remove_callback_Ok:
  assumes lib: "klib_ok lib" and srv: "api_server cl stored"
    and cb: "run (remove_callback lib cl reference ids (Some ob)) w = (Ok (), w')"
    and cp: "copies reference L (stored w)" and ob: "ob \<in> L"
  shows "copies reference L (stored w')"
    and "om_name ob \<notin> set ids \<Longrightarrow> without reference ob (stored w' (key_of ob))"
    and "ob2 \<in> L \<Longrightarrow> without reference ob2 (stored w (key_of ob2)) \<Longrightarrow> without reference ob2 (stored w' (key_of ob2))"
    and "snd k \<in> set ids \<Longrightarrow> stored w' k = stored w k"
proof -
  let ?f = "RemoveFinalizer lib (om_finalizers ob) reference"
  note f = finalizers_okD(3,4) [OF lib, of "om_finalizers ob" reference]
  have cases: "w' = w \<and> (om_name ob \<in> set ids \<or> reference \<notin> set (om_finalizers ob)) \<or>
    (\<exists>st. om_name ob \<notin> set ids \<and> rc_Update cl (ob\<lparr>om_finalizers := snd ?f\<rparr>) w = (Ok st, w'))"
    using cb f by (auto simp: remove_callback_def run_bindR split: if_splits prod.splits outcome.splits)
  have same: "without reference ob (stored w (key_of ob))" if "reference \<notin> set (om_finalizers ob)"
    using cp ob that by (auto simp: copies_def with_or_without_def without_def)
  have upd: "stored w' (key_of o2) = (if o2 = ob then Some st else stored w (key_of o2)) \<and>
      set (om_finalizers st) = set (om_finalizers ob) - {reference}"
    if "rc_Update cl (ob\<lparr>om_finalizers := snd ?f\<rparr>) w = (Ok st, w')" "o2 \<in> L" for st o2
    using api_server_update [OF srv that(1)] f cp ob that(2)
    by (auto simp: copies_def dest: inj_onD)
  show "without reference ob (stored w' (key_of ob))" if "om_name ob \<notin> set ids"
    using cases same upd [OF _ ob] that by (auto simp: without_def)
  show "without reference ob2 (stored w' (key_of ob2))"
    if "ob2 \<in> L" "without reference ob2 (stored w (key_of ob2))"
    using cases upd [OF _ that(1)] that(2) by (auto simp: without_def)
  have "with_or_without reference o2 (stored w' (key_of o2))" if o2: "o2 \<in> L" for o2
  proof -
    from cp o2 have "with_or_without reference o2 (stored w (key_of o2))" by (simp add: copies_def)
    then show ?thesis
      using cases upd [OF _ o2] by (cases "o2 = ob") (auto simp: with_or_without_def without_def)
  qed
  with cp show "copies reference L (stored w')" by (simp add: copies_def)
  show "stored w' k = stored w k" if "snd k \<in> set ids"
    using cases api_server_update [OF srv] that by (fastforce simp: key_of_def)
qed

lemma each_remove_Ok:
  assumes lib: "klib_ok lib" and srv: "api_server cl stored"
  shows "run (each_item (remove_callback lib cl reference ids) items) w = (Ok (), w') \<Longrightarrow>
     copies reference L (stored w) \<Longrightarrow> {ob. Some ob \<in> set items} \<subseteq> L \<Longrightarrow>
     (\<forall>ob \<in> L. without reference ob (stored w (key_of ob)) \<longrightarrow> without reference ob (stored w' (key_of ob))) \<and>
     (\<forall>ob. Some ob \<in> set items \<and> om_name ob \<notin> set ids \<longrightarrow> without reference ob (stored w' (key_of ob))) \<and>
     (\<forall>k. snd k \<in> set ids \<longrightarrow> stored w' k = stored w k)"
proof (induction items arbitrary: w)
  case Nil
  then show ?case by simp
next
  case (Cons item items)
  from Cons.prems(1) obtain w1 where
    cb: "run (remove_callback lib cl reference ids item) w = (Ok (), w1)"
    and rest: "run (each_item (remove_callback lib cl reference ids) items) w1 = (Ok (), w')"
    by (auto elim!: run_bindP_OkD)
  from cb obtain ob where item: "item = Some ob"
    by (cases item) (auto simp: remove_callback_def)
  with Cons.prems(3) have ob: "ob \<in> L" by auto
  note cbs = remove_callback_Ok [OF lib srv cb [unfolded item] Cons.prems(2) ob]
  from Cons.prems(3) have "{ob. Some ob \<in> set items} \<subseteq> L" by auto
  note IH = Cons.IH [OF rest cbs(1) this]
  with cbs ob item show ?case by auto
qed


section \<open>Generated references\<close>

lemma GenerateResourceReference_Ok:
  "GenerateResourceReference cl resource = Ok reference \<Longrightarrow>
   \<exists>g r. rc_ObjectKinds cl resource = Ok [g] \<and> rc_RESTMapping cl g = Ok r \<and>
     reference = gvr_resource r @ ''.'' @ legacy_group (gvr_group r) @ ''/'' @ om_name resource"
  by (auto simp: GenerateResourceReference_def bind_outcome_Ok_iff length_Suc_conv split: if_splits)

lemma split_at_char:
  "xs @ c # ys = xs' @ c # ys' \<Longrightarrow> c \<notin> set xs \<Longrightarrow> c \<notin> set xs' \<Longrightarrow> xs = xs' \<and> ys = ys'"
  by (auto simp: append_eq_append_conv2 append_eq_Cons_conv Cons_eq_append_conv)

lemma legacy_group_slash: "CHR ''/'' \<notin> set g \<Longrightarrow> CHR ''/'' \<notin> set (legacy_group g)"
  by (auto simp: legacy_group_def)

text \<open>
  A reference identifies what refers: for REST resources whose plural has no dot and whose
  group has no slash, equal references come from the same plural, the same group (up to the one
  legacy group that is renamed) and the same name.
\<close>

theorem GenerateResourceReference_unique:
  assumes "GenerateResourceReference cl a = Ok reference" and "GenerateResourceReference cl b = Ok reference"
    and "\<forall>g r. rc_RESTMapping cl g = Ok r \<longrightarrow> CHR ''.'' \<notin> set (gvr_resource r) \<and> CHR ''/'' \<notin> set (gvr_group r)"
  shows "om_name a = om_name b \<and>
     (\<exists>ga ra gb rb. rc_ObjectKinds cl a = Ok [ga] \<and> rc_RESTMapping cl ga = Ok ra \<and>
        rc_ObjectKinds cl b = Ok [gb] \<and> rc_RESTMapping cl gb = Ok rb \<and>
        gvr_resource ra = gvr_resource rb \<and> legacy_group (gvr_group ra) = legacy_group (gvr_group rb))"
proof -
  obtain ga ra where a: "rc_ObjectKinds cl a = Ok [ga]" "rc_RESTMapping cl ga = Ok ra"
    "reference = gvr_resource ra @ ''.'' @ legacy_group (gvr_group ra) @ ''/'' @ om_name a"
    using GenerateResourceReference_Ok [OF assms(1)] by blast
  obtain gb rb where b: "rc_ObjectKinds cl b = Ok [gb]" "rc_RESTMapping cl gb = Ok rb"
    "reference = gvr_resource rb @ ''.'' @ legacy_group (gvr_group rb) @ ''/'' @ om_name b"
    using GenerateResourceReference_Ok [OF assms(2)] by blast
  from a(3) b(3) have "gvr_resource ra @ CHR ''.'' # legacy_group (gvr_group ra) @ CHR ''/'' # om_name a =
      gvr_resource rb @ CHR ''.'' # legacy_group (gvr_group rb) @ CHR ''/'' # om_name b"
    by simp
  then have "gvr_resource ra = gvr_resource rb \<and>
      legacy_group (gvr_group ra) @ CHR ''/'' # om_name a = legacy_group (gvr_group rb) @ CHR ''/'' # om_name b"
    by (rule split_at_char) (use assms(3) a(2) b(2) in auto)
  then have dot: "gvr_resource ra = gvr_resource rb"
    and rest: "legacy_group (gvr_group ra) @ CHR ''/'' # om_name a = legacy_group (gvr_group rb) @ CHR ''/'' # om_name b"
    by blast+
  from rest have "legacy_group (gvr_group ra) = legacy_group (gvr_group rb) \<and> om_name a = om_name b"
    by (rule split_at_char) (use assms(3) a(2) b(2) legacy_group_slash in auto)
  with dot a b show ?thesis by blast
qed

lemma generated_not_own:
  assumes "GenerateResourceReference cl referrer = Ok reference"
  shows "reference \<noteq> Finalizer" and "reference \<noteq> FinalizerDeleteDependents"
proof -
  from GenerateResourceReference_Ok [OF assms] have "CHR ''/'' \<in> set reference" by auto
  then show "reference \<noteq> Finalizer" "reference \<noteq> FinalizerDeleteDependents"
    by (auto simp: Finalizer_def FinalizerDeleteDependents_def)
qed

text \<open>
  A generated reference holds deletion back: after it was added to a resource, reconciling the
  deletion of the stored resource only writes the deprovisioning condition and asks to be requeued;
  the resource is not deprovisioned and keeps its finalizers.
\<close>

theorem reference_blocks_deletion:
  assumes "klib_ok lib" and "api_server cl stored"
    and "GenerateResourceReference cl referrer = Ok reference"
    and "run (AddResourceReference lib cl key reference) w = (Ok (), w')"
  shows "\<exists>ob. stored w' key = Some ob \<and> reference \<in> set (GetResourceReferences ob) \<and>
     (\<forall>mcl prov w2. run (reconcileDelete lib mcl prov ob) w2 =
        (case run (handleReconcileCondition lib mcl ob (Some (Sentinel ErrYield)) True) w2 of
           (Panic, w3) \<Rightarrow> (Panic, w3) | (_, w3) \<Rightarrow> (Ok DefaultYieldTimeout, w3)))"
proof -
  from assms(4) obtain resource w1 where g: "rc_Get cl key w = (Ok resource, w1)"
    by (auto simp: AddResourceReference_def elim!: run_bindP_OkD)
  note g' = api_server_get [OF assms(2) g]
  note f = finalizers_okD(1,2) [OF assms(1), of "om_finalizers resource" reference]
  obtain ob where ob: "stored w' key = Some ob" "reference \<in> set (om_finalizers ob)"
  proof (cases "reference \<in> set (om_finalizers resource)")
    case True
    with assms(4) g f have "w' = w1"
      by (auto simp: AddResourceReference_def run_bindP split: prod.splits)
    with True g' show thesis by (intro that) auto
  next
    case False
    with assms(4) g f obtain st where
      "rc_Update cl (resource\<lparr>om_finalizers := snd (AddFinalizer lib (om_finalizers resource) reference)\<rparr>) w1 = (Ok st, w')"
      by (auto simp: AddResourceReference_def run_bindP run_bindR split: prod.splits outcome.splits if_splits)
    from api_server_update [OF assms(2) this] g' f show thesis by (intro that) auto
  qed
  then have ref: "reference \<in> set (GetResourceReferences ob)"
    using generated_not_own [OF assms(3)] by (simp add: GetResourceReferences_def)
  then have "blocked lib ob" by (auto simp: blocked_def)
  with ob ref show ?thesis
    by (auto simp: reconcileDelete_blocked split: prod.splits outcome.splits)
qed

section \<open>Instances\<close>

text \<open>A server that stores one object.\<close>

definition one_server :: "(unit, managed) rclient" where
  "one_server =
     \<lparr>rc_ObjectKinds = (\<lambda>ob. Ok [\<lparr>gvk_group = ''g.io'', gvk_version = ''v1'', gvk_kind = ''Thing''\<rparr>]),
      rc_RESTMapping = (\<lambda>g. Ok \<lparr>gvr_group = ''g.io'', gvr_resource = ''things''\<rparr>),
      rc_Get = (\<lambda>key w. if key = key_of w then (Ok w, w) else (Err (APIError StatusNotFound ''''), w)),
      rc_List = (\<lambda>_ w. (Ok [Some w], w)),
      rc_Update = (\<lambda>ob w. if key_of ob = key_of w then (Ok ob, ob) else (Err (APIError StatusNotFound ''''), w))\<rparr>"

definition one_stored :: "managed \<Rightarrow> object_key \<Rightarrow> managed option" where
  "one_stored w key = (if key = key_of w then Some w else None)"

lemma one_server_ok: "api_server one_server one_stored"
  unfolding api_server_def
  by (auto simp: one_server_def one_stored_def fun_eq_iff split: if_splits)

lemma one_server_add:
  "run (AddResourceReferences klib_std one_server () ''x.y/z'' [''r'']) fresh_object =
     (Ok (), fresh_object\<lparr>om_finalizers := [''x.y/z'']\<rparr>)"
  by (simp add: AddResourceReferences_def one_server_def resourceIDMap_def run_bindP run_bindR klib_std_def
      fresh_object_def key_of_def)

theorem AddResourceReferences_all_witness:
  "\<exists>ns. carries (one_stored (fresh_object\<lparr>om_finalizers := [''x.y/z'']\<rparr>) (ns, ''r'')) ''x.y/z''"
  using AddResourceReferences_all [OF klib_std_ok one_server_ok one_server_add] by simp


theorem GenerateResourceReference_unique_witness:
  "GenerateResourceReference one_server fresh_object = Ok ''things.g.io/r'' \<and>
   om_name fresh_object = om_name held_object"
proof -
  have a: "GenerateResourceReference one_server fresh_object = Ok ''things.g.io/r''"
    and b: "GenerateResourceReference one_server held_object = Ok ''things.g.io/r''"
    by (simp_all add: GenerateResourceReference_def one_server_def legacy_group_def fresh_object_def held_object_def)
  have "\<forall>g r. rc_RESTMapping one_server g = Ok r \<longrightarrow>
      CHR ''.'' \<notin> set (gvr_resource r) \<and> CHR ''/'' \<notin> set (gvr_group r)"
    by (auto simp: one_server_def)
  from GenerateResourceReference_unique [OF a b this] a show ?thesis by simp
qed

theorem reference_blocks_deletion_witness:
  "\<exists>ob. one_stored (fresh_object\<lparr>om_finalizers := [''things.g.io/r'']\<rparr>) (''ns'', ''r'') = Some ob \<and>
     ''things.g.io/r'' \<in> set (GetResourceReferences ob)"
proof -
  have g: "GenerateResourceReference one_server fresh_object = Ok ''things.g.io/r''"
    by (simp add: GenerateResourceReference_def one_server_def legacy_group_def fresh_object_def)
  have "run (AddResourceReference klib_std one_server (''ns'', ''r'') ''things.g.io/r'') fresh_object =
      (Ok (), fresh_object\<lparr>om_finalizers := [''things.g.io/r'']\<rparr>)"
    by (simp add: AddResourceReference_def one_server_def run_bindP run_bindR klib_std_def
        fresh_object_def key_of_def)
  from reference_blocks_deletion [OF klib_std_ok one_server_ok g this] show ?thesis by blast
qed

end
