(* ===== verification/Interference.thy ===== *)
theory Interference
  imports Proc
begin

text \<open>
  Processes among others.  Between two accesses of a process anything may happen that its \<open>rely\<close>
  allows.  \<open>exec\<close> is such an execution, with the accesses of the process as pairs of worlds; \<open>guards\<close> says
  that in every execution each access meets the guarantee and the result the postcondition.  A system
  of processes, each of which guarantees what the others rely on, meets all the guarantees.
\<close>

section \<open>Executions\<close>

inductive exec ::
    "('w \<Rightarrow> 'w \<Rightarrow> bool) \<Rightarrow> ('w, 'a) proc \<Rightarrow> 'w \<Rightarrow> ('w \<times> 'w) list \<Rightarrow> ('w, 'a) proc \<Rightarrow> 'w \<Rightarrow> bool"
  for rely
where
  exec_stop: "exec rely p w [] p w"
| exec_others: "rely w w1 \<Longrightarrow> exec rely p w1 tr q w2 \<Longrightarrow> exec rely p w tr q w2"
| exec_access: "f w = (p', w1) \<Longrightarrow> exec rely p' w1 tr q w2 \<Longrightarrow> exec rely (Act f) w ((w, w1) # tr) q w2"

section \<open>Guarantees\<close>

inductive guards ::
    "('w \<Rightarrow> 'w \<Rightarrow> bool) \<Rightarrow> ('w \<Rightarrow> 'w \<Rightarrow> bool) \<Rightarrow> ('a result \<Rightarrow> 'w \<Rightarrow> bool) \<Rightarrow> ('w, 'a) proc \<Rightarrow> 'w \<Rightarrow> bool"
  for rely guarantee post
where
  guards_Ret: "(\<And>w'. rely\<^sup>*\<^sup>* w w' \<Longrightarrow> post r w') \<Longrightarrow> guards rely guarantee post (Ret r) w"
| guards_Act:
    "(\<And>w1. rely\<^sup>*\<^sup>* w w1 \<Longrightarrow> guarantee w1 (snd (f w1)) \<and> guards rely guarantee post (fst (f w1)) (snd (f w1))) \<Longrightarrow>
     guards rely guarantee post (Act f) w"

inductive_cases guards_RetE: "guards rely guarantee post (Ret r) w"
inductive_cases guards_ActE: "guards rely guarantee post (Act f) w"

lemma guards_result: "guards rely guarantee post (Ret r) w \<Longrightarrow> post r w"
  by (erule guards_RetE) blast

lemma guards_others:
  assumes "guards rely guarantee post p w" and "rely\<^sup>*\<^sup>* w w'"
  shows "guards rely guarantee post p w'"
  using assms
proof (cases p)
  case (Ret r)
  with assms show ?thesis by (auto elim!: guards_RetE intro!: guards_Ret intro: rtranclp_trans)
next
  case (Act f)
  with assms show ?thesis by (auto elim!: guards_ActE intro!: guards_Act intro: rtranclp_trans)
qed

lemma guards_step: "guards rely guarantee post p w \<Longrightarrow> rely w w' \<Longrightarrow> guards rely guarantee post p w'"
  by (rule guards_others [OF _ r_into_rtranclp])

lemma guards_access:
  assumes "guards rely guarantee post (Act f) w" and "f w = (p', w1)"
  shows "guarantee w w1" and "guards rely guarantee post p' w1"
  using assms(1) assms(2) by (elim guards_ActE, force)+

text \<open>What \<open>guards\<close> promises of an execution.\<close>

theorem exec_guards:
  assumes "exec rely p w tr q w'" and "guards rely guarantee post p w"
  shows "list_all (\<lambda>(a, b). guarantee a b) tr \<and> guards rely guarantee post q w'"
  using assms
proof (induction rule: exec.induct)
  case (exec_others w w1 p tr q w2)
  then show ?case using guards_step by metis
next
  case (exec_access f w p' w1 tr q w2)
  from guards_access [OF exec_access.prems exec_access.hyps(1)] exec_access.IH show ?case by simp
qed simp

section \<open>Rules\<close>

lemma guards_mono:
  assumes "guards rely guarantee post p w"
    and "\<And>a b. guarantee a b \<Longrightarrow> guarantee' a b" and "\<And>r w. post r w \<Longrightarrow> post' r w"
  shows "guards rely guarantee' post' p w"
  using assms(1)
proof (induction rule: guards.induct)
  case (guards_Ret w r)
  then show ?case using assms(3) by (auto intro: guards.guards_Ret)
next
  case (guards_Act w f)
  then show ?case using assms(2) by (intro guards.guards_Act) blast
qed

lemma guards_rely:
  assumes "guards rely guarantee post p w" and "\<And>a b. rely' a b \<Longrightarrow> rely a b"
  shows "guards rely' guarantee post p w"
proof -
  have star: "rely'\<^sup>*\<^sup>* a b \<Longrightarrow> rely\<^sup>*\<^sup>* a b" for a b
    by (induction rule: rtranclp_induct) (auto intro: assms(2) rtranclp.rtrancl_into_rtrancl)
  show ?thesis
    using assms(1)
  proof (induction rule: guards.induct)
    case (guards_Ret w r)
    then show ?case using star by (auto intro: guards.guards_Ret)
  next
    case (guards_Act w f)
    then show ?case using star by (intro guards.guards_Act) blast
  qed
qed

lemma guards_bindR:
  assumes "guards rely guarantee mid p w" and "\<And>r w. mid r w \<Longrightarrow> guards rely guarantee post (k r) w"
  shows "guards rely guarantee post (bindR p k) w"
  using assms(1)
proof (induction rule: guards.induct)
  case (guards_Ret w r)
  then show ?case using assms(2) [of r w] by simp
next
  case (guards_Act w f)
  then show ?case by (auto intro!: guards.guards_Act)
qed

lemma guards_return:
  assumes "post r w" and "\<And>w w'. post r w \<Longrightarrow> rely w w' \<Longrightarrow> post r w'"
  shows "guards rely guarantee post (Ret r) w"
proof (rule guards_Ret)
  fix w' assume "rely\<^sup>*\<^sup>* w w'"
  then show "post r w'" by (induction rule: rtranclp_induct) (use assms in auto)
qed

text \<open>Where nothing is asked of the result.\<close>

lemma guards_any: "guards rely guarantee (\<lambda>r w. True) (Ret r) w"
  by (rule guards_return) simp_all

lemma guards_bindP_any:
  assumes "guards rely guarantee mid p w" and "\<And>x w. mid (Ok x) w \<Longrightarrow> guards rely guarantee (\<lambda>r w. True) (k x) w"
  shows "guards rely guarantee (\<lambda>r w. True) (bindP p k) w"
  unfolding bindP_def using assms(1)
proof (rule guards_bindR)
  show "guards rely guarantee (\<lambda>r w. True) (case r of Ok x \<Rightarrow> k x | Err e \<Rightarrow> Ret (Err e) | Panic \<Rightarrow> Ret Panic) w"
    if "mid r w" for r w
    using that assms(2) by (cases r) (auto intro: guards_any)
qed

text \<open>
  An access under a stable precondition: the guarantee is shown there, and the postcondition for each
  outcome has to be stable again.
\<close>

lemma guards_call:
  assumes "pre w" and "\<And>w w'. pre w \<Longrightarrow> rely w w' \<Longrightarrow> pre w'"
    and "\<And>w r w'. pre w \<Longrightarrow> f w = (r, w') \<Longrightarrow> guarantee w w' \<and> post r w'"
    and "\<And>r w w'. post r w \<Longrightarrow> rely w w' \<Longrightarrow> post r w'"
  shows "guards rely guarantee post (call f) w"
  unfolding call_def
proof (rule guards_Act)
  fix w1 assume "rely\<^sup>*\<^sup>* w w1"
  then have "pre w1" by (induction rule: rtranclp_induct) (use assms(1,2) in auto)
  obtain r w2 where f: "f w1 = (r, w2)" by (cases "f w1")
  from assms(3) [OF \<open>pre w1\<close> f] have "guarantee w1 w2" "post r w2" by auto
  moreover from \<open>post r w2\<close> have "guards rely guarantee post (Ret r) w2" using assms(4) by (rule guards_return)
  ultimately show "guarantee w1 (snd (case f w1 of (r, w') \<Rightarrow> (Ret r, w'))) \<and>
      guards rely guarantee post (fst (case f w1 of (r, w') \<Rightarrow> (Ret r, w'))) (snd (case f w1 of (r, w') \<Rightarrow> (Ret r, w')))"
    by (simp add: f)
qed

text \<open>
  What is stable under the others and kept by every access holds whenever an access is made, and may be
  added to a postcondition.
\<close>

lemma guards_within:
  assumes "guards rely guarantee post p w" and "I w"
    and "\<And>a b. I a \<Longrightarrow> rely a b \<Longrightarrow> I b" and "\<And>a b. I a \<Longrightarrow> guarantee a b \<Longrightarrow> I b"
  shows "guards rely (\<lambda>a b. guarantee a b \<and> I a) (\<lambda>r w. post r w \<and> I w) p w"
proof -
  have keep: "rely\<^sup>*\<^sup>* a b \<Longrightarrow> I a \<Longrightarrow> I b" for a b
    by (induction rule: rtranclp_induct) (use assms(3) in auto)
  show ?thesis
    using assms(1,2)
  proof (induction rule: guards.induct)
    case (guards_Ret w r)
    then show ?case using keep by (auto intro: guards.guards_Ret)
  next
    case (guards_Act w f)
    show ?case
    proof (rule guards.guards_Act)
      fix w1 assume r: "rely\<^sup>*\<^sup>* w w1"
      note IH = guards_Act.IH [OF r] and now = keep [OF r guards_Act.prems]
      from now IH assms(4) have "I (snd (f w1))" by blast
      with now IH show "(guarantee w1 (snd (f w1)) \<and> I w1) \<and>
          guards rely (\<lambda>a b. guarantee a b \<and> I a) (\<lambda>r w. post r w \<and> I w) (fst (f w1)) (snd (f w1))"
        by blast
    qed
  qed
qed

lemmas guards_frame = guards_within [THEN guards_mono, OF _ _ _ _ conjunct1]

section \<open>Systems of processes\<close>

text \<open>
  One access of the process at an index, or a step of the outside world.  The label is the index of the
  process that made the access, with the worlds before and after it.
\<close>

inductive sys ::
    "('w \<Rightarrow> 'w \<Rightarrow> bool) \<Rightarrow> ('w, 'a) proc list \<Rightarrow> 'w \<Rightarrow> (nat \<times> 'w \<times> 'w) list \<Rightarrow> ('w, 'a) proc list \<Rightarrow> 'w \<Rightarrow> bool"
  for env
where
  sys_stop: "sys env ps w [] ps w"
| sys_env: "env w w1 \<Longrightarrow> sys env ps w1 tr qs w2 \<Longrightarrow> sys env ps w tr qs w2"
| sys_access: "i < length ps \<Longrightarrow> ps ! i = Act f \<Longrightarrow> f w = (p', w1) \<Longrightarrow> sys env (ps[i := p']) w1 tr qs w2 \<Longrightarrow>
    sys env ps w ((i, w, w1) # tr) qs w2"

theorem sys_guards:
  assumes "sys env ps w tr qs w'"
    and "\<And>i. i < length ps \<Longrightarrow> guards (rely i) (guarantee i) (post i) (ps ! i) w"
    and "\<And>i j a b. i < length ps \<Longrightarrow> j < length ps \<Longrightarrow> i \<noteq> j \<Longrightarrow> guarantee i a b \<Longrightarrow> rely j a b"
    and "\<And>i a b. i < length ps \<Longrightarrow> env a b \<Longrightarrow> rely i a b"
  shows "list_all (\<lambda>(i, a, b). i < length ps \<and> guarantee i a b) tr \<and> length qs = length ps \<and>
    (\<forall>i < length qs. guards (rely i) (guarantee i) (post i) (qs ! i) w')"
  using assms
proof (induction rule: sys.induct)
  case (sys_stop ps w)
  then show ?case by simp
next
  case (sys_env w w1 ps tr qs w2)
  have "guards (rely i) (guarantee i) (post i) (ps ! i) w1" if "i < length ps" for i
    using guards_step [OF sys_env.prems(1) [OF that] sys_env.prems(3) [OF that sys_env.hyps(1)]] .
  with sys_env.IH sys_env.prems show ?case by auto
next
  case (sys_access i ps f w p' w1 tr qs w2)
  note own = sys_access.prems(1) [OF sys_access.hyps(1), unfolded sys_access.hyps(2)]
  note g = guards_access(1) [OF own sys_access.hyps(3)] and p' = guards_access(2) [OF own sys_access.hyps(3)]
  have "guards (rely j) (guarantee j) (post j) (ps[i := p'] ! j) w1" if "j < length ps" for j
  proof (cases "j = i")
    case False
    with sys_access.prems(2) [OF sys_access.hyps(1) that _ g] have "rely j w w1" by auto
    from guards_step [OF sys_access.prems(1) [OF that] this] False show ?thesis by simp
  qed (use p' sys_access.hyps(1) in auto)
  with sys_access.IH sys_access.prems(2,3) g sys_access.hyps(1) show ?case by auto
qed

text \<open>What the outside world and every process keep is an invariant of the system.\<close>

lemma sys_invariant:
  assumes "sys env ps w tr qs w'" and "list_all (\<lambda>(i, a, b). guarantee i a b) tr" and "I w"
    and "\<And>a b. I a \<Longrightarrow> env a b \<Longrightarrow> I b" and "\<And>i a b. I a \<Longrightarrow> guarantee i a b \<Longrightarrow> I b"
  shows "I w'"
  using assms(1-3)
proof (induction rule: sys.induct)
  case (sys_env w w1 ps tr qs w2)
  then show ?case using assms(4) by simp
next
  case (sys_access i ps f w p' w1 tr qs w2)
  from sys_access.prems have "guarantee i w w1" by simp
  with assms(5) sys_access show ?case by simp
qed simp

end
