(* ===== verification/Lifecycle.thy ===== *)
theory Lifecycle
  imports References Interference
begin

text \<open>
  The life of a resource when several controllers work on it at once.  The reconciler
  (\<open>pkg/manager/reconcile.go\<close>) and the services that put references on the resource
  (\<open>pkg/manager/reference.go\<close>) share one stored object; what keeps them apart is the resource version of the
  API server.  Reads may be stale.
\<close>

section \<open>What is promised of the API server\<close>

text \<open>
  A view of the world: the object stored under a key, all the states that it ever had, and whether anything is
  provisioned for it; and whether the reconciler reads the stored object itself, or from a cache that may
  lag behind.  A resource version names one state.
\<close>

record 'w view =
  v_key :: object_key
  v_object :: "'w \<Rightarrow> managed option"
  v_past :: "'w \<Rightarrow> managed set"
  v_live :: "'w \<Rightarrow> bool"
  v_fresh :: bool

definition wf_store :: "'w view \<Rightarrow> 'w \<Rightarrow> bool" where
  "wf_store v w \<longleftrightarrow>
     (\<forall>ob. v_object v w = Some ob \<longrightarrow> ob \<in> v_past v w) \<and> (\<forall>a \<in> v_past v w. key_of a = v_key v) \<and>
     (\<forall>a \<in> v_past v w. \<forall>b \<in> v_past v w. om_resourceVersion a = om_resourceVersion b \<longrightarrow> a = b)"

definition same_store :: "'w view \<Rightarrow> 'w \<Rightarrow> 'w \<Rightarrow> bool" where
  "same_store v w w' \<longleftrightarrow> v_object v w' = v_object v w \<and> v_past v w' = v_past v w"

text \<open>
  An accepted update: it was made to the current version; an object that is being deleted gets no new
  finalizers, and goes away with the last one.
\<close>

definition accepted :: "'w view \<Rightarrow> managed \<Rightarrow> 'w \<Rightarrow> managed \<Rightarrow> 'w \<Rightarrow> bool" where
  "accepted v ob w new w' \<longleftrightarrow>
     (\<exists>cur. v_object v w = Some cur \<and> om_resourceVersion ob = om_resourceVersion cur \<and>
        om_finalizers new = om_finalizers ob \<and> om_deletionTimestamp new = om_deletionTimestamp cur \<and>
        (om_deletionTimestamp cur \<noteq> None \<longrightarrow> set (om_finalizers ob) \<subseteq> set (om_finalizers cur)) \<and>
        v_object v w' = (if om_deletionTimestamp cur \<noteq> None \<and> om_finalizers ob = [] then None else Some new) \<and>
        v_past v w' = insert new (v_past v w))"

text \<open>An update of the status leaves the metadata alone.\<close>

definition status_accepted :: "'w view \<Rightarrow> managed \<Rightarrow> 'w \<Rightarrow> managed \<Rightarrow> 'w \<Rightarrow> bool" where
  "status_accepted v ob w new w' \<longleftrightarrow>
     (\<exists>cur. v_object v w = Some cur \<and> om_resourceVersion ob = om_resourceVersion cur \<and>
        om_finalizers new = om_finalizers cur \<and> om_deletionTimestamp new = om_deletionTimestamp cur \<and>
        v_object v w' = Some new \<and> v_past v w' = insert new (v_past v w))"

text \<open>A call that returns an error may have been accepted nevertheless.\<close>

definition writes ::
    "'w view \<Rightarrow> (managed \<Rightarrow> 'w \<Rightarrow> managed \<Rightarrow> 'w \<Rightarrow> bool) \<Rightarrow> (managed \<Rightarrow> 'w \<Rightarrow> managed result \<times> 'w) \<Rightarrow> bool" where
  "writes v acc upd \<longleftrightarrow>
     (\<forall>ob w r w'. wf_store v w \<longrightarrow> key_of ob = v_key v \<longrightarrow> upd ob w = (r, w') \<longrightarrow>
        wf_store v w' \<and> v_live v w' = v_live v w \<and>
        (case r of Ok st \<Rightarrow> acc ob w st w' | _ \<Rightarrow> same_store v w w' \<or> (\<exists>st. acc ob w st w')))"

text \<open>A read finds some state that the object has had, the last one if reads are fresh.\<close>

definition reads :: "'w view \<Rightarrow> (object_key \<Rightarrow> 'w \<Rightarrow> managed result \<times> 'w) \<Rightarrow> bool" where
  "reads v get \<longleftrightarrow>
     (\<forall>w r w'. wf_store v w \<longrightarrow> get (v_key v) w = (r, w') \<longrightarrow>
        wf_store v w' \<and> v_live v w' = v_live v w \<and> same_store v w w' \<and> (\<forall>ob. r = Ok ob \<longrightarrow> ob \<in> v_past v w \<and> (v_fresh v \<longrightarrow> v_object v w = Some ob)))"

definition versioned :: "'w view \<Rightarrow> 'w mclient \<Rightarrow> bool" where
  "versioned v cl \<longleftrightarrow>
     reads v (mc_Get cl) \<and> writes v (accepted v) (mc_Update cl) \<and> writes v (status_accepted v) (mc_StatusUpdate cl) \<and>
     (\<forall>e w. wf_store v w \<longrightarrow>
        wf_store v (mc_Log cl e w) \<and> v_live v (mc_Log cl e w) = v_live v w \<and> same_store v w (mc_Log cl e w))"

section \<open>Who may do what\<close>

text \<open>
  The others: they do not touch our finalizer nor what is provisioned, and cannot revive an object nor
  give it finalizers once it is being deleted.
\<close>

definition keeps :: "managed \<Rightarrow> managed \<Rightarrow> bool" where
  "keeps ob ob' \<longleftrightarrow>
     Finalizer \<in> set (om_finalizers ob') \<and>
     (om_deletionTimestamp ob \<noteq> None \<longrightarrow>
        om_deletionTimestamp ob' \<noteq> None \<and> set (om_finalizers ob') \<subseteq> set (om_finalizers ob))"

definition others :: "'w view \<Rightarrow> 'w \<Rightarrow> 'w \<Rightarrow> bool" where
  "others v a b \<longleftrightarrow>
     (wf_store v a \<longrightarrow>
        wf_store v b \<and> v_past v a \<subseteq> v_past v b \<and> v_live v b = v_live v a \<and>
        (\<forall>ob. v_object v a = Some ob \<longrightarrow> Finalizer \<in> set (om_finalizers ob) \<longrightarrow>
           (\<exists>ob'. v_object v b = Some ob' \<and> keeps ob ob')))"

text \<open>The provisioner: it does not touch the stored object.\<close>

definition private_step :: "'w view \<Rightarrow> 'w \<Rightarrow> 'w \<Rightarrow> bool" where
  "private_step v a b \<longleftrightarrow> (wf_store v a \<longrightarrow> wf_store v b \<and> same_store v a b)"

definition same_meta :: "managed \<Rightarrow> managed \<Rightarrow> bool" where
  "same_meta a b \<longleftrightarrow>
     key_of a = key_of b \<and> om_resourceVersion a = om_resourceVersion b \<and> om_finalizers a = om_finalizers b \<and>
     om_deletionTimestamp a = om_deletionTimestamp b"

text \<open>A deprovisioner that returns nil has left nothing behind.\<close>

definition provisions :: "'w view \<Rightarrow> 'w mprovisioner \<Rightarrow> bool" where
  "provisions v prov \<longleftrightarrow>
     (\<forall>ob w. wf_store v w \<longrightarrow>
        guards (others v) (private_step v) (\<lambda>r w'. \<forall>ob' e. r = Ok (ob', e) \<longrightarrow> same_meta ob' ob) (mp_Provision prov ob) w \<and>
        guards (others v) (private_step v)
          (\<lambda>r w'. wf_store v w' \<and> (\<forall>ob' e. r = Ok (ob', e) \<longrightarrow> same_meta ob' ob \<and> (e = None \<longrightarrow> \<not> v_live v w')))
          (mp_Deprovision prov ob) w)"

text \<open>
  The reconciler: it never takes a reference off, keeps its finalizer on what is stored, and lets the
  object go only when it is being deleted, nobody refers to it and nothing is left provisioned.
\<close>

definition released :: "'w view \<Rightarrow> 'w \<Rightarrow> managed \<Rightarrow> bool" where
  "released v w ob \<longleftrightarrow>
     om_deletionTimestamp ob \<noteq> None \<and> GetResourceReferences ob = [] \<and>
     FinalizerDeleteDependents \<notin> set (om_finalizers ob) \<and> \<not> v_live v w"

text \<open>With fresh reads, something is provisioned only while the stored object carries the finalizer.\<close>

definition held :: "'w view \<Rightarrow> 'w \<Rightarrow> bool" where
  "held v w \<longleftrightarrow> (\<exists>ob. v_object v w = Some ob \<and> Finalizer \<in> set (om_finalizers ob))"

definition honours :: "'w view \<Rightarrow> 'w \<Rightarrow> 'w \<Rightarrow> bool" where
  "honours v a b \<longleftrightarrow>
     (wf_store v a \<longrightarrow>
        wf_store v b \<and> v_past v a \<subseteq> v_past v b \<and>
        (v_fresh v \<longrightarrow> \<not> v_live v a \<longrightarrow> v_live v b \<longrightarrow> held v a \<and> held v b) \<and>
        (case v_object v a of
           None \<Rightarrow> v_object v b = None
         | Some ob \<Rightarrow>
             (case v_object v b of
                None \<Rightarrow> released v a ob
              | Some ob' \<Rightarrow>
                  set (GetResourceReferences ob') = set (GetResourceReferences ob) \<and>
                  om_deletionTimestamp ob' = om_deletionTimestamp ob \<and>
                  (Finalizer \<in> set (om_finalizers ob) \<longrightarrow> Finalizer \<in> set (om_finalizers ob')))))"

section \<open>Stability\<close>

definition known :: "'w view \<Rightarrow> managed \<Rightarrow> 'w \<Rightarrow> bool" where
  "known v ob w \<longleftrightarrow> wf_store v w \<and> (\<exists>ob' \<in> v_past v w. same_meta ob ob')"

lemma known_others: "known v ob a \<Longrightarrow> others v a b \<Longrightarrow> known v ob b"
  by (auto simp: known_def others_def)

lemma known_private: "known v ob a \<Longrightarrow> private_step v a b \<Longrightarrow> known v ob b"
  by (auto simp: known_def private_step_def same_store_def)

lemma wf_others: "wf_store v a \<Longrightarrow> others v a b \<Longrightarrow> wf_store v b"
  by (simp add: others_def)

lemma same_meta_trans: "same_meta a b \<Longrightarrow> same_meta b c \<Longrightarrow> same_meta a c"
  by (auto simp: same_meta_def)

lemma same_meta_refl [simp]: "same_meta a a"
  by (simp add: same_meta_def)

lemma same_meta_known: "same_meta a b \<Longrightarrow> known v b w \<Longrightarrow> known v a w"
  by (auto simp: known_def intro: same_meta_trans)

lemma same_honours: "same_store v a b \<Longrightarrow> wf_store v b \<Longrightarrow> v_live v b = v_live v a \<Longrightarrow> honours v a b"
  by (auto simp: honours_def same_store_def split: option.splits)

lemma private_honours: "private_step v a b \<Longrightarrow> (v_fresh v \<Longrightarrow> held v a) \<Longrightarrow> honours v a b"
  by (cases "wf_store v a") (auto simp: private_step_def honours_def same_store_def held_def split: option.splits)

lemma held_others: "wf_store v a \<Longrightarrow> held v a \<Longrightarrow> others v a b \<Longrightarrow> held v b"
  by (auto simp: held_def others_def keeps_def)

lemma held_private: "wf_store v a \<Longrightarrow> held v a \<Longrightarrow> private_step v a b \<Longrightarrow> held v b"
  by (auto simp: held_def private_step_def same_store_def)

text \<open>
  \<open>tracks\<close> is what a read leaves; \<open>anchored\<close> is what has to hold when the provisioner is called.
\<close>

definition tracks :: "'w view \<Rightarrow> managed \<Rightarrow> 'w \<Rightarrow> bool" where
  "tracks v ob w \<longleftrightarrow> known v ob w \<and> (v_fresh v \<longrightarrow> Finalizer \<in> set (om_finalizers ob) \<longrightarrow> held v w)"

definition anchored :: "'w view \<Rightarrow> managed \<Rightarrow> 'w \<Rightarrow> bool" where
  "anchored v ob w \<longleftrightarrow> known v ob w \<and> (v_fresh v \<longrightarrow> held v w)"

lemma tracks_others: "tracks v ob a \<Longrightarrow> others v a b \<Longrightarrow> tracks v ob b"
  using known_others [of v ob a b] held_others [of v a b] by (auto simp: tracks_def known_def)

lemma anchored_others: "anchored v ob a \<Longrightarrow> others v a b \<Longrightarrow> anchored v ob b"
  using known_others [of v ob a b] held_others [of v a b] by (auto simp: anchored_def known_def)

lemma anchored_private: "anchored v ob a \<Longrightarrow> private_step v a b \<Longrightarrow> anchored v ob b"
  using known_private [of v ob a b] held_private [of v a b] by (auto simp: anchored_def known_def)

lemma anchored_tracks: "tracks v ob w \<Longrightarrow> Finalizer \<in> set (om_finalizers ob) \<Longrightarrow> anchored v ob w"
  by (simp add: tracks_def anchored_def)

text \<open>A write to a known state that is accepted was made to that state.\<close>

lemma known_current:
  assumes "known v ob w" and "v_object v w = Some cur" and "om_resourceVersion ob = om_resourceVersion cur"
  shows "same_meta ob cur"
  using assms by (auto simp: known_def wf_store_def same_meta_def)

lemma references_set: "set (GetResourceReferences ob) = set (om_finalizers ob) - {Finalizer, FinalizerDeleteDependents}"
  by (auto simp: GetResourceReferences_def)

section \<open>The accesses of the reconciler\<close>

lemma writesD:
  assumes "writes v acc upd" and "known v ob0 w" and "key_of ob = key_of ob0" and "upd ob w = (r, w')"
  shows "wf_store v w'" and "v_live v w' = v_live v w"
    and "\<And>st. r = Ok st \<Longrightarrow> acc ob w st w'" and "same_store v w w' \<or> (\<exists>st. acc ob w st w')"
proof -
  from assms(2,3) have "wf_store v w" "key_of ob = v_key v" by (auto simp: known_def wf_store_def same_meta_def)
  with assms(1,4) have w: "wf_store v w' \<and> v_live v w' = v_live v w \<and>
      (case r of Ok st \<Rightarrow> acc ob w st w' | _ \<Rightarrow> same_store v w w' \<or> (\<exists>st. acc ob w st w'))"
    unfolding writes_def by blast
  then show "wf_store v w'" and "v_live v w' = v_live v w" by simp_all
  show "\<And>st. r = Ok st \<Longrightarrow> acc ob w st w'" using w by simp
  show "same_store v w w' \<or> (\<exists>st. acc ob w st w')" using w by (cases r) auto
qed

lemma status_honours:
  assumes "status_accepted v ob w st w'" and "wf_store v w'" and "v_live v w' = v_live v w"
  shows "honours v w w'"
  using assms by (auto simp: status_accepted_def honours_def references_set)

text \<open>
  What the reconciler knows of a stored state: its metadata are those of \<open>object\<close> and, if \<open>dead\<close>, nothing
  is provisioned any more.
\<close>

definition settled :: "'w view \<Rightarrow> bool \<Rightarrow> managed \<Rightarrow> managed \<Rightarrow> 'w \<Rightarrow> bool" where
  "settled v dead object st w \<longleftrightarrow>
     known v st w \<and> om_finalizers st = om_finalizers object \<and> om_deletionTimestamp st = om_deletionTimestamp object \<and>
     (dead \<longrightarrow> \<not> v_live v w)"

lemma settled_others: "settled v dead object st a \<Longrightarrow> others v a b \<Longrightarrow> settled v dead object st b"
  using known_others [of v st a b] by (auto simp: settled_def others_def known_def)

lemma guards_StatusUpdate:
  assumes "versioned v cl" and "settled v dead object object w" and ob: "same_meta ob object"
  shows "guards (others v) (honours v) (\<lambda>r w'. \<forall>st. r = Ok st \<longrightarrow> settled v dead object st w')
    (call (mc_StatusUpdate cl ob)) w"
proof (rule guards_call [where pre = "settled v dead object object"])
  fix a r b
  assume pre: "settled v dead object object a" and call: "mc_StatusUpdate cl ob a = (r, b)"
  then have known: "known v object a" by (simp add: settled_def)
  from assms(1) have "writes v (status_accepted v) (mc_StatusUpdate cl)" by (simp add: versioned_def)
  from writesD [OF this known _ call] ob have w: "wf_store v b" "v_live v b = v_live v a"
      "\<And>st. r = Ok st \<Longrightarrow> status_accepted v ob a st b" "same_store v a b \<or> (\<exists>st. status_accepted v ob a st b)"
    by (auto simp: same_meta_def)
  from w(4) have "honours v a b" by (elim disjE exE) (auto intro: same_honours [OF _ w(1,2)] status_honours [OF _ w(1,2)])
  moreover have "settled v dead object st b" if "r = Ok st" for st
  proof -
    from w(3) [OF that] obtain cur where cur: "v_object v a = Some cur" "om_resourceVersion ob = om_resourceVersion cur"
        "om_finalizers st = om_finalizers cur" "om_deletionTimestamp st = om_deletionTimestamp cur" "st \<in> v_past v b"
      by (auto simp: status_accepted_def)
    have "same_meta ob cur"
      by (rule known_current [OF same_meta_known [OF ob] cur(1,2)]) (use pre in \<open>simp add: settled_def\<close>)
    with ob cur(3-5) pre w(1,2) show ?thesis by (auto simp: same_meta_def known_def settled_def)
  qed
  ultimately show "honours v a b \<and> (\<forall>st. r = Ok st \<longrightarrow> settled v dead object st b)" by blast
qed (use assms in \<open>auto intro: settled_others\<close>)

lemma guards_Emit:
  assumes "versioned v cl" and "settled v dead object st w"
  shows "guards (others v) (honours v) (\<lambda>r. settled v dead object st) (Emit cl st stream status reason message) w"
  unfolding Emit_def
proof (rule guards_call [where pre = "settled v dead object st"])
  fix a r b
  assume pre: "settled v dead object st a"
    and call: "(Ok (), mc_Log cl (transition_of (mc_ObjectKinds cl st) st stream status reason message) a) = (r, b)"
  from pre have "wf_store v a" by (simp add: settled_def known_def)
  with assms(1) call have "wf_store v b" "v_live v b = v_live v a" "same_store v a b" by (auto simp: versioned_def)
  then show "honours v a b \<and> settled v dead object st b"
    using pre same_honours [of v a b] by (auto simp: settled_def known_def same_store_def)
qed (use assms in \<open>auto intro: settled_others\<close>)

text \<open>Recording an outcome; when there was no error the stored object is returned.\<close>

lemma guards_handleReconcileCondition:
  assumes "versioned v cl" and "settled v dead object object w"
  shows "guards (others v) (honours v) (\<lambda>r w'. \<forall>st. r = Ok st \<longrightarrow> err = None \<longrightarrow> settled v dead object st w')
     (handleReconcileCondition lib cl object err dep) w"
    (is "guards _ _ ?post _ _")
proof (cases "condition_phase1 err dep")
  case None
  then have "err \<noteq> None" by (cases err) (auto simp: condition_phase1_def split: if_splits)
  with None show ?thesis by (auto simp: handleReconcileCondition_def intro: guards_return)
next
  case (Some srm)
  obtain status reason message where srm: "condition_phase2 err srm = (status, reason, message)"
    by (cases "condition_phase2 err srm") auto
  let ?ob = "SetProvisioningCondition lib object status reason message"
  let ?emit = "\<lambda>st. bindP (Emit cl st StreamProvisioning status reason message) (\<lambda>_. return st)"
  have "same_meta ?ob object" by (simp add: same_meta_def SetProvisioningCondition_def key_of_def)
  note upd = guards_StatusUpdate [OF assms this]
  have emit: "guards (others v) (honours v) ?post (?emit st) w'" if "settled v dead object st w'" for st w'
    unfolding bindP_def using guards_Emit [OF assms(1) that]
  proof (rule guards_bindR)
    show "guards (others v) (honours v) ?post (case r of Ok x \<Rightarrow> return st | Err e \<Rightarrow> Ret (Err e) | Panic \<Rightarrow> Ret Panic) w1"
      if "settled v dead object st w1" for r :: "unit result" and w1
      using that by (cases r) (auto intro!: guards_return dest: settled_others)
  qed
  have "guards (others v) (honours v) ?post
     (bindP (call (mc_StatusUpdate cl ?ob)) (\<lambda>st. if c then ?emit st else return st)) w" for c
    unfolding bindP_def [of "call (mc_StatusUpdate cl ?ob)"] using upd
  proof (rule guards_bindR)
    show "guards (others v) (honours v) ?post
        (case r of Ok st \<Rightarrow> if c then ?emit st else return st | Err e \<Rightarrow> Ret (Err e) | Panic \<Rightarrow> Ret Panic) w1"
      if "\<forall>st. r = Ok st \<longrightarrow> settled v dead object st w1" for r w1
      using that by (cases r) (auto intro!: guards_return emit dest: settled_others)
  qed
  then show ?thesis by (simp add: handleReconcileCondition_def Some srm Let_def)
qed

text \<open>Taking the finalizer off.\<close>

lemma guards_drop_finalizer:
  assumes "klib_ok lib" and "versioned v cl" and "settled v True object st w"
    and "om_deletionTimestamp object \<noteq> None" and "GetResourceReferences object = []"
    and "FinalizerDeleteDependents \<notin> set (om_finalizers object)"
  shows "guards (others v) (honours v) (\<lambda>r w. True) (drop_finalizer lib cl st) w"
proof -
  obtain ok fs where fs: "RemoveFinalizer lib (om_finalizers st) Finalizer = (ok, fs)"
    by (cases "RemoveFinalizer lib (om_finalizers st) Finalizer")
  let ?ob = "st\<lparr>om_finalizers := fs\<rparr>"
  have refs: "set (om_finalizers object) \<subseteq> {Finalizer}"
    using assms(5,6) references_set [of object] by auto
  have upd: "guards (others v) (honours v) (\<lambda>r w'. True) (call (mc_Update cl ?ob)) w"
  proof (rule guards_call [where pre = "settled v True object st"])
    fix a r b
    assume pre: "settled v True object st a" and call: "mc_Update cl ?ob a = (r, b)"
    then have known: "known v st a" by (simp add: settled_def)
    from assms(2) have "writes v (accepted v) (mc_Update cl)" by (simp add: versioned_def)
    note w = writesD [OF this known key_of_finalizers call]
    have "honours v a b" if "accepted v ?ob a new b" for new
    proof -
      from that obtain cur where cur: "v_object v a = Some cur" "om_resourceVersion ?ob = om_resourceVersion cur"
          "v_object v b = (if om_deletionTimestamp cur \<noteq> None \<and> om_finalizers ?ob = [] then None else Some new)"
          "v_past v b = insert new (v_past v a)"
        unfolding accepted_def by blast
      have meta: "same_meta st cur"
        by (rule known_current [OF _ cur(1)]) (use pre cur(2) in \<open>auto simp: settled_def\<close>)
      with pre have fin: "om_finalizers cur = om_finalizers object" "om_deletionTimestamp cur = om_deletionTimestamp object"
        by (auto simp: settled_def same_meta_def)
      have "set fs = set (om_finalizers st) - {Finalizer}"
        using finalizers_okD(4) [OF assms(1), of "om_finalizers st" Finalizer] fs by simp
      with pre refs have "set fs = {}" unfolding settled_def by auto
      then have "fs = []" by simp
      with cur(3) fin assms(4) have "v_object v b = None" by simp
      moreover have "released v a cur"
        using fin assms(4-6) pre by (simp add: released_def settled_def GetResourceReferences_def)
      ultimately show ?thesis using cur(1,4) w(1,2) by (auto simp: honours_def)
    qed
    with w(4) show "honours v a b \<and> True" by (elim disjE exE) (auto intro: same_honours [OF _ w(1,2)])
  qed (use assms(3) in \<open>auto intro: settled_others\<close>)
  show ?thesis
  proof (cases ok)
    case True
    have "guards (others v) (honours v) (\<lambda>r w. True)
        (bindR (call (mc_Update cl ?ob)) (\<lambda>r. case r of Ok _ \<Rightarrow> return 0 | Err _ \<Rightarrow> return DefaultYieldTimeout | Panic \<Rightarrow> Ret Panic)) w"
      using upd by (rule guards_bindR) (auto split: outcome.splits intro: guards_return)
    with True fs show ?thesis by (simp add: drop_finalizer_def)
  qed (auto simp: drop_finalizer_def fs intro: guards_return)
qed

text \<open>Putting the finalizer on.\<close>

lemma guards_ensure_finalizer:
  assumes "klib_ok lib" and "versioned v cl" and "tracks v object w"
  shows "guards (others v) (honours v) (\<lambda>r w'. \<forall>st. r = Ok st \<longrightarrow> anchored v st w')
    (ensure_finalizer lib cl object) w"
    (is "guards _ _ ?post _ _")
proof -
  obtain ok fs where fs: "AddFinalizer lib (om_finalizers object) Finalizer = (ok, fs)"
    by (cases "AddFinalizer lib (om_finalizers object) Finalizer")
  let ?ob = "object\<lparr>om_finalizers := fs\<rparr>"
  have set_fs: "set fs = insert Finalizer (set (om_finalizers object))"
    using finalizers_okD(2) [OF assms(1), of "om_finalizers object" Finalizer] fs by simp
  have "guards (others v) (honours v) ?post (call (mc_Update cl ?ob)) w"
  proof (rule guards_call [where pre = "known v object"])
    fix a r b
    assume pre: "known v object a" and call: "mc_Update cl ?ob a = (r, b)"
    from assms(2) have "writes v (accepted v) (mc_Update cl)" by (simp add: versioned_def)
    note w = writesD [OF this pre key_of_finalizers call]
    have "honours v a b" if "accepted v ?ob a new b" for new
    proof -
      from that obtain cur where cur: "v_object v a = Some cur" "om_resourceVersion ?ob = om_resourceVersion cur"
          "om_finalizers new = fs" "om_deletionTimestamp new = om_deletionTimestamp cur"
          "v_object v b = (if om_deletionTimestamp cur \<noteq> None \<and> fs = [] then None else Some new)"
          "v_past v b = insert new (v_past v a)"
        unfolding accepted_def by auto
      have "same_meta object cur" by (rule known_current [OF pre cur(1)]) (use cur(2) in simp)
      moreover from set_fs have "fs \<noteq> []" by auto
      ultimately show ?thesis
        using cur set_fs w(1,2) by (auto simp: honours_def references_set same_meta_def)
    qed
    with w(4) have "honours v a b" by (elim disjE exE) (auto intro: same_honours [OF _ w(1,2)])
    moreover have "known v st b \<and> held v b" if "r = Ok st" for st
      using w(3) [OF that] w(1) set_fs by (auto simp: accepted_def known_def held_def)
    ultimately show "honours v a b \<and> (\<forall>st. r = Ok st \<longrightarrow> anchored v st b)" by (auto simp: anchored_def)
  qed (use assms(3) in \<open>auto simp: tracks_def intro: known_others anchored_others\<close>)
  moreover have "guards (others v) (honours v) ?post (return ?ob) w" if "\<not> ok"
  proof -
    from that finalizers_okD(1,6) [OF assms(1), where fs = "om_finalizers object" and f = Finalizer] fs
    have "?ob = object" "Finalizer \<in> set (om_finalizers object)" by simp_all
    with assms(3) have "anchored v ?ob w" by (simp add: anchored_tracks)
    then show ?thesis by (intro guards_return) (auto intro: anchored_others)
  qed
  ultimately show ?thesis by (simp add: ensure_finalizer_def fs)
qed

text \<open>Calling a method of the provisioner on a known object.\<close>

lemma guards_attempt:
  assumes "guards (others v) (private_step v)
      (\<lambda>r w'. \<forall>ob' e. r = Ok (ob', e) \<longrightarrow> same_meta ob' ob \<and> (dead \<longrightarrow> e = None \<longrightarrow> \<not> v_live v w')) p w"
    and "anchored v ob w"
  shows "guards (others v) (honours v)
      (\<lambda>r w'. \<forall>ob' e. r = Ok (ob', e) \<longrightarrow> same_meta ob' ob \<and> settled v (dead \<and> e = None) ob' ob' w') (attempt ob p) w"
    (is "guards _ _ ?post _ _")
proof -
  let ?mid = "\<lambda>r w'. (\<forall>ob' e. r = Ok (ob', e) \<longrightarrow> same_meta ob' ob \<and> (dead \<longrightarrow> e = None \<longrightarrow> \<not> v_live v w')) \<and> known v ob w'"
  have p: "guards (others v) (honours v) ?mid p w"
    by (rule guards_mono [OF guards_within [OF assms(1), of "anchored v ob", OF assms(2) anchored_others anchored_private]])
      (auto simp: anchored_def intro: private_honours)
  have res: "settled v (dead \<and> e = None) ob' ob' w1" if "same_meta ob' ob" "known v ob w1" "dead \<longrightarrow> e = None \<longrightarrow> \<not> v_live v w1"
    for ob' w1 and e :: "gerror option"
    using that by (auto simp: settled_def intro: same_meta_known)
  have "guards (others v) (honours v) ?post
      (case r of Ok x \<Rightarrow> return x | Err e \<Rightarrow> return (ob, Some e) | Panic \<Rightarrow> Ret Panic) w1" if "?mid r w1" for r w1
  proof (cases r)
    case (Ok x)
    with that res show ?thesis
      by (cases x) (auto intro!: guards_return dest: settled_others)
  next
    case (Err e)
    with that res [of ob w1 "Some e"] show ?thesis by (auto intro!: guards_return dest: settled_others)
  qed (auto intro!: guards_return)
  with p show ?thesis unfolding attempt_def by (rule guards_bindR)
qed

section \<open>Reconciling among others\<close>

text \<open>What follows the provisioner's method: the outcome is recorded, and then \<open>k\<close> decides.\<close>

lemma guards_recorded:
  assumes "versioned v cl" and "settled v dead object object w"
    and "\<And>st w. (err = None \<Longrightarrow> settled v dead object st w) \<Longrightarrow> guards (others v) (honours v) (\<lambda>r w. True) (k st) w"
  shows "guards (others v) (honours v) (\<lambda>r w. True)
     (bindR (handleReconcileCondition lib cl object err dep)
        (\<lambda>r. case r of Ok st \<Rightarrow> k st | Err _ \<Rightarrow> return DefaultYieldTimeout | Panic \<Rightarrow> Ret Panic)) w"
  using guards_handleReconcileCondition [OF assms(1,2)]
proof (rule guards_bindR)
  show "guards (others v) (honours v) (\<lambda>r w. True)
      (case r of Ok st \<Rightarrow> k st | Err _ \<Rightarrow> return DefaultYieldTimeout | Panic \<Rightarrow> Ret Panic) w"
    if "\<forall>st. r = Ok st \<longrightarrow> err = None \<longrightarrow> settled v dead object st w" for r w
    using that assms(3) by (cases r) (auto intro: guards_any)
qed

lemma guards_reconcileDelete:
  assumes "klib_ok lib" and "versioned v cl" and "provisions v prov" and "tracks v object w"
    and "om_deletionTimestamp object \<noteq> None" and "om_finalizers object \<noteq> []"
  shows "guards (others v) (honours v) (\<lambda>r w. True) (reconcileDelete lib cl prov object) w"
proof -
  let ?mid = "\<lambda>r w'. \<forall>ob' (e :: gerror option). r = Ok (ob', e) \<longrightarrow>
      same_meta ob' object \<and> settled v (e = None) ob' ob' w' \<and> (e = None \<longrightarrow> \<not> blocked lib object)"
  let ?p = "if length (GetResourceReferences object) > 0 then return (object, Some (Sentinel ErrYield))
            else if ContainsFinalizer lib (om_finalizers object) FinalizerDeleteDependents
            then return (object, Some (Sentinel ErrYield))
            else attempt object (mp_Deprovision prov object)"
  have "guards (others v) (honours v) ?mid ?p w"
  proof (cases "blocked lib object")
    case True
    then have "?p = return (object, Some (Sentinel ErrYield))" by (auto simp: blocked_def)
    moreover have "settled v False object object w" using assms(4) by (simp add: settled_def tracks_def)
    ultimately show ?thesis by (auto intro!: guards_return dest: settled_others)
  next
    case False
    then have p: "?p = attempt object (mp_Deprovision prov object)" by (auto simp: blocked_def)
    from assms(4) have "wf_store v w" by (simp add: known_def tracks_def)
    with assms(3) have "guards (others v) (private_step v)
        (\<lambda>r w'. wf_store v w' \<and> (\<forall>ob' e. r = Ok (ob', e) \<longrightarrow> same_meta ob' object \<and> (e = None \<longrightarrow> \<not> v_live v w')))
        (mp_Deprovision prov object) w"
      by (simp add: provisions_def)
    then have deprovision: "guards (others v) (private_step v)
        (\<lambda>r w'. \<forall>ob' e. r = Ok (ob', e) \<longrightarrow> same_meta ob' object \<and> (True \<longrightarrow> e = None \<longrightarrow> \<not> v_live v w'))
        (mp_Deprovision prov object) w"
      by (rule guards_mono) auto
    have "set (om_finalizers object) \<subseteq> {Finalizer}"
      using False finalizers_okD(5) [OF assms(1)] references_set [of object] by (auto simp: blocked_def)
    with assms(6) have "Finalizer \<in> set (om_finalizers object)" by (cases "om_finalizers object") auto
    from guards_attempt [OF deprovision anchored_tracks [OF assms(4) this]] False show ?thesis
      unfolding p by (auto elim: guards_mono)
  qed
  then show ?thesis
    unfolding reconcileDelete_def
  proof (rule guards_bindP_any)
    fix x :: "managed \<times> gerror option" and w1
    assume mid: "?mid (Ok x) w1"
    obtain ob perr where x: "x = (ob, perr)" by (cases x)
    with mid have ob: "same_meta ob object" "settled v (perr = None) ob ob w1" "perr = None \<Longrightarrow> \<not> blocked lib object"
      by auto
    have "guards (others v) (honours v) (\<lambda>r w. True)
        (case perr of Some e \<Rightarrow> if \<not> errors_Is e ErrYield then throw e else return DefaultYieldTimeout
         | None \<Rightarrow> drop_finalizer lib cl st) w2"
      if st: "perr = None \<Longrightarrow> settled v (perr = None) ob st w2" for st w2
    proof (cases perr)
      case None
      with st have "settled v True ob st w2" by simp
      then have "guards (others v) (honours v) (\<lambda>r w. True) (drop_finalizer lib cl st) w2"
        using None ob(1,3) assms(5) finalizers_okD(5) [OF assms(1)]
        by (intro guards_drop_finalizer [OF assms(1,2), of ob])
          (auto simp: same_meta_def blocked_def GetResourceReferences_def)
      with None show ?thesis by simp
    qed (auto intro: guards_any)
    from guards_recorded [OF assms(2) ob(2), where k = "\<lambda>st. case perr of Some e \<Rightarrow> if \<not> errors_Is e ErrYield then throw e
        else return DefaultYieldTimeout | None \<Rightarrow> drop_finalizer lib cl st", OF this]
    show "guards (others v) (honours v) (\<lambda>r w. True) (case x of (object, perr) \<Rightarrow>
        bindR (handleReconcileCondition lib cl object perr True) (\<lambda>r. case r of
            Ok object \<Rightarrow> (case perr of None \<Rightarrow> drop_finalizer lib cl object
              | Some e \<Rightarrow> if \<not> errors_Is e ErrYield then throw e else return DefaultYieldTimeout)
          | Err _ \<Rightarrow> return DefaultYieldTimeout | Panic \<Rightarrow> Ret Panic)) w1"
      by (simp add: x)
  qed
qed

lemma guards_reconcileNormal:
  assumes "klib_ok lib" and "versioned v cl" and "provisions v prov" and "tracks v object w"
  shows "guards (others v) (honours v) (\<lambda>r w. True) (reconcileNormal lib cl prov object) w"
  unfolding reconcileNormal_def
proof (rule guards_bindP_any [OF guards_ensure_finalizer [OF assms(1,2,4)]])
  fix st w1
  assume "\<forall>ob. Ok st = Ok ob \<longrightarrow> anchored v ob w1"
  then have anchored: "anchored v st w1" by simp
  then have "wf_store v w1" by (simp add: anchored_def known_def)
  with assms(3) have "guards (others v) (private_step v)
      (\<lambda>r w'. \<forall>ob' e. r = Ok (ob', e) \<longrightarrow> same_meta ob' st \<and> (False \<longrightarrow> e = None \<longrightarrow> \<not> v_live v w'))
      (mp_Provision prov st) w1"
    by (simp add: provisions_def)
  note attempt = guards_attempt [OF this anchored]
  let ?k = "\<lambda>perr object. case perr of Some e \<Rightarrow> if IsTerminal e then return 0 else return DefaultYieldTimeout | None \<Rightarrow> return 0"
  have k: "guards (others v) (honours v) (\<lambda>r w. True) (?k perr ob) w2" for perr ob w2
    by (auto intro: guards_any split: option.splits)
  from attempt show "guards (others v) (honours v) (\<lambda>r w. True)
      (bindP (attempt st (mp_Provision prov st)) (\<lambda>(object, perr).
         bindR (handleReconcileCondition lib cl object perr False)
           (\<lambda>r. case r of Ok object \<Rightarrow> ?k perr object | Err _ \<Rightarrow> return DefaultYieldTimeout | Panic \<Rightarrow> Ret Panic))) w1"
  proof (rule guards_bindP_any)
    fix x :: "managed \<times> gerror option" and w2
    assume mid: "\<forall>ob' e. Ok x = Ok (ob', e) \<longrightarrow> same_meta ob' st \<and> settled v (False \<and> e = None) ob' ob' w2"
    obtain ob perr where x: "x = (ob, perr)" by (cases x)
    with mid have "settled v False ob ob w2" by simp
    from guards_recorded [OF assms(2) this k]
    show "guards (others v) (honours v) (\<lambda>r w. True) (case x of (object, perr) \<Rightarrow>
         bindR (handleReconcileCondition lib cl object perr False)
           (\<lambda>r. case r of Ok object \<Rightarrow> ?k perr object | Err _ \<Rightarrow> return DefaultYieldTimeout | Panic \<Rightarrow> Ret Panic)) w2"
      by (simp add: x)
  qed
qed

lemma guards_Reconcile:
  assumes "klib_ok lib" and "versioned v cl" and "provisions v prov" and "wf_store v w"
  shows "guards (others v) (honours v) (\<lambda>r w. True) (Reconcile lib cl prov kind (v_key v)) w"
proof -
  have get: "guards (others v) (honours v) (\<lambda>r w'. \<forall>ob. r = Ok ob \<longrightarrow> tracks v ob w') (call (mc_Get cl (v_key v))) w"
  proof (rule guards_call [where pre = "wf_store v"])
    fix a r b
    assume "wf_store v a" and "mc_Get cl (v_key v) a = (r, b)"
    with assms(2) have g: "wf_store v b" "v_live v b = v_live v a" "same_store v a b"
        "\<forall>ob. r = Ok ob \<longrightarrow> ob \<in> v_past v a \<and> (v_fresh v \<longrightarrow> v_object v a = Some ob)"
      unfolding versioned_def reads_def by blast+
    then have "\<forall>ob. r = Ok ob \<longrightarrow> tracks v ob b" by (auto simp: tracks_def known_def same_store_def held_def intro: same_meta_refl)
    with same_honours [OF g(3,1,2)] show "honours v a b \<and> (\<forall>ob. r = Ok ob \<longrightarrow> tracks v ob b)" by blast
  qed (use assms(4) in \<open>auto intro: tracks_others wf_others\<close>)
  let ?k = "\<lambda>r. case r of
         Err e \<Rightarrow> if IsNotFound e then return 0 else throw e
       | Panic \<Rightarrow> Ret Panic
       | Ok object \<Rightarrow>
           if om_deletionTimestamp object \<noteq> None
           then (if length (om_finalizers object) = 0 then return 0 else reconcileDelete lib cl prov object)
           else if m_paused object then return 0
           else reconcileNormal lib cl prov object"
  have "guards (others v) (honours v) (\<lambda>r w. True) (?k r) w1" if "\<forall>ob. r = Ok ob \<longrightarrow> tracks v ob w1" for r w1
  proof (cases r)
    case (Ok ob)
    with that show ?thesis
      using guards_reconcileDelete [OF assms(1-3), of ob w1] guards_reconcileNormal [OF assms(1-3), of ob w1]
      by (auto intro: guards_any)
  qed (auto intro: guards_any)
  with get have "guards (others v) (honours v) (\<lambda>r w. True) (bindR (call (mc_Get cl (v_key v))) ?k) w"
    by (rule guards_bindR)
  then show ?thesis
    unfolding Reconcile_def by (cases "getDriver kind") (simp_all only: bindP_Ret guards_any)
qed

lemma wf_honours: "wf_store v a \<Longrightarrow> honours v a b \<Longrightarrow> wf_store v b"
  by (simp add: honours_def)

text \<open>
  The worker of a controller handles the requests for one object one after the other; what a reconcile
  returns only decides when the next one comes.
\<close>

fun reconcile_loop ::
    "klib \<Rightarrow> 'w mclient \<Rightarrow> 'w mprovisioner \<Rightarrow> string \<Rightarrow> object_key \<Rightarrow> nat \<Rightarrow> ('w, unit) proc" where
  "reconcile_loop lib cl prov kind key 0 = return ()"
| "reconcile_loop lib cl prov kind key (Suc n) =
     bindR (Reconcile lib cl prov kind key) (\<lambda>r. reconcile_loop lib cl prov kind key n)"

lemma guards_reconcile_loop:
  assumes "klib_ok lib" and "versioned v cl" and "provisions v prov"
  shows "wf_store v w \<Longrightarrow> guards (others v) (honours v) (\<lambda>r w. True) (reconcile_loop lib cl prov kind (v_key v) n) w"
proof (induction n arbitrary: w)
  case 0
  then show ?case by (simp add: guards_any)
next
  case (Suc n)
  from guards_frame [OF guards_Reconcile [OF assms Suc.prems], of "wf_store v", OF Suc.prems wf_others wf_honours]
  have "guards (others v) (honours v) (\<lambda>r w. True \<and> wf_store v w) (Reconcile lib cl prov kind (v_key v)) w" .
  then show ?case by (auto intro: guards_bindR Suc.IH)
qed

text \<open>
  C3: whatever other controllers, users and services do in between: no access of the reconciler takes a
  reference or its own finalizer off an object that stays, and the access that lets the object go does
  so in a world where it is being deleted, has no references and no dependents to wait for, and nothing is
  provisioned for it any more.  The reads of the reconciler may be stale.
\<close>

theorem reconciler_honours:
  assumes "klib_ok lib" and "versioned v cl" and "provisions v prov" and "wf_store v w"
    and "exec (others v) (reconcile_loop lib cl prov kind (v_key v) n) w tr q w'"
  shows "list_all (\<lambda>(a, b). honours v a b) tr"
  using exec_guards [OF assms(5) guards_reconcile_loop [OF assms(1-4)]] by simp

end
