(* ===== verification/Lifecycle_System.thy ===== *)
theory Lifecycle_System
  imports Lifecycle
begin

text \<open>
  The reconciler of a resource together with the services that refer to it (\<open>pkg/manager/reference.go\<close>): the
  accesses of \<open>AddResourceReference\<close> and \<open>RemoveResourceReference\<close> keep what the reconciler relies on and
  the other way round, so their system has the properties of both.  An API server in memory shows that
  the contracts can be met.
\<close>

section \<open>Referring among others\<close>

text \<open>What a service that holds a reference relies on, for that reference.\<close>

definition holds_ref :: "'w view \<Rightarrow> string \<Rightarrow> 'w \<Rightarrow> bool" where
  "holds_ref v reference w \<longleftrightarrow> (\<exists>ob. v_object v w = Some ob \<and> reference \<in> set (om_finalizers ob))"

definition grows :: "'w view \<Rightarrow> 'w \<Rightarrow> 'w \<Rightarrow> bool" where
  "grows v a b \<longleftrightarrow> (wf_store v a \<longrightarrow> wf_store v b \<and> v_past v a \<subseteq> v_past v b)"

definition minds :: "'w view \<Rightarrow> string \<Rightarrow> 'w \<Rightarrow> 'w \<Rightarrow> bool" where
  "minds v reference a b \<longleftrightarrow>
     grows v a b \<and> (wf_store v a \<longrightarrow> holds_ref v reference a \<longrightarrow> holds_ref v reference b)"

lemma honours_minds:
  assumes "honours v a b" and "reference \<noteq> Finalizer" and "reference \<noteq> FinalizerDeleteDependents"
  shows "minds v reference a b"
proof -
  have "holds_ref v reference b" if "holds_ref v reference a" "wf_store v a"
  proof -
    from that obtain ob where ob: "v_object v a = Some ob" "reference \<in> set (om_finalizers ob)"
      by (auto simp: holds_ref_def)
    then have ref: "reference \<in> set (GetResourceReferences ob)" using assms(2,3) by (simp add: references_set)
    then have "\<not> released v a ob" by (auto simp: released_def)
    with assms(1) ob(1) that(2) obtain ob' where
      "v_object v b = Some ob'" "set (GetResourceReferences ob') = set (GetResourceReferences ob)"
      by (auto simp: honours_def split: option.splits)
    with ref show ?thesis by (auto simp: holds_ref_def references_set)
  qed
  with assms(1) show ?thesis by (auto simp: minds_def grows_def honours_def)
qed

text \<open>The client of the service: its reads are not stale.\<close>

definition referring :: "'w view \<Rightarrow> ('o, 'w) rclient \<Rightarrow> bool" where
  "referring v cl \<longleftrightarrow>
     reads v (rc_Get cl) \<and> writes v (accepted v) (rc_Update cl) \<and>
     (\<forall>w ob w'. wf_store v w \<longrightarrow> rc_Get cl (v_key v) w = (Ok ob, w') \<longrightarrow> v_object v w = Some ob)"

text \<open>
  What it guarantees: what the reconciler relies on, and what the holders of other references rely on.
\<close>

definition refers :: "'w view \<Rightarrow> string \<Rightarrow> 'w \<Rightarrow> 'w \<Rightarrow> bool" where
  "refers v own a b \<longleftrightarrow> others v a b \<and> (\<forall>reference. reference \<noteq> own \<longrightarrow> minds v reference a b)"

lemma accepted_refers:
  assumes "known v object a" and "accepted v (object\<lparr>om_finalizers := fs\<rparr>) a new b" and "wf_store v b"
    and "v_live v b = v_live v a" and "own \<noteq> Finalizer" and "set fs - {own} = set (om_finalizers object) - {own}"
  shows "refers v own a b"
proof -
  from assms(2) obtain cur where cur: "v_object v a = Some cur" "om_resourceVersion object = om_resourceVersion cur"
      "om_finalizers new = fs" "om_deletionTimestamp new = om_deletionTimestamp cur"
      "om_deletionTimestamp cur \<noteq> None \<longrightarrow> set fs \<subseteq> set (om_finalizers cur)"
      "v_object v b = (if om_deletionTimestamp cur \<noteq> None \<and> fs = [] then None else Some new)"
      "v_past v b = insert new (v_past v a)"
    unfolding accepted_def by auto
  have "same_meta object cur" by (rule known_current [OF assms(1) cur(1,2)])
  with assms(6) have same: "set fs - {own} = set (om_finalizers cur) - {own}" by (simp add: same_meta_def)
  have keep: "v_object v b = Some new \<and> f \<in> set fs" if "f \<in> set (om_finalizers cur)" "f \<noteq> own" for f
  proof -
    from that same have "f \<in> set fs" by blast
    with cur(6) show ?thesis by auto
  qed
  have "others v a b" using keep [of Finalizer] cur assms(3-5) by (auto simp: others_def keeps_def)
  moreover have "minds v reference a b" if "reference \<noteq> own" for reference
    using keep [of reference] that cur assms(3) by (auto simp: minds_def grows_def holds_ref_def)
  ultimately show ?thesis by (simp add: refers_def)
qed

lemma same_refers: "same_store v a b \<Longrightarrow> wf_store v b \<Longrightarrow> v_live v b = v_live v a \<Longrightarrow> refers v own a b"
  by (auto simp: refers_def others_def minds_def grows_def holds_ref_def same_store_def keeps_def)

lemma known_grows: "known v ob a \<Longrightarrow> grows v a b \<Longrightarrow> known v ob b"
  by (auto simp: known_def grows_def)

text \<open>The two accesses that references are made of.\<close>

lemma guards_rc_Get:
  assumes "referring v cl" and "wf_store v w"
  shows "guards (grows v) (refers v reference) (\<lambda>r w'. \<forall>ob. r = Ok ob \<longrightarrow> known v ob w') (call (rc_Get cl (v_key v))) w"
proof (rule guards_call [where pre = "wf_store v"])
  fix a r b
  assume wf: "wf_store v a" and get: "rc_Get cl (v_key v) a = (r, b)"
  with assms(1) have b: "wf_store v b" "v_live v b = v_live v a" "same_store v a b" "\<forall>ob. r = Ok ob \<longrightarrow> ob \<in> v_past v a"
    unfolding referring_def reads_def by blast+
  then have "\<forall>ob. r = Ok ob \<longrightarrow> known v ob b" by (auto simp: known_def same_store_def intro: same_meta_refl)
  with same_refers [OF b(3,1,2)] show "refers v reference a b \<and> (\<forall>ob. r = Ok ob \<longrightarrow> known v ob b)" by blast
qed (use assms(2) in \<open>auto simp: grows_def known_def\<close>)

lemma rc_Update_refers:
  assumes "referring v cl" and "known v ob a"
    and "reference \<noteq> Finalizer \<and> set fs - {reference} = set (om_finalizers ob) - {reference}"
    and "rc_Update cl (ob\<lparr>om_finalizers := fs\<rparr>) a = (r, b)"
  shows "refers v reference a b" and "wf_store v b"
    and "r = Ok st \<Longrightarrow> reference \<in> set fs \<Longrightarrow> holds_ref v reference b"
proof -
  from assms(1) have "writes v (accepted v) (rc_Update cl)" by (simp add: referring_def)
  note w = writesD [OF this assms(2) key_of_finalizers assms(4)]
  show "wf_store v b" by (rule w(1))
  from w(4) show "refers v reference a b"
  proof (elim disjE exE)
    show "refers v reference a b" if "same_store v a b" by (rule same_refers [OF that w(1,2)])
    show "refers v reference a b" if "accepted v (ob\<lparr>om_finalizers := fs\<rparr>) a st b" for st
      by (rule accepted_refers [OF assms(2) that w(1,2)]) (use assms(3) in auto)
  qed
  show "holds_ref v reference b" if "r = Ok st" "reference \<in> set fs"
    using w(3) [OF that(1)] that(2) by (auto simp: accepted_def holds_ref_def)
qed

lemma guards_rc_Update:
  assumes "referring v cl" and "known v ob w"
    and "reference \<noteq> Finalizer \<and> set fs - {reference} = set (om_finalizers ob) - {reference}"
  shows "guards (grows v) (refers v reference) (\<lambda>r w. True) (call (rc_Update cl (ob\<lparr>om_finalizers := fs\<rparr>))) w"
  by (rule guards_call [where pre = "known v ob"])
    (use assms in \<open>auto intro: known_grows rc_Update_refers(1)\<close>)

lemma guards_rc_Update_ref:
  assumes "referring v cl" and "known v ob w"
    and "reference \<noteq> Finalizer \<and> set fs - {reference} = set (om_finalizers ob) - {reference}"
    and "reference \<in> set fs"
  shows "guards (minds v reference) (refers v reference)
     (\<lambda>r w. \<forall>st. r = Ok st \<longrightarrow> wf_store v w \<and> holds_ref v reference w) (call (rc_Update cl (ob\<lparr>om_finalizers := fs\<rparr>))) w"
proof (rule guards_call [where pre = "known v ob"])
  fix a r b
  assume "known v ob a" and "rc_Update cl (ob\<lparr>om_finalizers := fs\<rparr>) a = (r, b)"
  then have "refers v reference a b" "wf_store v b" "\<And>st. r = Ok st \<Longrightarrow> holds_ref v reference b"
    using rc_Update_refers [OF assms(1) _ assms(3)] assms(4) by blast+
  then show "refers v reference a b \<and> (\<forall>st. r = Ok st \<longrightarrow> wf_store v b \<and> holds_ref v reference b)" by blast
qed (use assms(2) in \<open>auto simp: minds_def grows_def intro: known_grows\<close>)

text \<open>What a service knows of an object it has just read.\<close>

definition read_ref :: "'w view \<Rightarrow> string \<Rightarrow> managed \<Rightarrow> 'w \<Rightarrow> bool" where
  "read_ref v reference ob w \<longleftrightarrow> known v ob w \<and> (reference \<in> set (om_finalizers ob) \<longrightarrow> holds_ref v reference w)"

lemma read_ref_minds: "read_ref v reference ob a \<Longrightarrow> minds v reference a b \<Longrightarrow> read_ref v reference ob b"
  using known_grows [of v ob a b] by (auto simp: read_ref_def minds_def known_def)

lemma guards_rc_Get_ref:
  assumes "referring v cl" and "wf_store v w"
  shows "guards (minds v reference) (refers v reference) (\<lambda>r w'. \<forall>ob. r = Ok ob \<longrightarrow> read_ref v reference ob w')
     (call (rc_Get cl (v_key v))) w"
proof (rule guards_call [where pre = "wf_store v"])
  fix a r b
  assume wf: "wf_store v a" and get: "rc_Get cl (v_key v) a = (r, b)"
  with assms(1) have b: "wf_store v b" "v_live v b = v_live v a" "same_store v a b" "\<forall>ob. r = Ok ob \<longrightarrow> ob \<in> v_past v a"
      "\<forall>ob. r = Ok ob \<longrightarrow> v_object v a = Some ob"
    unfolding referring_def reads_def by blast+
  then have "\<forall>ob. r = Ok ob \<longrightarrow> read_ref v reference ob b"
    by (auto simp: read_ref_def known_def same_store_def holds_ref_def intro: same_meta_refl)
  with same_refers [OF b(3,1,2)] show "refers v reference a b \<and> (\<forall>ob. r = Ok ob \<longrightarrow> read_ref v reference ob b)" by blast
qed (use assms(2) in \<open>auto simp: minds_def grows_def dest: read_ref_minds [unfolded minds_def grows_def]\<close>)

lemma guards_AddResourceReference:
  assumes "klib_ok lib" and "referring v cl" and "wf_store v w" and "reference \<noteq> Finalizer"
  shows "guards (minds v reference) (refers v reference) (\<lambda>r w'. r = Ok () \<longrightarrow> wf_store v w' \<and> holds_ref v reference w')
     (AddResourceReference lib cl (v_key v) reference) w"
    (is "guards _ _ ?post _ _")
proof -
  have ok: "guards (minds v reference) (refers v reference) ?post (Ret r) w1"
    if "r = Ok () \<Longrightarrow> wf_store v w1 \<and> holds_ref v reference w1" for r :: "unit result" and w1
    using that by (intro guards_return) (auto simp: minds_def grows_def)
  have add: "guards (minds v reference) (refers v reference) ?post (case AddFinalizer lib (om_finalizers ob) reference of (updated, fs) \<Rightarrow>
         if \<not> updated then return ()
         else bindR (call (rc_Update cl (ob\<lparr>om_finalizers := fs\<rparr>))) (\<lambda>r.
           case r of
             Ok _ \<Rightarrow> return ()
           | Err e \<Rightarrow> if IsConflict e then throw (Sentinel ErrYield) else throw e
           | Panic \<Rightarrow> Ret Panic)) w1" if got: "read_ref v reference ob w1" for ob w1
  proof -
    obtain updated fs where fs: "AddFinalizer lib (om_finalizers ob) reference = (updated, fs)"
      by (cases "AddFinalizer lib (om_finalizers ob) reference")
    with finalizers_okD(1,2) [OF assms(1), of "om_finalizers ob" reference]
    have upd: "updated \<longleftrightarrow> reference \<notin> set (om_finalizers ob)" "set fs = insert reference (set (om_finalizers ob))" by auto
    from got have "known v ob w1" by (simp add: read_ref_def)
    from guards_rc_Update_ref [OF assms(2) this, of reference fs] upd(2) assms(4)
    have "guards (minds v reference) (refers v reference) (\<lambda>r w. \<forall>st. r = Ok st \<longrightarrow> wf_store v w \<and> holds_ref v reference w)
        (call (rc_Update cl (ob\<lparr>om_finalizers := fs\<rparr>))) w1"
      by simp
    then have "guards (minds v reference) (refers v reference) ?post
        (bindR (call (rc_Update cl (ob\<lparr>om_finalizers := fs\<rparr>))) (\<lambda>r. case r of Ok _ \<Rightarrow> return ()
           | Err e \<Rightarrow> if IsConflict e then throw (Sentinel ErrYield) else throw e | Panic \<Rightarrow> Ret Panic)) w1"
      by (rule guards_bindR) (auto split: outcome.splits intro!: ok)
    with got upd(1) show ?thesis by (auto simp: fs read_ref_def known_def intro!: ok)
  qed
  show ?thesis
    unfolding AddResourceReference_def bindP_def
    by (rule guards_bindR [OF guards_rc_Get_ref [OF assms(2,3)]]) (auto split: outcome.splits intro!: ok add)
qed

lemma guards_RemoveResourceReference:
  assumes "klib_ok lib" and "referring v cl" and "wf_store v w" and "reference \<noteq> Finalizer"
  shows "guards (grows v) (refers v reference) (\<lambda>r w'. True) (RemoveResourceReference lib cl (v_key v) reference) w"
proof -
  have remove: "guards (grows v) (refers v reference) (\<lambda>r w'. True) (case RemoveFinalizer lib (om_finalizers ob) reference of (updated, fs) \<Rightarrow>
         if \<not> updated then return ()
         else bindR (call (rc_Update cl (ob\<lparr>om_finalizers := fs\<rparr>))) (\<lambda>r.
           case r of
             Ok _ \<Rightarrow> return ()
           | Err e \<Rightarrow> if IsNotFound e then return () else if IsConflict e then throw (Sentinel ErrYield) else throw e
           | Panic \<Rightarrow> Ret Panic)) w1" if known: "known v ob w1" for ob w1
  proof -
    obtain updated fs where fs: "RemoveFinalizer lib (om_finalizers ob) reference = (updated, fs)"
      by (cases "RemoveFinalizer lib (om_finalizers ob) reference")
    with finalizers_okD(4) [OF assms(1), of "om_finalizers ob" reference]
    have "set fs = set (om_finalizers ob) - {reference}" by simp
    with assms(4) have "guards (grows v) (refers v reference) (\<lambda>r w. True) (call (rc_Update cl (ob\<lparr>om_finalizers := fs\<rparr>))) w1"
      by (intro guards_rc_Update [OF assms(2) known]) auto
    then have "guards (grows v) (refers v reference) (\<lambda>r w'. True)
        (bindR (call (rc_Update cl (ob\<lparr>om_finalizers := fs\<rparr>))) (\<lambda>r. case r of Ok _ \<Rightarrow> return ()
           | Err e \<Rightarrow> if IsNotFound e then return () else if IsConflict e then throw (Sentinel ErrYield) else throw e
           | Panic \<Rightarrow> Ret Panic)) w1"
      by (rule guards_bindR) (auto split: outcome.splits intro: guards_any)
    then show ?thesis by (auto simp: fs intro: guards_any)
  qed
  show ?thesis
    unfolding RemoveResourceReference_def
    by (rule guards_bindR [OF guards_rc_Get [OF assms(2,3)]]) (auto split: outcome.splits intro: guards_any intro!: remove)
qed

section \<open>The system\<close>

text \<open>A reconciler and services that each put a reference of their own on the object, or take it off.\<close>

datatype referral = Adds string | Removes string

fun reference_of :: "referral \<Rightarrow> string" where
  "reference_of (Adds r) = r"
| "reference_of (Removes r) = r"

fun referral_proc :: "klib \<Rightarrow> ('o, 'w) rclient \<Rightarrow> object_key \<Rightarrow> referral \<Rightarrow> ('w, unit) proc" where
  "referral_proc lib cl key (Adds r) = AddResourceReference lib cl key r"
| "referral_proc lib cl key (Removes r) = RemoveResourceReference lib cl key r"

definition referral_done :: "'w view \<Rightarrow> referral \<Rightarrow> unit result \<Rightarrow> 'w \<Rightarrow> bool" where
  "referral_done v act r w \<longleftrightarrow> (\<forall>reference. act = Adds reference \<longrightarrow> r = Ok () \<longrightarrow> holds_ref v reference w)"

lemma guards_referral:
  assumes "klib_ok lib" and "referring v cl" and "wf_store v w" and "reference_of act \<noteq> Finalizer"
  shows "guards (minds v (reference_of act)) (refers v (reference_of act)) (referral_done v act)
    (referral_proc lib cl (v_key v) act) w"
proof (cases act)
  case (Adds r)
  with guards_AddResourceReference [OF assms(1-3), of r] assms(4) show ?thesis
    by (auto simp: referral_done_def elim: guards_mono)
next
  case (Removes r)
  with guards_RemoveResourceReference [OF assms(1-3), of r] assms(4)
  have "guards (grows v) (refers v r) (\<lambda>x w'. True) (RemoveResourceReference lib cl (v_key v) r) w" by simp
  then have "guards (minds v r) (refers v r) (\<lambda>x w'. True) (RemoveResourceReference lib cl (v_key v) r) w"
    by (rule guards_rely) (simp add: minds_def)
  with Removes show ?thesis by (auto simp: referral_done_def elim: guards_mono)
qed

text \<open>Each process by its index: the reconciler is the first.\<close>

definition system_rely :: "'w view \<Rightarrow> referral list \<Rightarrow> nat \<Rightarrow> 'w \<Rightarrow> 'w \<Rightarrow> bool" where
  "system_rely v acts i = (case i of 0 \<Rightarrow> others v | Suc j \<Rightarrow> minds v (reference_of (acts ! j)))"

definition system_guarantee :: "'w view \<Rightarrow> referral list \<Rightarrow> nat \<Rightarrow> 'w \<Rightarrow> 'w \<Rightarrow> bool" where
  "system_guarantee v acts i = (case i of 0 \<Rightarrow> honours v | Suc j \<Rightarrow> refers v (reference_of (acts ! j)))"

definition system_post :: "'w view \<Rightarrow> referral list \<Rightarrow> nat \<Rightarrow> unit result \<Rightarrow> 'w \<Rightarrow> bool" where
  "system_post v acts i = (case i of 0 \<Rightarrow> (\<lambda>r w. True) | Suc j \<Rightarrow> referral_done v (acts ! j))"

lemmas system_defs = system_rely_def system_guarantee_def system_post_def

lemma system_apart:
  assumes "distinct (map reference_of acts)"
    and "list_all (\<lambda>a. reference_of a \<noteq> Finalizer \<and> reference_of a \<noteq> FinalizerDeleteDependents) acts"
    and "i \<le> length acts" and "j \<le> length acts" and "i \<noteq> j" and "system_guarantee v acts i a b"
  shows "system_rely v acts j a b"
proof (cases j)
  case 0
  with assms(5,6) show ?thesis by (cases i) (auto simp: system_defs refers_def)
next
  case (Suc k)
  with assms(2,4) have own: "reference_of (acts ! k) \<noteq> Finalizer" "reference_of (acts ! k) \<noteq> FinalizerDeleteDependents"
    by (auto simp: list_all_length)
  show ?thesis
  proof (cases i)
    case 0
    with assms(6) Suc own show ?thesis by (auto simp: system_defs intro: honours_minds)
  next
    case (Suc l)
    from assms(3-5) \<open>j = Suc k\<close> Suc have "reference_of (acts ! l) \<noteq> reference_of (acts ! k)"
      using nth_eq_iff_index_eq [OF assms(1), of l k] by auto
    with assms(6) \<open>j = Suc k\<close> Suc show ?thesis by (auto simp: system_defs refers_def)
  qed
qed

lemma system_sound:
  assumes "klib_ok lib" and "versioned v cl" and "provisions v prov" and "referring v rcl" and "wf_store v w"
    and "distinct (map reference_of acts)"
    and "list_all (\<lambda>a. reference_of a \<noteq> Finalizer \<and> reference_of a \<noteq> FinalizerDeleteDependents) acts"
    and "\<And>a b. env a b \<Longrightarrow> others v a b \<and> list_all (\<lambda>act. minds v (reference_of act) a b) acts"
    and "sys env (reconcile_loop lib cl prov kind (v_key v) n # map (referral_proc lib rcl (v_key v)) acts) w tr qs w'"
  shows "list_all (\<lambda>(i, a, b). system_guarantee v acts i a b) tr"
    and "i \<le> length acts \<Longrightarrow> guards (system_rely v acts i) (system_guarantee v acts i) (system_post v acts i) (qs ! i) w'"
proof -
  let ?ps = "reconcile_loop lib cl prov kind (v_key v) n # map (referral_proc lib rcl (v_key v)) acts"
  have own: "reference_of (acts ! j) \<noteq> Finalizer" if "j < length acts" for j
    using assms(7) that by (auto simp: list_all_length)
  have "list_all (\<lambda>(i, a, b). i < length ?ps \<and> system_guarantee v acts i a b) tr \<and> length qs = length ?ps \<and>
      (\<forall>i < length qs. guards (system_rely v acts i) (system_guarantee v acts i) (system_post v acts i) (qs ! i) w')"
    using assms(9)
  proof (rule sys_guards)
    show "guards (system_rely v acts i) (system_guarantee v acts i) (system_post v acts i) (?ps ! i) w"
      if "i < length ?ps" for i
      using that guards_reconcile_loop [OF assms(1-3,5)] guards_referral [OF assms(1,4,5) own]
      by (cases i) (auto simp: system_defs)
    show "system_rely v acts j a b" if "i < length ?ps" "j < length ?ps" "i \<noteq> j" "system_guarantee v acts i a b" for i j a b
      using system_apart [OF assms(6,7), of i j] that by simp
    show "system_rely v acts i a b" if "i < length ?ps" "env a b" for i a b
      using assms(8) [OF that(2)] that(1) by (cases i) (auto simp: system_defs list_all_length)
  qed
  then have tr: "list_all (\<lambda>(i, a, b). i < length ?ps \<and> system_guarantee v acts i a b) tr"
    and qs: "\<And>i. i \<le> length acts \<Longrightarrow> guards (system_rely v acts i) (system_guarantee v acts i) (system_post v acts i) (qs ! i) w'"
    by auto
  from tr show "list_all (\<lambda>(i, a, b). system_guarantee v acts i a b) tr"
    by (rule list.pred_mono_strong) auto
  show "i \<le> length acts \<Longrightarrow> guards (system_rely v acts i) (system_guarantee v acts i) (system_post v acts i) (qs ! i) w'"
    by (rule qs)
qed

text \<open>
  C1: however the accesses of a controller and of the services that refer to its resource interleave, and
  whatever else goes on that keeps the rules: the controller never takes a reference off and never lets a
  referenced resource go; and a service whose AddResourceReference has returned nil holds its reference,
  as long as it does not take it off itself.
\<close>

theorem references_survive:
  assumes "klib_ok lib" and "versioned v cl" and "provisions v prov" and "referring v rcl" and "wf_store v w"
    and "distinct (map reference_of acts)"
    and "list_all (\<lambda>a. reference_of a \<noteq> Finalizer \<and> reference_of a \<noteq> FinalizerDeleteDependents) acts"
    and "\<And>a b. env a b \<Longrightarrow> others v a b \<and> list_all (\<lambda>act. minds v (reference_of act) a b) acts"
    and "sys env (reconcile_loop lib cl prov kind (v_key v) n # map (referral_proc lib rcl (v_key v)) acts) w tr qs w'"
  shows "list_all (\<lambda>(i, a, b). i = 0 \<longrightarrow> honours v a b) tr \<and>
    (\<forall>i reference. i < length acts \<longrightarrow> acts ! i = Adds reference \<longrightarrow> qs ! Suc i = return () \<longrightarrow> holds_ref v reference w')"
proof -
  note sound = system_sound [OF assms]
  from sound(1) have "list_all (\<lambda>(i, a, b). i = 0 \<longrightarrow> honours v a b) tr"
    by (rule list.pred_mono_strong) (auto simp: system_defs)
  moreover have "holds_ref v reference w'" if "i < length acts" "acts ! i = Adds reference" "qs ! Suc i = return ()" for i reference
  proof -
    from sound(2) [of "Suc i"] that(1,3) have "system_post v acts (Suc i) (Ok ()) w'" by (auto intro: guards_result)
    with that(2) show ?thesis by (simp add: system_defs referral_done_def)
  qed
  ultimately show ?thesis by blast
qed

text \<open>Nothing is provisioned for an object that is gone, or lacks our finalizer.\<close>

definition no_orphan :: "'w view \<Rightarrow> 'w \<Rightarrow> bool" where
  "no_orphan v w \<longleftrightarrow> wf_store v w \<and> (v_live v w \<longrightarrow> held v w)"

lemma no_orphan_others: "no_orphan v a \<Longrightarrow> others v a b \<Longrightarrow> no_orphan v b"
  using held_others [of v a b] by (auto simp: no_orphan_def others_def)

lemma no_orphan_honours:
  assumes "v_fresh v" and "no_orphan v a" and "honours v a b"
  shows "no_orphan v b"
proof (cases "v_live v a")
  case True
  with assms obtain ob where "v_object v a = Some ob" "Finalizer \<in> set (om_finalizers ob)"
    by (auto simp: no_orphan_def held_def)
  with assms True show ?thesis
    by (auto simp: no_orphan_def honours_def released_def held_def split: option.splits)
next
  case False
  with assms show ?thesis by (auto simp: no_orphan_def honours_def)
qed

text \<open>
  C2: with fresh reads nothing is ever left behind: in every world that the system can reach, an object for
  which something is provisioned is stored and carries our finalizer.
\<close>

theorem nothing_orphaned:
  assumes "klib_ok lib" and "versioned v cl" and "provisions v prov" and "referring v rcl" and "v_fresh v" and "no_orphan v w"
    and "distinct (map reference_of acts)"
    and "list_all (\<lambda>a. reference_of a \<noteq> Finalizer \<and> reference_of a \<noteq> FinalizerDeleteDependents) acts"
    and "\<And>a b. env a b \<Longrightarrow> others v a b \<and> list_all (\<lambda>act. minds v (reference_of act) a b) acts"
    and "sys env (reconcile_loop lib cl prov kind (v_key v) n # map (referral_proc lib rcl (v_key v)) acts) w tr qs w'"
  shows "v_live v w' \<longrightarrow> held v w'"
proof -
  have wf: "wf_store v w" using assms(6) by (simp add: no_orphan_def)
  note tr = system_sound(1) [OF assms(1-4) wf assms(7-10)]
  have "no_orphan v w'"
  proof (rule sys_invariant [where I = "no_orphan v" and guarantee = "system_guarantee v acts", OF assms(10) tr assms(6)])
    show "no_orphan v b" if "no_orphan v a" "env a b" for a b
      using assms(9) [OF that(2)] no_orphan_others [OF that(1)] by blast
    show "no_orphan v b" if "no_orphan v a" "system_guarantee v acts i a b" for i a b
      using that no_orphan_others [OF that(1)] no_orphan_honours [OF assms(5) that(1)]
      by (auto simp: system_defs refers_def split: nat.splits)
  qed
  then show ?thesis by (simp add: no_orphan_def)
qed

section \<open>An API server in memory\<close>

text \<open>
  The object under one key, all its states, and a mark for what is provisioned.  A new version is longer
  than all the old ones.
\<close>

record kube =
  kb_object :: "managed option"
  kb_past :: "managed list"
  kb_live :: bool

definition kube_key :: object_key where "kube_key = (''ns'', ''r'')"

definition kube_view :: "kube view" where
  "kube_view = \<lparr>v_key = kube_key, v_object = kb_object, v_past = (\<lambda>w. set (kb_past w)), v_live = kb_live, v_fresh = True\<rparr>"

definition next_version :: "kube \<Rightarrow> string" where
  "next_version w = CHR ''v'' # concat (map om_resourceVersion (kb_past w))"

definition kube_store :: "managed \<Rightarrow> bool \<Rightarrow> kube \<Rightarrow> managed result \<times> kube" where
  "kube_store ob gone w =
     (let new = ob\<lparr>om_resourceVersion := next_version w\<rparr>
      in (Ok new, w\<lparr>kb_object := if gone then None else Some new, kb_past := new # kb_past w\<rparr>))"

definition conflict :: gerror where "conflict = APIError StatusConflict ''conflict''"
definition notfound :: gerror where "notfound = APIError StatusNotFound ''not found''"

definition kube_Get :: "object_key \<Rightarrow> kube \<Rightarrow> managed result \<times> kube" where
  "kube_Get key w = (case kb_object w of Some ob \<Rightarrow> if key = kube_key then (Ok ob, w) else (Err notfound, w) | None \<Rightarrow> (Err notfound, w))"

definition kube_Update :: "managed \<Rightarrow> kube \<Rightarrow> managed result \<times> kube" where
  "kube_Update ob w =
     (case kb_object w of
        None \<Rightarrow> (Err notfound, w)
      | Some cur \<Rightarrow>
          if om_resourceVersion ob \<noteq> om_resourceVersion cur \<or>
             (om_deletionTimestamp cur \<noteq> None \<and> \<not> set (om_finalizers ob) \<subseteq> set (om_finalizers cur))
          then (Err conflict, w)
          else kube_store (ob\<lparr>om_deletionTimestamp := om_deletionTimestamp cur, m_conditions := m_conditions cur\<rparr>)
                 (om_deletionTimestamp cur \<noteq> None \<and> om_finalizers ob = []) w)"

definition kube_StatusUpdate :: "managed \<Rightarrow> kube \<Rightarrow> managed result \<times> kube" where
  "kube_StatusUpdate ob w =
     (case kb_object w of
        None \<Rightarrow> (Err notfound, w)
      | Some cur \<Rightarrow>
          if om_resourceVersion ob \<noteq> om_resourceVersion cur then (Err conflict, w)
          else kube_store (cur\<lparr>m_conditions := m_conditions ob\<rparr>) False w)"

definition kube_client :: "kube mclient" where
  "kube_client =
     \<lparr>mc_Get = kube_Get, mc_Update = kube_Update, mc_StatusUpdate = kube_StatusUpdate, mc_ObjectKinds = (\<lambda>ob. None), mc_Log = (\<lambda>e w. w)\<rparr>"

definition kube_rclient :: "(unit, kube) rclient" where
  "kube_rclient =
     \<lparr>rc_ObjectKinds = (\<lambda>ob. Ok []), rc_RESTMapping = (\<lambda>g. Err notfound), rc_Get = kube_Get,
      rc_List = (\<lambda>x w. (Ok [], w)), rc_Update = kube_Update\<rparr>"

definition kube_provisioner :: "kube mprovisioner" where
  "kube_provisioner =
     \<lparr>mp_Provision = (\<lambda>ob. call (\<lambda>w. (Ok (ob, None), w\<lparr>kb_live := True\<rparr>))),
      mp_Deprovision = (\<lambda>ob. call (\<lambda>w. (Ok (ob, None), w\<lparr>kb_live := False\<rparr>)))\<rparr>"

lemma kube_view_simps [simp]:
  "v_key kube_view = kube_key" "v_object kube_view = kb_object" "v_past kube_view w = set (kb_past w)"
  "v_live kube_view = kb_live" "v_fresh kube_view"
  by (simp_all add: kube_view_def)

lemma next_version_fresh: "ob \<in> set (kb_past w) \<Longrightarrow> om_resourceVersion ob \<noteq> next_version w"
proof -
  assume "ob \<in> set (kb_past w)"
  then have "length (om_resourceVersion ob) \<le> length (concat (map om_resourceVersion (kb_past w)))"
    by (induction "kb_past w" arbitrary: w rule: list.induct) (auto simp: member_le_sum_list length_concat)
  then have "length (om_resourceVersion ob) < length (next_version w)" by (simp add: next_version_def)
  then show ?thesis by auto
qed

lemma kube_store_wf:
  assumes "wf_store kube_view w" and "key_of ob = kube_key" and "kube_store ob gone w = (r, w')"
  shows "wf_store kube_view w'"
proof -
  let ?new = "ob\<lparr>om_resourceVersion := next_version w\<rparr>"
  have w': "w' = w\<lparr>kb_object := if gone then None else Some ?new, kb_past := ?new # kb_past w\<rparr>"
    using assms(3) by (simp add: kube_store_def Let_def)
  have "\<forall>a \<in> set (kb_past w). om_resourceVersion a \<noteq> next_version w"
    using next_version_fresh by blast
  then show ?thesis
    using assms(1,2) unfolding wf_store_def w' by (auto simp: key_of_def)
qed

lemma kube_current_key: "wf_store kube_view w \<Longrightarrow> kb_object w = Some cur \<Longrightarrow> key_of cur = kube_key"
  by (auto simp: wf_store_def kube_view_def)

lemma kube_writes: "writes kube_view (accepted kube_view) kube_Update"
  unfolding writes_def
proof (intro allI impI)
  fix ob w r w'
  assume wf: "wf_store kube_view w" and key: "key_of ob = v_key kube_view" and u: "kube_Update ob w = (r, w')"
  show "wf_store kube_view w' \<and> v_live kube_view w' = v_live kube_view w \<and>
     (case r of Ok st \<Rightarrow> accepted kube_view ob w st w' | _ \<Rightarrow> same_store kube_view w w' \<or> (\<exists>st. accepted kube_view ob w st w'))"
  proof (cases "r = Err notfound \<or> r = Err conflict")
    case True
    with u have "w' = w"
      by (auto simp: kube_Update_def kube_store_def Let_def split: option.splits if_splits)
    with True wf show ?thesis by (auto simp: same_store_def)
  next
    case False
    with u obtain cur where cur: "kb_object w = Some cur" "om_resourceVersion ob = om_resourceVersion cur"
        "om_deletionTimestamp cur \<noteq> None \<longrightarrow> set (om_finalizers ob) \<subseteq> set (om_finalizers cur)"
        "kube_store (ob\<lparr>om_deletionTimestamp := om_deletionTimestamp cur, m_conditions := m_conditions cur\<rparr>)
           (om_deletionTimestamp cur \<noteq> None \<and> om_finalizers ob = []) w = (r, w')"
      by (auto simp: kube_Update_def split: option.splits if_splits)
    from kube_store_wf [OF wf _ cur(4)] key have "wf_store kube_view w'" by (simp add: key_of_def kube_view_def)
    with cur show ?thesis by (auto simp: kube_store_def Let_def accepted_def kube_view_def)
  qed
qed

lemma kube_status_writes: "writes kube_view (status_accepted kube_view) kube_StatusUpdate"
  unfolding writes_def
proof (intro allI impI)
  fix ob w r w'
  assume wf: "wf_store kube_view w" and key: "key_of ob = v_key kube_view" and u: "kube_StatusUpdate ob w = (r, w')"
  show "wf_store kube_view w' \<and> v_live kube_view w' = v_live kube_view w \<and>
     (case r of Ok st \<Rightarrow> status_accepted kube_view ob w st w' | _ \<Rightarrow> same_store kube_view w w' \<or> (\<exists>st. status_accepted kube_view ob w st w'))"
  proof (cases "r = Err notfound \<or> r = Err conflict")
    case True
    with u have "w' = w"
      by (auto simp: kube_StatusUpdate_def kube_store_def Let_def split: option.splits if_splits)
    with True wf show ?thesis by (auto simp: same_store_def)
  next
    case False
    with u obtain cur where cur: "kb_object w = Some cur" "om_resourceVersion ob = om_resourceVersion cur"
        "kube_store (cur\<lparr>m_conditions := m_conditions ob\<rparr>) False w = (r, w')"
      by (auto simp: kube_StatusUpdate_def split: option.splits if_splits)
    from kube_store_wf [OF wf _ cur(3)] kube_current_key [OF wf cur(1)] have "wf_store kube_view w'" by (simp add: key_of_def)
    with cur show ?thesis by (auto simp: kube_store_def Let_def status_accepted_def kube_view_def)
  qed
qed

lemma kube_reads: "reads kube_view kube_Get"
  by (auto simp: reads_def kube_Get_def kube_view_def wf_store_def same_store_def split: option.splits if_splits)

lemma kube_versioned: "versioned kube_view kube_client"
  using kube_reads kube_writes kube_status_writes by (simp add: versioned_def kube_client_def same_store_def)

lemma kube_referring: "referring kube_view kube_rclient"
  using kube_reads kube_writes
  by (auto simp: referring_def kube_rclient_def kube_Get_def kube_view_def split: option.splits if_splits)

lemma kube_live_wf [simp]: "wf_store kube_view (w\<lparr>kb_live := l\<rparr>) \<longleftrightarrow> wf_store kube_view w"
  by (simp add: wf_store_def kube_view_def)

lemma kube_provisions: "provisions kube_view kube_provisioner"
  unfolding provisions_def
proof (intro allI impI conjI)
  fix ob and w :: kube
  assume wf: "wf_store kube_view w"
  show "guards (others kube_view) (private_step kube_view) (\<lambda>r w'. \<forall>ob' e. r = Ok (ob', e) \<longrightarrow> same_meta ob' ob)
      (mp_Provision kube_provisioner ob) w"
    unfolding kube_provisioner_def mprovisioner.select_convs
    by (rule guards_call [where pre = "\<lambda>w. True"]) (auto simp: private_step_def same_store_def)
  show "guards (others kube_view) (private_step kube_view)
      (\<lambda>r w'. wf_store kube_view w' \<and> (\<forall>ob' e. r = Ok (ob', e) \<longrightarrow> same_meta ob' ob \<and> (e = None \<longrightarrow> \<not> v_live kube_view w')))
      (mp_Deprovision kube_provisioner ob) w"
    unfolding kube_provisioner_def mprovisioner.select_convs
  proof (rule guards_call [where pre = "wf_store kube_view"])
    show "wf_store kube_view b \<and> (\<forall>ob' e. r = Ok (ob', e) \<longrightarrow> same_meta ob' ob \<and> (e = None \<longrightarrow> \<not> v_live kube_view b))"
      if "wf_store kube_view a \<and> (\<forall>ob' e. r = Ok (ob', e) \<longrightarrow> same_meta ob' ob \<and> (e = None \<longrightarrow> \<not> v_live kube_view a))"
        "others kube_view a b" for r :: "(managed \<times> gerror option) result" and a b
      using that by (auto simp: others_def)
  qed (use wf in \<open>auto simp: private_step_def same_store_def intro: wf_others\<close>)
qed

section \<open>Instances\<close>

text \<open>An object being deleted, for which something is still provisioned.\<close>

definition doomed_object :: managed where
  "doomed_object = fresh_object\<lparr>om_finalizers := [Finalizer], om_deletionTimestamp := Some 7\<rparr>"

definition kube_with :: "managed \<Rightarrow> bool \<Rightarrow> kube" where
  "kube_with ob l = \<lparr>kb_object = Some ob, kb_past = [ob], kb_live = l\<rparr>"

lemma kube_with_wf: "key_of ob = kube_key \<Longrightarrow> wf_store kube_view (kube_with ob l)"
  by (simp add: wf_store_def kube_with_def)

lemma run_exec: "run p w = (r, w') \<Longrightarrow> \<exists>tr. exec rely p w tr (Ret r) w'"
proof (induction p arbitrary: w rule: proc_induct)
  case (Ret x)
  then show ?case by (auto intro: exec_stop)
next
  case (Act f)
  obtain p1 w1 where f: "f w = (p1, w1)" by (cases "f w")
  with Act.prems Act.IH [OF f] show ?case by (auto simp: run_Act intro: exec_access)
qed

lemma run_sys:
  assumes "run p w = (r, w1)" and "i < length ps" and "ps ! i = p" and "sys env (ps[i := Ret r]) w1 tr qs w2"
  shows "\<exists>tr. sys env ps w tr qs w2"
  using assms
proof (induction p arbitrary: ps w rule: proc_induct)
  case (Ret x)
  then have "ps[i := Ret r] = ps" "w1 = w" using list_update_id [of ps i] by auto
  with Ret(4) show ?case by auto
next
  case (Act f)
  obtain p1 wa where f: "f w = (p1, wa)" by (cases "f w")
  with Act.prems(1) have "run p1 wa = (r, w1)" by (simp add: run_Act)
  from Act.IH [OF f this, of "ps[i := p1]"] Act.prems(2,4) obtain tr1 where "sys env (ps[i := p1]) wa tr1 qs w2" by auto
  from sys_access [OF Act.prems(2,3) f this] show ?case by blast
qed

lemmas kube_run =
  reconcile_loop.simps Reconcile_def getDriver_def DriverKindArgoCD_def reconcileDelete_def reconcileNormal_def
  ensure_finalizer_def drop_finalizer_def handleReconcileCondition_def condition_phase1_def condition_phase2_def
  Emit_def attempt_def AddResourceReference_def run_bindP run_bindR
  kube_client_def kube_rclient_def kube_provisioner_def kube_Get_def kube_Update_def kube_StatusUpdate_def kube_store_def
  kube_with_def kube_key_def klib_std_def GetResourceReferences_def SetProvisioningCondition_def
  fresh_object_def Finalizer_def FinalizerDeleteDependents_def

lemma doomed_run:
  "\<exists>w'. run (reconcile_loop klib_std kube_client kube_provisioner ''argocd'' kube_key 1) (kube_with doomed_object True) = (Ok (), w') \<and>
     kb_object w' = None \<and> \<not> kb_live w'"
  by (simp add: kube_run doomed_object_def Let_def)

theorem reconciler_honours_witness:
  "\<exists>tr w'. exec (others kube_view) (reconcile_loop klib_std kube_client kube_provisioner ''argocd'' kube_key 1)
       (kube_with doomed_object True) tr (return ()) w' \<and>
     kb_object w' = None \<and> \<not> kb_live w' \<and> list_all (\<lambda>(a, b). honours kube_view a b) tr"
proof -
  obtain w' where w': "run (reconcile_loop klib_std kube_client kube_provisioner ''argocd'' kube_key 1) (kube_with doomed_object True) = (Ok (), w')"
    "kb_object w' = None" "\<not> kb_live w'"
    using doomed_run by blast
  obtain tr where tr: "exec (others kube_view) (reconcile_loop klib_std kube_client kube_provisioner ''argocd'' (v_key kube_view) 1)
      (kube_with doomed_object True) tr (return ()) w'"
    using run_exec [OF w'(1)] by auto
  have "wf_store kube_view (kube_with doomed_object True)"
    by (rule kube_with_wf) (simp add: key_of_def doomed_object_def fresh_object_def kube_key_def)
  from reconciler_honours [OF klib_std_ok kube_versioned kube_provisions this tr] tr w'(2,3) show ?thesis by auto
qed

definition sample_acts :: "referral list" where
  "sample_acts = [Adds ''things.g.io/t'']"

lemma sample_run:
  "\<exists>tr qs w'. sys (\<lambda>a b. False)
       (reconcile_loop klib_std kube_client kube_provisioner ''argocd'' (v_key kube_view) 1 #
        map (referral_proc klib_std kube_rclient (v_key kube_view)) sample_acts) (kube_with fresh_object False) tr qs w' \<and>
     qs ! Suc 0 = return () \<and> kb_live w'"
proof -
  let ?loop = "reconcile_loop klib_std kube_client kube_provisioner ''argocd'' kube_key 1"
  let ?add = "AddResourceReference klib_std kube_rclient kube_key ''things.g.io/t''"
  define w1 where "w1 = snd (run ?add (kube_with fresh_object False))"
  define w2 where "w2 = snd (run ?loop w1)"
  have w1: "run ?add (kube_with fresh_object False) = (Ok (), w1)"
    by (simp add: w1_def kube_run Let_def)
  have w2: "run ?loop w1 = (Ok (), w2)" "kb_live w2"
    by (simp_all add: w2_def w1_def kube_run Let_def)
  have "\<exists>tr. sys (\<lambda>a b. False) [?loop, return ()] w1 tr [return (), return ()] w2"
    by (rule run_sys [OF w2(1), of 0 _ _ "[]"]) (simp_all add: sys_stop)
  then obtain tr where "sys (\<lambda>a b. False) [?loop, return ()] w1 tr [return (), return ()] w2" by blast
  then have "\<exists>tr. sys (\<lambda>a b. False) [?loop, ?add] (kube_with fresh_object False) tr [return (), return ()] w2"
    by (intro run_sys [OF w1, of 1 _ _ tr]) simp_all
  moreover have "[?loop, ?add] = reconcile_loop klib_std kube_client kube_provisioner ''argocd'' (v_key kube_view) 1 #
      map (referral_proc klib_std kube_rclient (v_key kube_view)) sample_acts"
    by (simp add: sample_acts_def)
  moreover have "[return (), return ()] ! Suc 0 = return ()" by simp
  ultimately show ?thesis using w2(2) by metis
qed

lemma sample_ok:
  "distinct (map reference_of sample_acts)"
  "list_all (\<lambda>a. reference_of a \<noteq> Finalizer \<and> reference_of a \<noteq> FinalizerDeleteDependents) sample_acts"
  "wf_store kube_view (kube_with fresh_object False)" "no_orphan kube_view (kube_with fresh_object False)"
proof -
  show wf: "wf_store kube_view (kube_with fresh_object False)"
    by (rule kube_with_wf) (simp add: key_of_def fresh_object_def kube_key_def)
  then show "no_orphan kube_view (kube_with fresh_object False)" by (simp add: no_orphan_def kube_with_def)
qed (simp_all add: sample_acts_def Finalizer_def FinalizerDeleteDependents_def)

theorem references_survive_witness:
  "\<exists>tr qs w'. sys (\<lambda>a b. False)
       (reconcile_loop klib_std kube_client kube_provisioner ''argocd'' kube_key 1 #
        map (referral_proc klib_std kube_rclient kube_key) sample_acts) (kube_with fresh_object False) tr qs w' \<and>
     qs ! Suc 0 = return () \<and> holds_ref kube_view ''things.g.io/t'' w'"
proof -
  obtain tr qs w' where run: "sys (\<lambda>a b. False)
       (reconcile_loop klib_std kube_client kube_provisioner ''argocd'' (v_key kube_view) 1 #
        map (referral_proc klib_std kube_rclient (v_key kube_view)) sample_acts) (kube_with fresh_object False) tr qs w'"
    "qs ! Suc 0 = return ()"
    using sample_run by blast
  from references_survive [OF klib_std_ok kube_versioned kube_provisions kube_referring sample_ok(3,1,2) _ run(1)]
  have "holds_ref kube_view ''things.g.io/t'' w'" using run(2) by (auto simp: sample_acts_def)
  with run show ?thesis by auto
qed

theorem nothing_orphaned_witness:
  "\<exists>tr qs w'. sys (\<lambda>a b. False)
       (reconcile_loop klib_std kube_client kube_provisioner ''argocd'' kube_key 1 #
        map (referral_proc klib_std kube_rclient kube_key) sample_acts) (kube_with fresh_object False) tr qs w' \<and>
     kb_live w' \<and> held kube_view w'"
proof -
  obtain tr qs w' where run: "sys (\<lambda>a b. False)
       (reconcile_loop klib_std kube_client kube_provisioner ''argocd'' (v_key kube_view) 1 #
        map (referral_proc klib_std kube_rclient (v_key kube_view)) sample_acts) (kube_with fresh_object False) tr qs w'"
    "kb_live w'"
    using sample_run by blast
  from nothing_orphaned [OF klib_std_ok kube_versioned kube_provisions kube_referring _ sample_ok(4,1,2) _ run(1)]
  have "held kube_view w'" using run(2) by simp
  with run show ?thesis by auto
qed

end
