(* ===== verification/Memory.thy ===== *)
theory Memory
  imports Prelude
begin

text \<open>
  Memory for the code that depends on aliasing.  A heap is a list of cells, an address an index into
  it, and allocation appends.  A \<^emph>\<open>view\<close> reads the value that a structure has in a heap, following
  pointers within a region only; values are trees, so that equality of values is what
  \<open>reflect.DeepEqual\<close> tests.  The locale \<open>copier\<close> is the contract of a deep copy; the idioms of which
  generated copies are made (pointers, slices, maps, structures) keep it.
\<close>

named_theorems copiers \<open>copies that keep the contract, and the kinds they use\<close>

section \<open>Heaps\<close>

type_synonym addr = nat
type_synonym ('c, 'a) mem = "'c list \<Rightarrow> ('a \<times> 'c list) option"

text \<open>
  A kind says how contents of one Go type are kept in a cell.  Reading a cell at another type gives
  \<open>None\<close>, as does an address beyond the heap; a typed, memory-safe program does neither.
\<close>

record ('c, 'a) kind =
  put :: "'a \<Rightarrow> 'c"
  get :: "'c \<Rightarrow> 'a option"

definition kind_ok :: "('c, 'a) kind \<Rightarrow> bool" where
  "kind_ok k \<longleftrightarrow> (\<forall>x. get k (put k x) = Some x)"

definition mem_ret :: "'a \<Rightarrow> ('c, 'a) mem" where
  "mem_ret x h = Some (x, h)"

definition mem_bind :: "('c, 'a) mem \<Rightarrow> ('a \<Rightarrow> ('c, 'b) mem) \<Rightarrow> ('c, 'b) mem" where
  "mem_bind m k h = (case m h of None \<Rightarrow> None | Some (x, h') \<Rightarrow> k x h')"

definition mem_new :: "('c, 'a) kind \<Rightarrow> 'a \<Rightarrow> ('c, addr) mem" where
  "mem_new k x h = Some (length h, h @ [put k x])"

definition mem_load :: "('c, 'a) kind \<Rightarrow> addr \<Rightarrow> ('c, 'a) mem" where
  "mem_load k a h = (if a < length h then map_option (\<lambda>x. (x, h)) (get k (h ! a)) else None)"

definition mem_store :: "('c, 'a) kind \<Rightarrow> addr \<Rightarrow> 'a \<Rightarrow> ('c, unit) mem" where
  "mem_store k a x h = (if a < length h then Some ((), h[a := put k x]) else None)"

lemmas mem_defs = mem_ret_def mem_bind_def mem_new_def mem_load_def mem_store_def

section \<open>The idioms of a copy\<close>

text \<open>
  \<open>*out = new(T); (*in).DeepCopyInto(*out)\<close>, guarded by a test for nil; with \<open>mem_ret\<close> for the inner
  copy it is \<open>**out = **in\<close>.
\<close>

definition copy_ptr ::
    "('c, 'a) kind \<Rightarrow> 'a \<Rightarrow> ('a \<Rightarrow> ('c, 'a) mem) \<Rightarrow> addr option \<Rightarrow> ('c, addr option) mem" where
  "copy_ptr k zero into p =
     (case p of
        None \<Rightarrow> mem_ret None
      | Some a \<Rightarrow>
          mem_bind (mem_new k zero) (\<lambda>b.
          mem_bind (mem_load k a) (\<lambda>x.
          mem_bind (into x) (\<lambda>y.
          mem_bind (mem_store k b y) (\<lambda>_. mem_ret (Some b))))))"

text \<open>A slice is a window on an array; the capacity plays no part here.\<close>

record slice =
  sl_array :: addr
  sl_offset :: nat
  sl_len :: nat

text \<open>\<open>for i := range *in { (*in)[i].DeepCopyInto(&(*out)[i]) }\<close>: \<open>n\<close> elements are left, from \<open>i\<close> on.\<close>

primrec copy_elems ::
    "('c, 'a list) kind \<Rightarrow> ('a \<Rightarrow> ('c, 'a) mem) \<Rightarrow> slice \<Rightarrow> addr \<Rightarrow> nat \<Rightarrow> nat \<Rightarrow> ('c, unit) mem" where
  "copy_elems k into s b 0 i = mem_ret ()"
| "copy_elems k into s b (Suc n) i =
     mem_bind (mem_load k (sl_array s)) (\<lambda>xs.
       if sl_offset s + i < length xs then
         mem_bind (into (xs ! (sl_offset s + i))) (\<lambda>y.
         mem_bind (mem_load k b) (\<lambda>ys.
         mem_bind (mem_store k b (ys[i := y])) (\<lambda>_.
           copy_elems k into s b n (Suc i))))
       else (\<lambda>h. None))"

definition copy_slice ::
    "('c, 'a list) kind \<Rightarrow> 'a \<Rightarrow> ('a \<Rightarrow> ('c, 'a) mem) \<Rightarrow> slice option \<Rightarrow> ('c, slice option) mem" where
  "copy_slice k zero into p =
     (case p of
        None \<Rightarrow> mem_ret None
      | Some s \<Rightarrow>
          mem_bind (mem_new k (replicate (sl_len s) zero)) (\<lambda>b.
          mem_bind (copy_elems k into s b (sl_len s) 0) (\<lambda>_.
            mem_ret (Some \<lparr>sl_array = b, sl_offset = 0, sl_len = sl_len s\<rparr>))))"

text \<open>\<open>*out = make([]T, len(*in)); copy(*out, *in)\<close>.\<close>

definition copy_flat_slice :: "('c, 'a list) kind \<Rightarrow> 'a \<Rightarrow> slice option \<Rightarrow> ('c, slice option) mem" where
  "copy_flat_slice k zero p =
     (case p of
        None \<Rightarrow> mem_ret None
      | Some s \<Rightarrow>
          mem_bind (mem_new k (replicate (sl_len s) zero)) (\<lambda>b.
          mem_bind (mem_load k (sl_array s)) (\<lambda>xs.
          mem_bind (mem_store k b (take (sl_len s) (drop (sl_offset s) xs))) (\<lambda>_.
            mem_ret (Some \<lparr>sl_array = b, sl_offset = 0, sl_len = sl_len s\<rparr>)))))"

text \<open>\<open>*out = make(map[string]string, len(*in)); for key, val := range *in { (*out)[key] = val }\<close>.\<close>

definition copy_map ::
    "('c, ('k, 'v) fmap) kind \<Rightarrow> (('k, 'v) fmap \<Rightarrow> ('k \<times> 'v) list) \<Rightarrow> addr option \<Rightarrow> ('c, addr option) mem" where
  "copy_map k walk p =
     (case p of
        None \<Rightarrow> mem_ret None
      | Some a \<Rightarrow>
          mem_bind (mem_new k fmempty) (\<lambda>b.
          mem_bind (mem_load k a) (\<lambda>m.
          mem_bind (mem_store k b (foldl (\<lambda>out kv. fmupd (fst kv) (snd kv) out) fmempty (walk m))) (\<lambda>_.
            mem_ret (Some b)))))"

text \<open>\<open>x := (*in).DeepCopy(); *out = &x\<close>: the copy is made before it is given an address.\<close>

definition copy_boxed :: "('c, 'a) kind \<Rightarrow> ('a \<Rightarrow> ('c, 'a) mem) \<Rightarrow> addr option \<Rightarrow> ('c, addr option) mem" where
  "copy_boxed k into p =
     (case p of
        None \<Rightarrow> mem_ret None
      | Some a \<Rightarrow>
          mem_bind (mem_load k a) (\<lambda>x.
          mem_bind (into x) (\<lambda>y.
          mem_bind (mem_new k y) (\<lambda>b. mem_ret (Some b)))))"

section \<open>Values and views\<close>

datatype gval =
    GString string | GBool bool | GInt int | GNil | GPtr gval | GSlice "gval list" | GMap smap | GStruct "gval list"

text \<open>A view reads the value of a structure, following addresses of the region only.\<close>

type_synonym ('c, 's) view = "'c list \<Rightarrow> addr set \<Rightarrow> 's \<Rightarrow> gval option"

definition plain :: "('s \<Rightarrow> gval) \<Rightarrow> ('c, 's) view" where
  "plain f h S s = Some (f s)"

definition on :: "('s \<Rightarrow> 'f) \<Rightarrow> ('c, 'f) view \<Rightarrow> ('c, 's) view" where
  "on g V h S s = V h S (g s)"

definition ptr_view :: "('c, 'a) kind \<Rightarrow> ('c, 'a) view \<Rightarrow> ('c, addr option) view" where
  "ptr_view k V h S p =
     (case p of
        None \<Rightarrow> Some GNil
      | Some a \<Rightarrow>
          if a \<in> S \<and> a < length h
          then (case get k (h ! a) of None \<Rightarrow> None | Some x \<Rightarrow> map_option GPtr (V h S x))
          else None)"

definition slice_view :: "('c, 'a list) kind \<Rightarrow> ('c, 'a) view \<Rightarrow> ('c, slice option) view" where
  "slice_view k V h S p =
     (case p of
        None \<Rightarrow> Some GNil
      | Some s \<Rightarrow>
          if sl_array s \<in> S \<and> sl_array s < length h
          then (case get k (h ! sl_array s) of
                  None \<Rightarrow> None
                | Some xs \<Rightarrow>
                    if sl_offset s + sl_len s \<le> length xs
                    then map_option GSlice (those (map (V h S) (take (sl_len s) (drop (sl_offset s) xs))))
                    else None)
          else None)"

definition struct_view :: "('c, 's) view list \<Rightarrow> ('c, 's) view" where
  "struct_view fs h S s = map_option GStruct (those (map (\<lambda>f. f h S s) fs))"

section \<open>The contract of a view\<close>

text \<open>What a view reads depends on the cells it may visit, and on nothing else.\<close>

locale representation =
  fixes view :: "('c, 's) view"
  assumes transfer:
    "view h S s = Some v \<Longrightarrow>
     (\<And>a. a \<in> S \<Longrightarrow> a < length h \<Longrightarrow> a \<in> T \<and> a < length h' \<and> h' ! a = h ! a) \<Longrightarrow>
     view h' T s = Some v"
begin

lemma mono: "view h S s = Some v \<Longrightarrow> S \<subseteq> T \<Longrightarrow> view h T s = Some v"
  by (erule transfer) auto

lemma bounded: "view h S s = Some v \<Longrightarrow> view h {..<length h} s = Some v"
  by (rule transfer) auto

end

text \<open>A heap extends another when it has the same cells, and perhaps more.\<close>

definition extends :: "'c list \<Rightarrow> 'c list \<Rightarrow> bool" where
  "extends h h' \<longleftrightarrow> length h \<le> length h' \<and> (\<forall>a < length h. h' ! a = h ! a)"

lemma extends_refl [simp]: "extends h h"
  by (simp add: extends_def)

lemma extends_trans [trans]: "extends h h1 \<Longrightarrow> extends h1 h2 \<Longrightarrow> extends h h2"
  by (auto simp: extends_def)

lemma extends_length: "extends h h' \<Longrightarrow> length h \<le> length h'"
  by (simp add: extends_def)

lemma extends_append [simp]: "extends h (h @ xs)"
  by (simp add: extends_def nth_append)

lemma extends_update: "extends h h' \<Longrightarrow> length h \<le> a \<Longrightarrow> extends h (h'[a := c])"
  by (auto simp: extends_def)

context representation
begin

lemma kept: "view h S s = Some v \<Longrightarrow> extends h h' \<Longrightarrow> view h' S s = Some v"
  by (erule transfer) (auto simp: extends_def)

lemma apart:
  assumes "view h S s = Some v" and "extends h h'" and "a \<notin> S"
  shows "view (h'[a := c]) UNIV s = Some v"
  by (rule transfer [OF kept [OF assms(1,2)]]) (use assms(3) in \<open>auto intro!: nth_list_update_neq\<close>)

end

text \<open>A deep copy returns, reads as the original does, and uses none of the cells that were there.\<close>

locale copier = representation view for view :: "('c, 's) view" +
  fixes copy :: "'s \<Rightarrow> ('c, 's) mem"
  assumes copies:
    "view h S s = Some v \<Longrightarrow>
     \<exists>s' h'. copy s h = Some (s', h') \<and> extends h h' \<and> view h' {length h..} s' = Some v"
begin

text \<open>
  Whatever becomes of the other side's cells afterwards, the original and the copy keep their value.
\<close>

lemma independent:
  assumes "view h S s = Some v"
  obtains s' h' where "copy s h = Some (s', h')" and "extends h h'" and "view h' UNIV s' = Some v"
    and "\<And>h2. extends h h2 \<Longrightarrow> view h2 UNIV s = Some v"
    and "\<And>h2. (\<And>a. length h \<le> a \<Longrightarrow> a < length h' \<Longrightarrow> a < length h2 \<and> h2 ! a = h' ! a) \<Longrightarrow>
      view h2 UNIV s' = Some v"
proof -
  from copies [OF assms] obtain s' h' where c: "copy s h = Some (s', h')" "extends h h'"
    and v: "view h' {length h..} s' = Some v" by blast
  show ?thesis
  proof
    show "view h' UNIV s' = Some v" by (rule mono [OF v]) simp
    show "view h2 UNIV s = Some v" if "extends h h2" for h2
      by (rule kept [OF mono [OF assms] that]) simp
    show "view h2 UNIV s' = Some v"
      if "\<And>a. length h \<le> a \<Longrightarrow> a < length h' \<Longrightarrow> a < length h2 \<and> h2 ! a = h' ! a" for h2
      by (rule transfer [OF v]) (use that in auto)
  qed (use c in auto)
qed

end

section \<open>Views that keep the contract\<close>

lemma those_Some_iff: "those xs = Some ys \<longleftrightarrow> map Some ys = xs"
  by (induction xs arbitrary: ys) (auto split: option.splits simp: Cons_eq_map_conv map_eq_Cons_conv)

lemma those_Cons_Some:
  "those (x # xs) = Some vs \<longleftrightarrow> (\<exists>y ys. x = Some y \<and> those xs = Some ys \<and> vs = y # ys)"
  by (auto split: option.splits)

lemma those_map_Some: "those (map f xs) = Some ys \<longleftrightarrow> list_all2 (\<lambda>x y. f x = Some y) xs ys"
  unfolding those_Some_iff
  by (induction xs arbitrary: ys) (auto simp: map_eq_Cons_conv list_all2_Cons1)

lemma representation_plain [intro!]: "representation (plain f)"
  by unfold_locales (simp add: plain_def)

lemma representation_on [intro!]: "representation V \<Longrightarrow> representation (on g V)"
  unfolding representation_def on_def by blast

lemma representation_ptr [intro!]:
  assumes "representation V"
  shows "representation (ptr_view k V)"
proof
  fix h S p v T and h' :: "'a list"
  assume view: "ptr_view k V h S p = Some v"
    and same: "\<And>a. a \<in> S \<Longrightarrow> a < length h \<Longrightarrow> a \<in> T \<and> a < length h' \<and> h' ! a = h ! a"
  show "ptr_view k V h' T p = Some v"
  proof (cases p)
    case None
    with view show ?thesis by (simp add: ptr_view_def)
  next
    case (Some a)
    with view obtain x y where a: "a \<in> S" "a < length h" and x: "get k (h ! a) = Some x"
      and y: "V h S x = Some y" "v = GPtr y"
      by (auto simp: ptr_view_def split: if_splits option.splits)
    from representation.transfer [OF assms y(1) same] have "V h' T x = Some y" by blast
    with Some x y(2) same [OF a] show ?thesis by (simp add: ptr_view_def)
  qed
qed

lemma representation_slice [intro!]:
  assumes "representation V"
  shows "representation (slice_view k V)"
proof
  fix h S p v T and h' :: "'a list"
  assume view: "slice_view k V h S p = Some v"
    and same: "\<And>a. a \<in> S \<Longrightarrow> a < length h \<Longrightarrow> a \<in> T \<and> a < length h' \<and> h' ! a = h ! a"
  show "slice_view k V h' T p = Some v"
  proof (cases p)
    case None
    with view show ?thesis by (simp add: slice_view_def)
  next
    case (Some s)
    let ?w = "\<lambda>xs. take (sl_len s) (drop (sl_offset s) xs)"
    from view Some obtain xs ys where a: "sl_array s \<in> S" "sl_array s < length h"
      and x: "get k (h ! sl_array s) = Some xs" "sl_offset s + sl_len s \<le> length xs"
      and y: "list_all2 (\<lambda>x y. V h S x = Some y) (?w xs) ys" "v = GSlice ys"
      by (auto simp: slice_view_def those_map_Some split: if_splits option.splits)
    from y(1) have "list_all2 (\<lambda>x y. V h' T x = Some y) (?w xs) ys"
      by (rule list_all2_mono) (rule representation.transfer [OF assms _ same])
    with Some x y(2) same [OF a] show ?thesis by (simp add: slice_view_def those_map_Some)
  qed
qed

lemma representation_struct:
  assumes "\<And>f. f \<in> set fs \<Longrightarrow> representation f"
  shows "representation (struct_view fs)"
proof
  fix h S s v T and h' :: "'a list"
  assume view: "struct_view fs h S s = Some v"
    and same: "\<And>a. a \<in> S \<Longrightarrow> a < length h \<Longrightarrow> a \<in> T \<and> a < length h' \<and> h' ! a = h ! a"
  from view obtain ys where y: "list_all2 (\<lambda>f y. f h S s = Some y) fs ys" "v = GStruct ys"
    by (auto simp: struct_view_def those_map_Some)
  from y(1) have "list_all2 (\<lambda>f y. f h' T s = Some y) fs ys"
  proof (rule list.rel_mono_strong)
    fix f y assume "f \<in> set fs" and "f h S s = Some y"
    from representation.transfer [OF assms [OF this(1)] this(2) same] show "f h' T s = Some y" .
  qed
  with y(2) show "struct_view fs h' T s = Some v" by (simp add: struct_view_def those_map_Some)
qed

section \<open>Programs that only allocate\<close>

text \<open>
  A program, started in any extension of \<open>h0\<close> in which \<open>P\<close> holds, returns in an extension of \<open>h0\<close>
  with \<open>Q\<close> of its result.  Conditions that hold of a heap hold of its extensions, so that what an
  earlier statement has copied is still there after a later one.
\<close>

definition stable :: "('c list \<Rightarrow> bool) \<Rightarrow> bool" where
  "stable P \<longleftrightarrow> (\<forall>h h'. P h \<longrightarrow> extends h h' \<longrightarrow> P h')"

definition produces ::
    "'c list \<Rightarrow> ('c list \<Rightarrow> bool) \<Rightarrow> ('c, 'a) mem \<Rightarrow> ('c list \<Rightarrow> 'a \<Rightarrow> bool) \<Rightarrow> bool" where
  "produces h0 P m Q \<longleftrightarrow>
     (\<forall>h. extends h0 h \<longrightarrow> P h \<longrightarrow> (\<exists>x h'. m h = Some (x, h') \<and> extends h h' \<and> Q h' x))"

lemma stable_True: "stable (\<lambda>h. True)"
  by (simp add: stable_def)

lemma stable_view: "representation V \<Longrightarrow> stable P \<Longrightarrow> stable (\<lambda>h. P h \<and> V h S x = Some v)"
  unfolding stable_def by (blast intro: representation.kept)

lemma produces_ret: "(\<And>h. P h \<Longrightarrow> Q h x) \<Longrightarrow> produces h0 P (mem_ret x) Q"
  by (auto simp: produces_def mem_ret_def)

lemma copier_representation: "copier V c \<Longrightarrow> representation V"
  by (simp add: copier_def)

lemma copierI:
  assumes "representation V"
    and "\<And>h S s v. V h S s = Some v \<Longrightarrow>
      produces h (\<lambda>_. True) (c s) (\<lambda>h' s'. V h' {length h..} s' = Some v)"
  shows "copier V c"
  using assms unfolding produces_def by (auto simp: copier_def copier_axioms_def)

text \<open>A statement that copies one part.\<close>

lemma produces_bind:
  assumes c: "copier V c" and v: "V h0 S y = Some v" and P: "stable P"
    and k: "\<And>x. stable (\<lambda>h. P h \<and> V h {length h0..} x = Some v) \<Longrightarrow>
      produces h0 (\<lambda>h. P h \<and> V h {length h0..} x = Some v) (k x) Q"
  shows "produces h0 P (mem_bind (c y) k) Q"
  unfolding produces_def
proof (intro allI impI)
  fix h assume h: "extends h0 h" "P h"
  have rep: "representation V" using c by (rule copier_representation)
  from copier.copies [OF c representation.kept [OF rep v h(1)]] obtain x h1
    where x: "c y h = Some (x, h1)" "extends h h1" "V h1 {length h..} x = Some v" by blast
  have "V h1 {length h0..} x = Some v"
    by (rule representation.mono [OF rep x(3)]) (use extends_length [OF h(1)] in auto)
  moreover have "P h1" using P h(2) x(2) by (auto simp: stable_def)
  moreover have "extends h0 h1" using h(1) x(2) by (rule extends_trans)
  ultimately obtain z h2 where "k x h1 = Some (z, h2)" "extends h1 h2" "Q h2 z"
    using k [OF stable_view [OF rep P]] unfolding produces_def by blast
  with x(1,2) show "\<exists>z h'. mem_bind (c y) k h = Some (z, h') \<and> extends h h' \<and> Q h' z"
    by (auto simp: mem_bind_def intro: extends_trans)
qed

section \<open>The idioms keep the contract\<close>

lemma copier_plain [copiers]: "copier (plain f) mem_ret"
  by unfold_locales (auto simp: plain_def mem_ret_def)

text \<open>A copy through a pointer: the new cell holds the copy of the contents, whose own cells come after it.\<close>

lemma copy_ptr_spec:
  assumes c: "copier V into" and k: "kind_ok k"
    and view: "ptr_view k V h S (Some a) = Some v"
  obtains x' h' y where "copy_ptr k zero into (Some a) h = Some (Some (length h), h')"
    and "extends h h'" and "length h < length h'" and "get k (h' ! length h) = Some x'"
    and "V h' {Suc (length h)..} x' = Some y" and "v = GPtr y"
proof -
  note rep = copier_representation [OF c]
  from view obtain x y where a: "a < length h" "get k (h ! a) = Some x"
    and y: "V h S x = Some y" "v = GPtr y"
    by (auto simp: ptr_view_def split: if_splits option.splits)
  let ?h = "h @ [put k zero]"
  from copier.copies [OF c representation.kept [OF rep y(1) extends_append]]
  obtain x' h' where x': "into x ?h = Some (x', h')" "extends ?h h'" "V h' {length ?h..} x' = Some y"
    by blast
  from x'(2) have len: "length h < length h'" by (simp add: extends_def)
  show ?thesis
  proof
    show "V (h'[length h := put k x']) {Suc (length h)..} x' = Some y"
      by (rule representation.transfer [OF rep x'(3)]) auto
    show "extends h (h'[length h := put k x'])"
      by (rule extends_update) (use x'(2) in \<open>auto intro: extends_trans [OF extends_append]\<close>)
    show "copy_ptr k zero into (Some a) h = Some (Some (length h), h'[length h := put k x'])"
      using a x'(1) len by (simp add: copy_ptr_def mem_defs nth_append)
    show "get k (h'[length h := put k x'] ! length h) = Some x'" using k len by (simp add: kind_ok_def)
  qed (use len y(2) in auto)
qed

lemma copier_ptr [copiers]:
  assumes c: "copier V into" and k: "kind_ok k"
  shows "copier (ptr_view k V) (copy_ptr k zero into)"
proof (intro copier.intro copier_axioms.intro)
  note rep = copier_representation [OF c]
  show "representation (ptr_view k V)" using rep by blast
  fix h S p v assume view: "ptr_view k V h S p = Some v"
  show "\<exists>s' h'. copy_ptr k zero into p h = Some (s', h') \<and> extends h h' \<and>
      ptr_view k V h' {length h..} s' = Some v"
  proof (cases p)
    case None
    with view show ?thesis by (auto simp: copy_ptr_def ptr_view_def mem_ret_def)
  next
    case (Some a)
    from copy_ptr_spec [OF c k view [unfolded Some]] obtain x' h' y
      where h': "copy_ptr k zero into (Some a) h = Some (Some (length h), h')" "extends h h'" "length h < length h'"
        "get k (h' ! length h) = Some x'" and y: "V h' {Suc (length h)..} x' = Some y" "v = GPtr y" .
    have "V h' {length h..} x' = Some y" by (rule representation.mono [OF rep y(1)]) auto
    with Some h' y(2) show ?thesis by (auto simp: ptr_view_def)
  qed
qed

lemma plain_fun: "plain f h S = (\<lambda>s. Some (f s))"
  by (simp add: plain_def fun_eq_iff)

lemma copier_flat_slice [copiers]:
  assumes k: "kind_ok k"
  shows "copier (slice_view k (plain f)) (copy_flat_slice k zero)"
proof (intro copier.intro copier_axioms.intro)
  show "representation (slice_view k (plain f))" by blast
  fix h S p v assume "slice_view k (plain f) h S p = Some v"
  then show "\<exists>s' h'. copy_flat_slice k zero p h = Some (s', h') \<and> extends h h' \<and>
      slice_view k (plain f) h' {length h..} s' = Some v"
    using k
    by (auto simp: copy_flat_slice_def slice_view_def plain_fun
        mem_defs nth_append kind_ok_def extends_def split: option.splits if_splits)
qed

lemma copier_map [copiers]:
  assumes k: "kind_ok k" and walk: "\<And>m. walk_of m (walk m)"
  shows "copier (ptr_view k (plain f)) (copy_map k walk)"
proof (intro copier.intro copier_axioms.intro)
  show "representation (ptr_view k (plain f))" by blast
  fix h S p v assume "ptr_view k (plain f) h S p = Some v"
  then show "\<exists>s' h'. copy_map k walk p h = Some (s', h') \<and> extends h h' \<and>
      ptr_view k (plain f) h' {length h..} s' = Some v"
    using k foldl_fmupd_walk [OF walk]
    by (auto simp: copy_map_def ptr_view_def plain_def mem_defs nth_append kind_ok_def extends_def
        split: option.splits if_splits)
qed

text \<open>
  The loop over the elements.  The copies of the elements made so far live beyond the new array, whose
  cell is overwritten in every round.
\<close>

lemma copy_elems_spec:
  assumes c: "copier V into" and k: "kind_ok k"
    and source: "sl_array s < length h0" "get k (h0 ! sl_array s) = Some xs"
    and "extends h0 h" "length h0 < length h" "get k (h ! length h0) = Some ys"
    and "length ys = i + n" "sl_offset s + i + n \<le> length xs"
    and "list_all2 (\<lambda>x v. V h0 S x = Some v) (take n (drop (sl_offset s + i) xs)) vs"
    and "list_all2 (\<lambda>x v. V h {Suc (length h0)..} x = Some v) (take i ys) us"
  shows "\<exists>h' ys'. copy_elems k into s (length h0) n i h = Some ((), h') \<and> extends h0 h' \<and>
    length h0 < length h' \<and> get k (h' ! length h0) = Some ys' \<and> length ys' = i + n \<and>
    list_all2 (\<lambda>x v. V h' {Suc (length h0)..} x = Some v) ys' (us @ vs)"
  using assms(5-)
proof (induction n arbitrary: i h ys us vs)
  case 0
  then show ?case by (simp add: mem_ret_def)
next
  case (Suc n)
  note rep = copier_representation [OF c]
  let ?b = "length h0" and ?x = "xs ! (sl_offset s + i)"
  let ?R = "{Suc ?b..}"
  have drop: "drop (sl_offset s + i) xs = ?x # drop (sl_offset s + Suc i) xs"
    using Suc.prems(5) by (simp add: Cons_nth_drop_Suc)
  with Suc.prems(6) obtain v vs' where vs: "vs = v # vs'" "V h0 S ?x = Some v"
    and rest: "list_all2 (\<lambda>x v. V h0 S x = Some v) (take n (drop (sl_offset s + Suc i) xs)) vs'"
    by (auto simp: list_all2_Cons1)
  from copier.copies [OF c representation.kept [OF rep vs(2) Suc.prems(1)]]
  obtain x' h1 where x': "into ?x h = Some (x', h1)" "extends h h1" "V h1 {length h..} x' = Some v"
    by blast
  let ?ys = "ys[i := x']" and ?h = "h1[?b := put k (ys[i := x'])]"
  have b: "?b < length h1" "get k (h1 ! ?b) = Some ys" and len: "length h \<le> length h1"
    using x'(2) Suc.prems(2,3) by (auto simp: extends_def)
  have e: "extends h0 ?h"
    by (rule extends_update [OF extends_trans [OF Suc.prems(1) x'(2)]]) simp
  have new: "V ?h ?R x' = Some v"
    by (rule representation.transfer [OF rep x'(3)]) (use Suc.prems(2) in auto)
  have old: "V ?h ?R x = Some u" if "V h ?R x = Some u" for x u
    by (rule representation.transfer [OF rep representation.kept [OF rep that x'(2)]]) auto
  have i: "i < length ys" using Suc.prems(4) by simp
  have "list_all2 (\<lambda>x v. V ?h ?R x = Some v) (take i ys @ [x']) (us @ [v])"
    by (rule list_all2_appendI) (use new in \<open>auto intro: list_all2_mono [OF Suc.prems(7)] old\<close>)
  then have made: "list_all2 (\<lambda>x v. V ?h ?R x = Some v) (take (Suc i) ?ys) (us @ [v])"
    using i by (simp add: take_Suc_conv_app_nth)
  have step: "copy_elems k into s ?b (Suc n) i h = copy_elems k into s ?b n (Suc i) ?h"
    using source Suc.prems(1,5) x'(1) b k by (auto simp: mem_defs extends_def)
  have "\<exists>h' ys'. copy_elems k into s ?b n (Suc i) ?h = Some ((), h') \<and> extends h0 h' \<and>
    ?b < length h' \<and> get k (h' ! ?b) = Some ys' \<and> length ys' = Suc i + n \<and>
    list_all2 (\<lambda>x v. V h' ?R x = Some v) ys' ((us @ [v]) @ vs')"
    by (rule Suc.IH [OF e _ _ _ _ rest made]) (use b k Suc.prems(4,5) in \<open>auto simp: kind_ok_def\<close>)
  then show ?case unfolding step vs(1) by simp
qed

lemma copier_slice [copiers]:
  assumes c: "copier V into" and k: "kind_ok k"
  shows "copier (slice_view k V) (copy_slice k zero into)"
proof (intro copier.intro copier_axioms.intro)
  note rep = copier_representation [OF c]
  show "representation (slice_view k V)" using rep by blast
  fix h S p v assume view: "slice_view k V h S p = Some v"
  show "\<exists>s' h'. copy_slice k zero into p h = Some (s', h') \<and> extends h h' \<and>
      slice_view k V h' {length h..} s' = Some v"
  proof (cases p)
    case None
    with view show ?thesis by (auto simp: copy_slice_def slice_view_def mem_ret_def)
  next
    case (Some s)
    with view obtain xs vs where a: "sl_array s < length h" "get k (h ! sl_array s) = Some xs"
      and x: "sl_offset s + sl_len s \<le> length xs"
      and vs: "list_all2 (\<lambda>x v. V h S x = Some v) (take (sl_len s) (drop (sl_offset s) xs)) vs" "v = GSlice vs"
      by (auto simp: slice_view_def those_map_Some split: if_splits option.splits)
    let ?h = "h @ [put k (replicate (sl_len s) zero)]"
    have "\<exists>h' ys'. copy_elems k into s (length h) (sl_len s) 0 ?h = Some ((), h') \<and> extends h h' \<and>
        length h < length h' \<and> get k (h' ! length h) = Some ys' \<and> length ys' = 0 + sl_len s \<and>
        list_all2 (\<lambda>x v. V h' {Suc (length h)..} x = Some v) ys' ([] @ vs)"
      by (rule copy_elems_spec [OF c k a]) (use vs(1) x k in \<open>auto simp: kind_ok_def\<close>)
    then obtain h' ys' where h': "copy_elems k into s (length h) (sl_len s) 0 ?h = Some ((), h')" "extends h h'"
      "length h < length h'" "get k (h' ! length h) = Some ys'" "length ys' = sl_len s"
      and ys': "list_all2 (\<lambda>x v. V h' {Suc (length h)..} x = Some v) ys' vs" by auto
    from ys' have "list_all2 (\<lambda>x v. V h' {length h..} x = Some v) ys' vs"
      by (rule list_all2_mono) (auto intro: representation.mono [OF rep])
    with Some h' vs(2) show ?thesis
      by (auto simp: copy_slice_def mem_bind_def mem_new_def mem_ret_def slice_view_def those_map_Some)
  qed
qed

lemma copier_boxed [copiers]:
  assumes c: "copier V into" and k: "kind_ok k"
  shows "copier (ptr_view k V) (copy_boxed k into)"
proof (intro copier.intro copier_axioms.intro)
  note rep = copier_representation [OF c]
  show "representation (ptr_view k V)" using rep by blast
  fix h S p v assume view: "ptr_view k V h S p = Some v"
  show "\<exists>s' h'. copy_boxed k into p h = Some (s', h') \<and> extends h h' \<and>
      ptr_view k V h' {length h..} s' = Some v"
  proof (cases p)
    case None
    with view show ?thesis by (auto simp: copy_boxed_def ptr_view_def mem_ret_def)
  next
    case (Some a)
    with view obtain x y where a: "a < length h" "get k (h ! a) = Some x"
      and y: "V h S x = Some y" "v = GPtr y"
      by (auto simp: ptr_view_def split: if_splits option.splits)
    from copier.copies [OF c y(1)] obtain x' h'
      where x': "into x h = Some (x', h')" "extends h h'" "V h' {length h..} x' = Some y" by blast
    from representation.kept [OF rep x'(3) extends_append]
    have "V (h' @ [put k x']) {length h..} x' = Some y" .
    moreover have "extends h (h' @ [put k x'])" using x'(2) extends_append by (rule extends_trans)
    ultimately show ?thesis
      using Some a x'(1) y(2) k extends_length [OF x'(2)]
      by (auto simp: copy_boxed_def mem_defs ptr_view_def nth_append kind_ok_def)
  qed
qed

lemmas struct_simps = those_Cons_Some on_def plain_def

lemmas views = conjI representation_plain representation_on representation_ptr representation_slice

text \<open>A structure is copied when every field that needs it is, one after the other.\<close>

lemma copier_struct:
  assumes rep: "list_all representation fs"
    and copies: "\<And>h S s vs. those (map (\<lambda>f. f h S s) fs) = Some vs \<Longrightarrow>
      produces h (\<lambda>_. True) (c s) (\<lambda>h' s'. those (map (\<lambda>f. f h' {length h..} s') fs) = Some vs)"
  shows "copier (struct_view fs) c"
proof (rule copierI)
  show "representation (struct_view fs)" using rep by (simp add: representation_struct list_all_iff)
  show "produces h (\<lambda>_. True) (c s) (\<lambda>h' s'. struct_view fs h' {length h..} s' = Some v)"
    if "struct_view fs h S s = Some v" for h S s v
    using that copies by (fastforce simp: struct_view_def produces_def)
qed

section \<open>Independence\<close>

text \<open>
  What a caller of a deep copy relies on: the copy is made, it has the value of the original, and from
  then on neither sees what is written to the cells of the other.
\<close>

definition independent_copy :: "('c, 's) view \<Rightarrow> ('s \<Rightarrow> ('c, 's) mem) \<Rightarrow> bool" where
  "independent_copy V c \<longleftrightarrow>
     (\<forall>h s v. V h UNIV s = Some v \<longrightarrow>
        (\<exists>s' h'. c s h = Some (s', h') \<and> extends h h' \<and> V h' UNIV s' = Some v \<and>
           (\<forall>h2. extends h h2 \<longrightarrow> V h2 UNIV s = Some v) \<and>
           (\<forall>h2. (\<forall>a. length h \<le> a \<longrightarrow> a < length h' \<longrightarrow> a < length h2 \<and> h2 ! a = h' ! a) \<longrightarrow>
              V h2 UNIV s' = Some v)))"

lemma independent_copyI:
  assumes "copier V c"
  shows "independent_copy V c"
  unfolding independent_copy_def
proof (intro allI impI)
  fix h s v assume "V h UNIV s = Some v"
  from copier.independent [OF assms this] obtain s' h' where "c s h = Some (s', h')" "extends h h'" "V h' UNIV s' = Some v"
    "\<And>h2. extends h h2 \<Longrightarrow> V h2 UNIV s = Some v"
    "\<And>h2. (\<And>a. length h \<le> a \<Longrightarrow> a < length h' \<Longrightarrow> a < length h2 \<and> h2 ! a = h' ! a) \<Longrightarrow> V h2 UNIV s' = Some v"
    by metis
  then show "\<exists>s' h'. c s h = Some (s', h') \<and> extends h h' \<and> V h' UNIV s' = Some v \<and>
      (\<forall>h2. extends h h2 \<longrightarrow> V h2 UNIV s = Some v) \<and>
      (\<forall>h2. (\<forall>a. length h \<le> a \<longrightarrow> a < length h' \<longrightarrow> a < length h2 \<and> h2 ! a = h' ! a) \<longrightarrow> V h2 UNIV s' = Some v)"
    by (intro exI conjI allI impI) auto
qed

lemma independent_copyE:
  assumes "independent_copy V c" and "V h UNIV s = Some v"
  obtains s' h' where "c s h = Some (s', h')" and "extends h h'" and "V h' UNIV s' = Some v"
    and "\<And>h2. extends h h2 \<Longrightarrow> V h2 UNIV s = Some v"
  using assms unfolding independent_copy_def by blast

end
