(* ===== verification/Go_Stdlib.thy ===== *)
theory Go_Stdlib
  imports Prelude
begin

unbundle bit_operations_syntax

text \<open>
  The parts of the Go standard library whose results end up in names and payloads: the FNV-1a hash
  of \<open>hash/fnv\<close>, the SHA-256 hash of \<open>crypto/sha256\<close>, hexadecimal rendering and the base64
  encoding that \<open>encoding/json\<close> gives a byte slice.  Bytes are characters.
\<close>

type_synonym w32 = "32 word"

section \<open>FNV-1a\<close>

definition fnv_offset32 :: w32 where "fnv_offset32 = 2166136261"
definition fnv_prime32 :: w32 where "fnv_prime32 = 16777619"

definition byte_word :: "char \<Rightarrow> w32" where
  "byte_word c = of_nat (of_char c)"

definition fnv_step :: "w32 \<Rightarrow> char \<Rightarrow> w32" where
  "fnv_step h c = (h XOR byte_word c) * fnv_prime32"

definition fnv32a :: "string \<Rightarrow> w32" where
  "fnv32a s = foldl fnv_step fnv_offset32 s"

text \<open>The prime is odd, so a step can be undone: it is injective in the state and in the byte.\<close>

lemma fnv_prime_inverse: "fnv_prime32 * 899433627 = 1"
  by (simp add: fnv_prime32_def)

lemma fnv_prime_cancel: "a * fnv_prime32 = b * fnv_prime32 \<Longrightarrow> a = b"
proof -
  assume "a * fnv_prime32 = b * fnv_prime32"
  then have "a * (fnv_prime32 * 899433627) = b * (fnv_prime32 * 899433627)"
    by (simp only: mult.assoc [symmetric])
  then show ?thesis by (simp add: fnv_prime_inverse)
qed

lemma xor_cancel: "(a :: w32) XOR c = b XOR c \<Longrightarrow> a = b"
  by (metis xor.assoc xor_self_eq xor.right_neutral)

lemma byte_word_inj: "byte_word a = byte_word b \<Longrightarrow> a = b"
proof -
  assume e: "byte_word a = byte_word b"
  have "unat (byte_word c) = of_char c" for c
  proof -
    have "of_char c < (256 :: nat)" by simp
    then have "of_char c < (4294967296 :: nat)" by (rule less_trans) simp
    then show ?thesis by (simp add: byte_word_def unat_of_nat)
  qed
  with e show ?thesis by (metis of_char_eq_iff)
qed

lemma fnv_step_inj_state: "fnv_step h c = fnv_step h' c \<Longrightarrow> h = h'"
  unfolding fnv_step_def by (blast dest: fnv_prime_cancel xor_cancel)

lemma fnv_step_inj_byte: "fnv_step h c = fnv_step h c' \<Longrightarrow> c = c'"
  unfolding fnv_step_def
  by (drule fnv_prime_cancel) (metis byte_word_inj xor.commute xor_cancel)

lemma fnv_foldl_inj: "foldl fnv_step h s = foldl fnv_step h' s \<Longrightarrow> h = h'"
  by (induction s arbitrary: h h') (auto dest: fnv_step_inj_state)

lemma fnv32a_one_byte:
  "fnv32a (s @ a # t) = fnv32a (s @ b # t) \<longleftrightarrow> a = b"
  unfolding fnv32a_def by (auto dest: fnv_foldl_inj fnv_step_inj_byte)

section \<open>SHA-256\<close>

definition sha_k :: "w32 list" where
  "sha_k =
     [
      1116352408, 1899447441, 3049323471, 3921009573, 961987163, 1508970993, 2453635748, 2870763221,
      3624381080, 310598401, 607225278, 1426881987, 1925078388, 2162078206, 2614888103, 3248222580,
      3835390401, 4022224774, 264347078, 604807628, 770255983, 1249150122, 1555081692, 1996064986,
      2554220882, 2821834349, 2952996808, 3210313671, 3336571891, 3584528711, 113926993, 338241895,
      666307205, 773529912, 1294757372, 1396182291, 1695183700, 1986661051, 2177026350, 2456956037,
      2730485921, 2820302411, 3259730800, 3345764771, 3516065817, 3600352804, 4094571909, 275423344,
      430227734, 506948616, 659060556, 883997877, 958139571, 1322822218, 1537002063, 1747873779,
      1955562222, 2024104815, 2227730452, 2361852424, 2428436474, 2756734187, 3204031479, 3329325298]"

definition sha_init :: "w32 list" where
  "sha_init =
     [
      1779033703, 3144134277, 1013904242, 2773480762, 1359893119, 2600822924, 528734635, 1541459225]"

definition rotr :: "nat \<Rightarrow> w32 \<Rightarrow> w32" where
  "rotr n x = drop_bit n x OR push_bit (32 - n) x"

definition be_word :: "string \<Rightarrow> w32" where
  "be_word bs = foldl (\<lambda>h c. push_bit 8 h OR byte_word c) 0 bs"

fun chunks :: "nat \<Rightarrow> 'a list \<Rightarrow> 'a list list" where
  "chunks n [] = []"
| "chunks n (x # xs) = (if n = 0 then [x # xs] else take n (x # xs) # chunks n (drop n (x # xs)))"

definition be_bytes :: "nat \<Rightarrow> nat \<Rightarrow> string" where
  "be_bytes n x = map (\<lambda>i. char_of (x div 256 ^ (n - 1 - i))) [0 ..< n]"

text \<open>Padding: a one bit, zeros up to 56 modulo 64 bytes, and the length in bits.\<close>

definition sha_pad :: "string \<Rightarrow> string" where
  "sha_pad s =
     s @ [CHR 0x80] @ replicate ((119 - length s mod 64) mod 64) (CHR 0x00) @ be_bytes 8 (8 * length s)"

fun sha_schedule :: "nat \<Rightarrow> w32 list \<Rightarrow> w32 list" where
  "sha_schedule 0 ws = ws"
| "sha_schedule (Suc n) ws =
     (let i = length ws;
          a = ws ! (i - 15); b = ws ! (i - 2);
          s0 = rotr 7 a XOR rotr 18 a XOR drop_bit 3 a;
          s1 = rotr 17 b XOR rotr 19 b XOR drop_bit 10 b
      in sha_schedule n (ws @ [ws ! (i - 16) + s0 + ws ! (i - 7) + s1]))"

fun sha_round :: "w32 list \<Rightarrow> w32 \<times> w32 \<Rightarrow> w32 list" where
  "sha_round [a, b, c, d, e, f, g, h] (k, w) =
     (let s1 = rotr 6 e XOR rotr 11 e XOR rotr 25 e;
          ch = (e AND f) XOR (NOT e AND g);
          t1 = h + s1 + ch + k + w;
          s0 = rotr 2 a XOR rotr 13 a XOR rotr 22 a;
          maj = (a AND b) XOR (a AND c) XOR (b AND c)
      in [t1 + (s0 + maj), a, b, c, d + t1, e, f, g])"
| "sha_round st kw = st"

definition sha_block :: "w32 list \<Rightarrow> string \<Rightarrow> w32 list" where
  "sha_block st blk =
     map2 (+) st (foldl sha_round st (zip sha_k (sha_schedule 48 (map be_word (chunks 4 blk)))))"

definition sha256 :: "string \<Rightarrow> string" where
  "sha256 s = concat (map (\<lambda>w. be_bytes 4 (unat w)) (foldl sha_block sha_init (chunks 64 (sha_pad s))))"

lemma length_sha_round [simp]: "length (sha_round st kw) = length st"
  by (cases "(st, kw)" rule: sha_round.cases) (auto simp: Let_def)

lemma length_sha_rounds: "length (foldl sha_round st kws) = length st"
  by (induction kws arbitrary: st) auto

lemma length_sha_block [simp]: "length (sha_block st blk) = length st"
  by (simp add: sha_block_def length_sha_rounds)

lemma length_sha_blocks: "length (foldl sha_block st blks) = length st"
  by (induction blks arbitrary: st) auto

lemma length_be_bytes [simp]: "length (be_bytes n x) = n"
  by (simp add: be_bytes_def)

lemma length_sha256 [simp]: "length (sha256 s) = 32"
proof -
  have "length (concat (map (\<lambda>w. be_bytes 4 (unat w)) (ws :: w32 list))) = 4 * length ws" for ws
    by (induction ws) auto
  then show ?thesis by (simp add: sha256_def length_sha_blocks) (simp add: sha_init_def)
qed

section \<open>Hexadecimal and base64\<close>

definition hex_digit :: "nat \<Rightarrow> char" where
  "hex_digit n = (if n < 10 then char_of (48 + n) else char_of (87 + n))"

text \<open>\<open>%x\<close> on bytes.\<close>

definition hex_bytes :: "string \<Rightarrow> string" where
  "hex_bytes s = concat (map (\<lambda>c. [hex_digit (of_char c div 16), hex_digit (of_char c mod 16)]) s)"

definition b64_digit :: "nat \<Rightarrow> char" where
  "b64_digit n =
     (if n < 26 then char_of (65 + n) else if n < 52 then char_of (71 + n)
      else if n < 62 then char_of (n - 4) else if n = 62 then CHR ''+'' else CHR ''/'')"

fun base64 :: "string \<Rightarrow> string" where
  "base64 (a # b # c # s) =
     (let n = 65536 * of_char a + 256 * of_char b + of_char c
      in [b64_digit (n div 262144), b64_digit (n div 4096 mod 64), b64_digit (n div 64 mod 64), b64_digit (n mod 64)])
     @ base64 s"
| "base64 [a, b] =
     (let n = 65536 * of_char a + 256 * of_char b
      in [b64_digit (n div 262144), b64_digit (n div 4096 mod 64), b64_digit (n div 64 mod 64), CHR ''=''])"
| "base64 [a] =
     (let n = 65536 * of_char a
      in [b64_digit (n div 262144), b64_digit (n div 4096 mod 64), CHR ''='', CHR ''=''])"
| "base64 [] = []"

lemma base64_examples: "base64 ''Man'' = ''TWFu''" "base64 ''Ma'' = ''TWE=''" "base64 ''M'' = ''TQ==''"
  by (simp_all add: b64_digit_def char_of_def bit_0)

lemma hex_bytes_digits: "c \<in> set (hex_bytes s) \<Longrightarrow> \<exists>n < 16. c = hex_digit n"
proof -
  assume "c \<in> set (hex_bytes s)"
  then obtain b where "c = hex_digit (of_char b div 16) \<or> c = hex_digit (of_char b mod 16)"
    by (auto simp: hex_bytes_def)
  moreover have "of_char b < (256 :: nat)" by simp
  then have "of_char b div 16 < (16 :: nat)" by (intro less_mult_imp_div_less) simp
  ultimately show ?thesis by (metis mod_less_divisor zero_less_numeral)
qed

lemma length_hex_bytes [simp]: "length (hex_bytes s) = 2 * length s"
  by (induction s) (auto simp: hex_bytes_def)

section \<open>Network addresses\<close>

text \<open>The fields of \<open>url.URL\<close> that are read; parsing itself is a parameter of its users.\<close>

record gourl =
  u_scheme :: string
  u_host :: string

fun index_byte :: "char \<Rightarrow> string \<Rightarrow> nat option" where
  "index_byte c [] = None"
| "index_byte c (x # xs) = (if x = c then Some 0 else map_option Suc (index_byte c xs))"

fun last_index_byte :: "char \<Rightarrow> string \<Rightarrow> nat option" where
  "last_index_byte c [] = None"
| "last_index_byte c (x # xs) =
     (case last_index_byte c xs of Some i \<Rightarrow> Some (Suc i) | None \<Rightarrow> if x = c then Some 0 else None)"

text \<open>
  \<open>net.SplitHostPort\<close>: the port follows the last colon; a host with colons is in brackets.  \<open>None\<close> is
  an error.
\<close>

definition SplitHostPort :: "string \<Rightarrow> (string \<times> string) option" where
  "SplitHostPort hostport =
     (case last_index_byte (CHR '':'') hostport of
        None \<Rightarrow> None
      | Some i \<Rightarrow>
          (let bracketed = (hd hostport = CHR ''['');
               parts =
                 (if bracketed
                  then (case index_byte (CHR '']'') hostport of
                          None \<Rightarrow> None
                        | Some e \<Rightarrow>
                            if e + 1 = length hostport then None
                            else if e + 1 = i then Some (drop 1 (take e hostport), 1, e + 1)
                            else None)
                  else (if CHR '':'' \<in> set (take i hostport) then None else Some (take i hostport, 0, 0)))
           in case parts of
                None \<Rightarrow> None
              | Some (host, j, k) \<Rightarrow>
                  if CHR ''['' \<in> set (drop j hostport) then None
                  else if CHR '']'' \<in> set (drop k hostport) then None
                  else Some (host, drop (i + 1) hostport)))"

lemma last_index_byte_None [simp]: "last_index_byte c s = None \<longleftrightarrow> c \<notin> set s"
  by (induction s) (auto split: option.splits)

lemma last_index_byte_append: "c \<notin> set t \<Longrightarrow> last_index_byte c (s @ c # t) = Some (length s)"
  by (induction s) (auto split: option.splits)

lemma SplitHostPort_plain:
  assumes "host \<noteq> ''''" and "set host \<inter> {CHR '':'', CHR ''['', CHR '']''} = {}"
    and "set port \<inter> {CHR '':'', CHR ''['', CHR '']''} = {}"
  shows "SplitHostPort (host @ '':'' @ port) = Some (host, port)"
    and "SplitHostPort host = None"
proof -
  from assms(3) have "last_index_byte (CHR '':'') (host @ CHR '':'' # port) = Some (length host)"
    by (intro last_index_byte_append) auto
  moreover from assms(1,2) have "hd (host @ CHR '':'' # port) \<noteq> CHR ''[''"
    by (cases host) auto
  ultimately show "SplitHostPort (host @ '':'' @ port) = Some (host, port)"
    using assms by (auto simp: SplitHostPort_def Let_def)
  from assms(2) have "last_index_byte (CHR '':'') host = None"
    by auto
  then show "SplitHostPort host = None"
    by (simp only: SplitHostPort_def option.case)
qed

end
