(* ===== verification/Argo_Driver.thy ===== *)
theory Argo_Driver
  imports Api_Types Go_Stdlib
begin

text \<open>
  Continuous deployment: the driver-agnostic types of \<open>pkg/cd\<close>, the Argo application of
  \<open>pkg/apis/argoproj\<close>, and the ArgoCD driver of \<open>pkg/cd/argocd\<close>.  The Kubernetes client is a
  record of accesses; a write returns the object as the server stored it, which is what the client
  leaves in the object it was given.  The locale \<open>cd_driver\<close> is what the provisioners rely on; it
  is interpreted on the driver at the end.
\<close>

section \<open>Driver-agnostic types (pkg/cd/types.go)\<close>

record rid =
  rid_name :: string
  rid_labels :: "(string \<times> string) list"

record ignore_field =
  if_group :: string
  if_kind :: string
  if_pointers :: "string list"

text \<open>
  \<open>Values\<close> is any value that can be marshalled; its type is a parameter.  A nil map of namespace
  labels is told apart from an empty one.
\<close>

record 'y cd_application =
  ca_repo :: string
  ca_chart :: string
  ca_branch :: string
  ca_path :: string
  ca_version :: string
  ca_release :: string
  ca_parameters :: "param list"
  ca_values :: "'y option"
  ca_cluster :: "rid option"
  ca_namespace :: string
  ca_createNamespace :: bool
  ca_nsLabels :: "smap option"
  ca_nsAnnotations :: "smap option"
  ca_ignoreDifferences :: "ignore_field list"
  ca_serverSideApply :: bool
  ca_allowDegraded :: bool

datatype health_status = HealthStatusUnknown | HealthStatusHealthy | HealthStatusDegraded

section \<open>Argo applications (pkg/apis/argoproj/v1alpha1/types.go)\<close>

record source_helm =
  sh_releaseName :: string
  sh_values :: string
  sh_parameters :: "param list"

record app_source =
  as_repoURL :: string
  as_chart :: string
  as_path :: string
  as_targetRevision :: string
  as_helm :: "source_helm option"

record app_destination =
  ad_name :: string
  ad_namespace :: string

record sync_automation =
  sa_selfHeal :: bool
  sa_prune :: bool

record sync_policy =
  sp_syncOptions :: "string list"
  sp_automated :: "sync_automation option"
  sp_nsMetadata :: "(smap option \<times> smap option) option"

record app_spec =
  sp_project :: string
  sp_source :: app_source
  sp_destination :: app_destination
  sp_syncPolicy :: sync_policy
  sp_ignoreDifferences :: "ignore_field list"

text \<open>The status: the health and sync status strings, \<open>None\<close> where the pointer is nil.\<close>

record app_status =
  st_health :: "string option"
  st_sync :: "string option"

record argo_app = objmeta +
  aa_spec :: app_spec
  aa_status :: app_status

definition ArgoHealthy :: string where "ArgoHealthy = ''Healthy''"
definition ArgoDegraded :: string where "ArgoDegraded = ''Degraded''"
definition ArgoSynced :: string where "ArgoSynced = ''Synced''"
definition ArgoCreateNamespace :: string where "ArgoCreateNamespace = ''CreateNamespace=true''"
definition ArgoServerSideApply :: string where "ArgoServerSideApply = ''ServerSideApply=true''"

lemmas argo_strings = ArgoHealthy_def ArgoDegraded_def ArgoSynced_def

section \<open>The world the driver talks to\<close>

text \<open>Kubernetes configuration (\<open>clientcmdapi.Config\<close>); a nil byte slice is \<open>None\<close>.\<close>

record kube_context =
  kc_cluster :: string
  kc_authInfo :: string

record kube_cluster =
  kl_server :: string
  kl_caData :: "string option"

record kube_auth =
  ka_certData :: "string option"
  ka_keyData :: "string option"

record kube_config =
  cfg_currentContext :: string
  cfg_contexts :: "(string, kube_context) fmap"
  cfg_clusters :: "(string, kube_cluster) fmap"
  cfg_authInfos :: "(string, kube_auth) fmap"

record cd_cluster =
  cl_config :: "kube_config option"
  cl_prefix :: string

record secret = objmeta +
  se_data :: smap

text \<open>
  Every access is confined to one namespace by the driver.  \<open>dc_CreateOrPatchSecret\<close> is
  \<open>controllerutil.CreateOrPatch\<close>, which applies the mutation to the current object or to a new
  one; \<open>dc_Connect\<close> is the API tester of the options.
\<close>

record 'w dclient =
  dc_ListApps :: "string \<Rightarrow> smap \<Rightarrow> 'w \<Rightarrow> argo_app list result \<times> 'w"
  dc_CreateApp :: "argo_app \<Rightarrow> 'w \<Rightarrow> argo_app result \<times> 'w"
  dc_PatchApp :: "argo_app \<Rightarrow> argo_app \<Rightarrow> 'w \<Rightarrow> argo_app result \<times> 'w"
  dc_DeleteApp :: "argo_app \<Rightarrow> 'w \<Rightarrow> unit result \<times> 'w"
  dc_ListSecrets :: "string \<Rightarrow> smap \<Rightarrow> 'w \<Rightarrow> secret list result \<times> 'w"
  dc_GetSecret :: "string \<Rightarrow> string \<Rightarrow> 'w \<Rightarrow> secret result \<times> 'w"
  dc_CreateOrPatchSecret :: "string \<Rightarrow> string \<Rightarrow> (secret \<Rightarrow> secret) \<Rightarrow> 'w \<Rightarrow> unit result \<times> 'w"
  dc_DeleteSecret :: "secret \<Rightarrow> 'w \<Rightarrow> unit result \<times> 'w"
  dc_Connect :: "kube_config \<Rightarrow> 'w \<Rightarrow> unit result \<times> 'w"

definition argo_namespace :: string where "argo_namespace = ''argocd''"

section \<open>Names and labels\<close>

definition clusterName :: "rid \<Rightarrow> string" where
  "clusterName i =
     (if length (rid_labels i) \<noteq> 0
      then rid_name i @ ''-'' @ str_join '':'' (map snd (rid_labels i))
      else rid_name i)"

definition add_labels :: "smap \<Rightarrow> (string \<times> string) list \<Rightarrow> smap" where
  "add_labels m ls = foldl (\<lambda>m l. fmupd (fst l) (snd l) m) m ls"

definition applicationLabels :: "rid \<Rightarrow> smap" where
  "applicationLabels i = add_labels (fmupd ApplicationLabel (rid_name i) fmempty) (rid_labels i)"

definition applicationLabelsForOwningResource :: "rid \<Rightarrow> smap" where
  "applicationLabelsForOwningResource i = add_labels fmempty (rid_labels i)"

text \<open>
  \<open>walk\<close> is the order in which \<open>range\<close> visits the label map.
\<close>

definition convertApplicationID :: "(smap \<Rightarrow> (string \<times> string) list) \<Rightarrow> argo_app \<Rightarrow> rid" where
  "convertApplicationID walk a =
     \<lparr>rid_name = str_at (om_labels a) ApplicationLabel,
      rid_labels = walk (fmdrop ApplicationLabel (om_labels a))\<rparr>"

definition empty_application :: "'y cd_application" where
  "empty_application =
     \<lparr>ca_repo = '''', ca_chart = '''', ca_branch = '''', ca_path = '''', ca_version = '''', ca_release = '''',
      ca_parameters = [], ca_values = None, ca_cluster = None, ca_namespace = '''', ca_createNamespace = False,
      ca_nsLabels = None, ca_nsAnnotations = None, ca_ignoreDifferences = [], ca_serverSideApply = False,
      ca_allowDegraded = False\<rparr>"

definition convertApplication :: "argo_app \<Rightarrow> 'y cd_application" where
  "convertApplication a =
     (let src = sp_source (aa_spec a);
          out = empty_application\<lparr>ca_repo := as_repoURL src, ca_chart := as_chart src, ca_path := as_path src\<rparr>;
          out = (if as_chart src \<noteq> '''' then out\<lparr>ca_version := as_targetRevision src\<rparr> else out)
      in if as_path src \<noteq> '''' then out\<lparr>ca_branch := as_targetRevision src\<rparr> else out)"

text \<open>The keys of the map are fresh pointers, so no two entries of the list fall together.\<close>

definition convertApplicationList ::
    "(smap \<Rightarrow> (string \<times> string) list) \<Rightarrow> argo_app list \<Rightarrow> (rid \<times> 'y cd_application) list" where
  "convertApplicationList walk items = map (\<lambda>a. (convertApplicationID walk a, convertApplication a)) items"

section \<open>Reading\<close>

fun health_of :: "argo_app list \<Rightarrow> health_status" where
  "health_of [] = HealthStatusHealthy"
| "health_of (a # as) =
     (case st_health (aa_status a) of
        None \<Rightarrow> HealthStatusUnknown
      | Some h \<Rightarrow> if h \<noteq> ArgoHealthy then HealthStatusDegraded else health_of as)"

definition GetHealthStatus :: "'w dclient \<Rightarrow> rid \<Rightarrow> ('w, health_status) proc" where
  "GetHealthStatus cl i =
     bindP (call (dc_ListApps cl argo_namespace (applicationLabelsForOwningResource i)))
       (\<lambda>items. return (health_of items))"

definition ListHelmApplications ::
    "'w dclient \<Rightarrow> (smap \<Rightarrow> (string \<times> string) list) \<Rightarrow> rid \<Rightarrow> ('w, (rid \<times> 'y cd_application) list) proc" where
  "ListHelmApplications cl walk i =
     bindP (call (dc_ListApps cl argo_namespace (applicationLabelsForOwningResource i)))
       (\<lambda>items. return (convertApplicationList walk items))"

definition GetHelmApplication :: "'w dclient \<Rightarrow> rid \<Rightarrow> ('w, argo_app) proc" where
  "GetHelmApplication cl i =
     bindP (call (dc_ListApps cl argo_namespace (applicationLabels i))) (\<lambda>items.
       if length items = 0 then throw (Sentinel CdErrNotFound)
       else if length items > 1 then throw (Sentinel ErrItemLengthMismatch)
       else return (items ! 0))"

section \<open>Applications\<close>

definition generateApplication ::
    "('y \<Rightarrow> string result) \<Rightarrow> rid \<Rightarrow> 'y cd_application \<Rightarrow> argo_app result" where
  "generateApplication yaml i app =
     bind_outcome (case ca_values app of None \<Rightarrow> Ok '''' | Some v \<Rightarrow> yaml v) (\<lambda>values.
       let helm = \<lparr>sh_releaseName = ca_release app, sh_values = values, sh_parameters = ca_parameters app\<rparr>;
           destinationName = (case ca_cluster app of None \<Rightarrow> ''in-cluster'' | Some c \<Rightarrow> clusterName c);
           version = (if ca_branch app \<noteq> '''' then ca_branch app else ca_version app);
           syncOptions =
             (if ca_createNamespace app then [ArgoCreateNamespace] else []) @
             (if ca_serverSideApply app then [ArgoServerSideApply] else [])
       in Ok
         \<lparr>om_name = '''', om_generateName = rid_name i @ ''-'', om_namespace = argo_namespace,
          om_labels = applicationLabels i, om_annotations = fmempty, om_finalizers = [],
          om_creationTimestamp = zero_time, om_deletionTimestamp = None, om_generation = 0, om_resourceVersion = '''',
          aa_spec =
            \<lparr>sp_project = ''default'',
             sp_source =
               \<lparr>as_repoURL = ca_repo app, as_chart = ca_chart app, as_path = ca_path app,
                as_targetRevision = version,
                as_helm =
                  (if sh_releaseName helm = '''' \<and> sh_values helm = '''' \<and> sh_parameters helm = []
                   then None else Some helm)\<rparr>,
             sp_destination = \<lparr>ad_name = destinationName, ad_namespace = ca_namespace app\<rparr>,
             sp_syncPolicy =
               \<lparr>sp_syncOptions = syncOptions,
                sp_automated = Some \<lparr>sa_selfHeal = True, sa_prune = True\<rparr>,
                sp_nsMetadata =
                  (if ca_nsLabels app \<noteq> None \<or> ca_nsAnnotations app \<noteq> None
                   then Some (ca_nsLabels app, ca_nsAnnotations app) else None)\<rparr>,
             sp_ignoreDifferences = ca_ignoreDifferences app\<rparr>,
          aa_status = \<lparr>st_health = None, st_sync = None\<rparr>\<rparr>)"

text \<open>The verdict on a stored application, after a successful write.\<close>

definition application_ready :: "bool \<Rightarrow> argo_app \<Rightarrow> unit result" where
  "application_ready allowDegraded resource =
     (if st_sync (aa_status resource) \<noteq> Some ArgoSynced then Err (Sentinel ErrYield)
      else case st_health (aa_status resource) of
        None \<Rightarrow> Err (Sentinel ErrYield)
      | Some h \<Rightarrow>
          if allowDegraded \<and> h = ArgoDegraded then Ok ()
          else if h \<noteq> ArgoHealthy then Err (Sentinel ErrYield)
          else Ok ())"

definition CreateOrUpdateHelmApplication ::
    "'w dclient \<Rightarrow> ('y \<Rightarrow> string result) \<Rightarrow> rid \<Rightarrow> 'y cd_application \<Rightarrow> ('w, unit) proc" where
  "CreateOrUpdateHelmApplication cl yaml i app =
     bindP (Ret (generateApplication yaml i app)) (\<lambda>required.
     bindP (bindR (GetHelmApplication cl i) (\<lambda>r.
              case r of
                Ok a \<Rightarrow> return (Some a)
              | Err e \<Rightarrow> if \<not> errors_Is e CdErrNotFound then throw e else return None
              | Panic \<Rightarrow> Ret Panic)) (\<lambda>found.
     bindP (case found of
              None \<Rightarrow> call (dc_CreateApp cl required)
            | Some resource \<Rightarrow>
                call (dc_PatchApp cl
                  (resource\<lparr>om_labels := om_labels required, aa_spec := aa_spec required\<rparr>) resource))
       (\<lambda>resource. Ret (application_ready (ca_allowDegraded app) resource))))"

definition argo_finalizer :: string where
  "argo_finalizer = ''resources-finalizer.argocd.argoproj.io''"

definition release_for_deletion :: "argo_app \<Rightarrow> argo_app" where
  "release_for_deletion resource =
     resource\<lparr>om_finalizers := [argo_finalizer],
       aa_spec := (aa_spec resource)\<lparr>sp_syncPolicy := (sp_syncPolicy (aa_spec resource))\<lparr>sp_automated := None\<rparr>\<rparr>\<rparr>"

definition DeleteHelmApplication :: "'w dclient \<Rightarrow> rid \<Rightarrow> bool \<Rightarrow> ('w, unit) proc" where
  "DeleteHelmApplication cl i backgroundDelete =
     bindR (GetHelmApplication cl i) (\<lambda>r.
       case r of
         Err e \<Rightarrow> if errors_Is e CdErrNotFound then return () else throw e
       | Panic \<Rightarrow> Ret Panic
       | Ok resource \<Rightarrow>
           if om_deletionTimestamp resource \<noteq> None
           then (if backgroundDelete then return () else throw (Sentinel ErrYield))
           else
             bindP (call (dc_PatchApp cl (release_for_deletion resource) resource)) (\<lambda>_.
             bindP (call (dc_DeleteApp cl resource)) (\<lambda>_.
             if \<not> backgroundDelete then throw (Sentinel ErrYield) else return ())))"

section \<open>Clusters\<close>

text \<open>
  \<open>url_parse\<close> stands for \<open>url.Parse\<close>: it answers with the parsed URL.
\<close>

definition clusterSecretName :: "(string \<Rightarrow> gourl result) \<Rightarrow> string \<Rightarrow> string \<Rightarrow> string result" where
  "clusterSecretName url_parse host pfx =
     (let pfx = (if pfx = '''' then ''cluster'' else pfx)
      in bind_outcome (url_parse host) (\<lambda>url.
           Ok (pfx @ ''-'' @ hd (str_split (CHR '':'') (u_host url)) @ ''-'' @ show_nat (unat (fnv32a host)))))"

definition clusterLabel :: "rid \<Rightarrow> string" where
  "clusterLabel i = ''cluster-'' @ hex_bytes (take 8 (sha256 (clusterName i)))"

definition json_bytes :: "string option \<Rightarrow> string" where
  "json_bytes b = (case b of None \<Rightarrow> ''null'' | Some s \<Rightarrow> [CHR 0x22] @ base64 s @ [CHR 0x22])"

definition json_field :: "string \<Rightarrow> string \<Rightarrow> string" where
  "json_field k v = [CHR 0x22] @ k @ [CHR 0x22] @ '':'' @ v"

definition cluster_config_json :: "string option \<Rightarrow> string option \<Rightarrow> string option \<Rightarrow> string" where
  "cluster_config_json ca cert key =
     ''{'' @ json_field ''tlsClientConfig''
       (''{'' @ json_field ''caData'' (json_bytes ca) @ '','' @ json_field ''certData'' (json_bytes cert) @ '',''
        @ json_field ''keyData'' (json_bytes key) @ ''}'') @ ''}''"

definition GetClusterSecret :: "'w dclient \<Rightarrow> rid \<Rightarrow> ('w, secret) proc" where
  "GetClusterSecret cl i =
     bindP (call (dc_ListSecrets cl argo_namespace (fmupd ApplicationIDLabel (clusterLabel i) fmempty))) (\<lambda>items.
       if length items = 0 then throw (Sentinel CdErrNotFound)
       else if length items > 1 then throw (Sentinel ErrItemLengthMismatch)
       else return (items ! 0))"

definition mustateSecret :: "smap \<Rightarrow> smap \<Rightarrow> secret \<Rightarrow> secret" where
  "mustateSecret labels data current = current\<lparr>om_labels := labels, se_data := data\<rparr>"

definition secret_labels :: "rid \<Rightarrow> smap" where
  "secret_labels i =
     fmupd ApplicationIDLabel (clusterLabel i) (fmupd ''argocd.argoproj.io/secret-type'' ''cluster'' fmempty)"

definition secret_data :: "rid \<Rightarrow> kube_cluster \<Rightarrow> kube_auth \<Rightarrow> smap" where
  "secret_data i clusterConfig authInfo =
     fmupd ''config'' (cluster_config_json (kl_caData clusterConfig) (ka_certData authInfo) (ka_keyData authInfo))
       (fmupd ''server'' (kl_server clusterConfig) (fmupd ''name'' (clusterName i) fmempty))"

text \<open>
  Only when the secret does not exist yet is the cluster's API tried.  A nil map entry is
  dereferenced without a check: that is a panic.
\<close>

definition await_cluster :: "'w dclient \<Rightarrow> kube_config \<Rightarrow> string \<Rightarrow> ('w, unit) proc" where
  "await_cluster cl config secretName =
     bindR (call (dc_GetSecret cl argo_namespace secretName)) (\<lambda>r.
       case r of
         Ok _ \<Rightarrow> return ()
       | Panic \<Rightarrow> Ret Panic
       | Err e \<Rightarrow>
           if \<not> IsNotFound e then throw e
           else bindR (call (dc_Connect cl config)) (\<lambda>r.
             case r of
               Ok _ \<Rightarrow> return ()
             | Err e \<Rightarrow> if \<not> errors_Is e ErrK8SConnectionError then throw e else throw (Sentinel ErrYield)
             | Panic \<Rightarrow> Ret Panic))"

definition CreateOrUpdateCluster ::
    "'w dclient \<Rightarrow> (string \<Rightarrow> gourl result) \<Rightarrow> rid \<Rightarrow> cd_cluster \<Rightarrow> ('w, unit) proc" where
  "CreateOrUpdateCluster cl url_parse i cluster =
     (case cl_config cluster of
        None \<Rightarrow> Ret Panic
      | Some config \<Rightarrow>
     (case fmlookup (cfg_contexts config) (cfg_currentContext config) of
        None \<Rightarrow> Ret Panic
      | Some configContext \<Rightarrow>
     (case fmlookup (cfg_clusters config) (kc_cluster configContext) of
        None \<Rightarrow> Ret Panic
      | Some clusterConfig \<Rightarrow>
          bindP (Ret (clusterSecretName url_parse (kl_server clusterConfig) (cl_prefix cluster))) (\<lambda>secretName.
          bindP (await_cluster cl config secretName) (\<lambda>_.
          case fmlookup (cfg_authInfos config) (kc_authInfo configContext) of
            None \<Rightarrow> Ret Panic
          | Some authInfo \<Rightarrow>
              call (dc_CreateOrPatchSecret cl argo_namespace secretName
                (mustateSecret (secret_labels i) (secret_data i clusterConfig authInfo))))))))"

definition DeleteCluster :: "'w dclient \<Rightarrow> rid \<Rightarrow> ('w, unit) proc" where
  "DeleteCluster cl i =
     bindR (GetClusterSecret cl i) (\<lambda>r.
       case r of
         Err e \<Rightarrow> if \<not> errors_Is e CdErrNotFound then throw e else return ()
       | Panic \<Rightarrow> Ret Panic
       | Ok resource \<Rightarrow> call (dc_DeleteSecret cl resource))"

section \<open>Lookups\<close>

lemma run_GetHelmApplication:
  "run (GetHelmApplication cl i) w =
     (case dc_ListApps cl argo_namespace (applicationLabels i) w of
        (Ok [], w1) \<Rightarrow> (Err (Sentinel CdErrNotFound), w1)
      | (Ok [a], w1) \<Rightarrow> (Ok a, w1)
      | (Ok (_ # _ # _), w1) \<Rightarrow> (Err (Sentinel ErrItemLengthMismatch), w1)
      | (Err e, w1) \<Rightarrow> (Err e, w1)
      | (Panic, w1) \<Rightarrow> (Panic, w1))"
  by (auto simp: GetHelmApplication_def run_bindP split: prod.splits outcome.splits list.splits)

text \<open>What is returned once the write has been answered.\<close>

definition after_write :: "bool \<Rightarrow> argo_app result \<times> 'w \<Rightarrow> unit result \<times> 'w" where
  "after_write d rw =
     (case rw of
        (Ok a, w) \<Rightarrow> (application_ready d a, w) | (Err e, w) \<Rightarrow> (Err e, w) | (Panic, w) \<Rightarrow> (Panic, w))"

lemma run_after_write:
  "run (bindP (call f) (\<lambda>a. Ret (application_ready d a))) w = after_write d (f w)"
  by (simp add: run_bindP after_write_def split: prod.splits outcome.splits)

lemma run_CreateOrUpdateHelmApplication:
  assumes "generateApplication yaml i app = Ok required"
  shows "run (CreateOrUpdateHelmApplication cl yaml i app) w =
     (case dc_ListApps cl argo_namespace (applicationLabels i) w of
        (Ok [], w1) \<Rightarrow> after_write (ca_allowDegraded app) (dc_CreateApp cl required w1)
      | (Ok [a], w1) \<Rightarrow>
          after_write (ca_allowDegraded app)
            (dc_PatchApp cl (a\<lparr>om_labels := om_labels required, aa_spec := aa_spec required\<rparr>) a w1)
      | (Ok (_ # _ # _), w1) \<Rightarrow> (Err (Sentinel ErrItemLengthMismatch), w1)
      | (Err e, w1) \<Rightarrow>
          if errors_Is e CdErrNotFound
          then after_write (ca_allowDegraded app) (dc_CreateApp cl required w1) else (Err e, w1)
      | (Panic, w1) \<Rightarrow> (Panic, w1))"
proof -
  let ?k = "\<lambda>found. bindP (case found of
       None \<Rightarrow> call (dc_CreateApp cl required)
     | Some a \<Rightarrow> call (dc_PatchApp cl (a\<lparr>om_labels := om_labels required, aa_spec := aa_spec required\<rparr>) a))
     (\<lambda>a. Ret (application_ready (ca_allowDegraded app) a))"
  let ?p = "bindR (GetHelmApplication cl i) (\<lambda>r. case r of
       Ok a \<Rightarrow> return (Some a) | Err e \<Rightarrow> if \<not> errors_Is e CdErrNotFound then throw e else return None
     | Panic \<Rightarrow> Ret Panic)"
  obtain r w1 where l: "dc_ListApps cl argo_namespace (applicationLabels i) w = (r, w1)"
    by (cases "dc_ListApps cl argo_namespace (applicationLabels i) w")
  have "run (CreateOrUpdateHelmApplication cl yaml i app) w = run (bindP ?p ?k) w"
    by (simp add: CreateOrUpdateHelmApplication_def assms)
  also have "\<dots> = (case run ?p w of (Ok x, w1) \<Rightarrow> run (?k x) w1 | (Err e, w1) \<Rightarrow> (Err e, w1) | (Panic, w1) \<Rightarrow> (Panic, w1))"
    by (rule run_bindP)
  finally show ?thesis
    by (cases r) (auto simp: l run_bindR run_GetHelmApplication run_after_write split: list.splits)
qed

lemma after_write_Ok:
  "after_write d rw = (Ok (), w') \<longleftrightarrow>
     (\<exists>a h. rw = (Ok a, w') \<and> st_sync (aa_status a) = Some ArgoSynced \<and> st_health (aa_status a) = Some h \<and>
        (h = ArgoHealthy \<or> (d \<and> h = ArgoDegraded)))"
  by (auto simp: after_write_def application_ready_def split: prod.splits outcome.splits option.splits)

text \<open>
  C14: an application counts as provisioned only on the server's word: creating or updating one
  returns nil exactly when the identifier matched at most one application, the create (for none) or
  the patch (for one) of the required specification was accepted, and the answer of that write says
  synced and healthy, or synced and degraded where degraded is allowed.
\<close>

theorem CreateOrUpdateHelmApplication_Ok_iff:
  assumes "dc_ListApps cl argo_namespace (applicationLabels i) w = (Ok items, w1)"
  shows "run (CreateOrUpdateHelmApplication cl yaml i app) w = (Ok (), w') \<longleftrightarrow>
     (\<exists>required resource h.
        generateApplication yaml i app = Ok required \<and>
        (case items of
           [] \<Rightarrow> dc_CreateApp cl required w1 = (Ok resource, w')
         | [a] \<Rightarrow> dc_PatchApp cl (a\<lparr>om_labels := om_labels required, aa_spec := aa_spec required\<rparr>) a w1 = (Ok resource, w')
         | _ \<Rightarrow> False) \<and>
        st_sync (aa_status resource) = Some ArgoSynced \<and> st_health (aa_status resource) = Some h \<and>
        (h = ArgoHealthy \<or> (ca_allowDegraded app \<and> h = ArgoDegraded)))"
proof (cases "generateApplication yaml i app")
  case (Ok required)
  with assms show ?thesis
    by (auto simp: run_CreateOrUpdateHelmApplication [OF Ok] after_write_Ok split: list.splits)
qed (auto simp: CreateOrUpdateHelmApplication_def)

text \<open>
  Two or more applications under one identifier are never touched: the operation and the deletion
  both report the mismatch right after the listing.
\<close>

theorem ambiguous_application_untouched:
  assumes "dc_ListApps cl argo_namespace (applicationLabels i) w = (Ok (a # b # items), w1)"
    and "generateApplication yaml i app = Ok required"
  shows "run (CreateOrUpdateHelmApplication cl yaml i app) w = (Err (Sentinel ErrItemLengthMismatch), w1) \<and>
     run (DeleteHelmApplication cl i bg) w = (Err (Sentinel ErrItemLengthMismatch), w1)"
  using assms
  by (simp add: run_CreateOrUpdateHelmApplication DeleteHelmApplication_def run_bindR run_GetHelmApplication)

section \<open>Deletion\<close>

text \<open>
  C15: foreground deletion reports success only once the application is gone.  While it exists the
  answer is a yield at best: a live application is first patched (the finalizer that makes Argo
  delete its resources, automated sync off) and then deleted, in that order; one already being
  deleted is left alone.
\<close>

theorem DeleteHelmApplication_foreground:
  assumes "dc_ListApps cl argo_namespace (applicationLabels i) w = (Ok items, w1)"
  shows "run (DeleteHelmApplication cl i False) w =
     (case items of
        [] \<Rightarrow> (Ok (), w1)
      | [a] \<Rightarrow>
          (if om_deletionTimestamp a \<noteq> None then (Err (Sentinel ErrYield), w1)
           else case dc_PatchApp cl (release_for_deletion a) a w1 of
             (Ok _, w2) \<Rightarrow>
               (case dc_DeleteApp cl a w2 of
                  (Ok _, w3) \<Rightarrow> (Err (Sentinel ErrYield), w3) | (Err e, w3) \<Rightarrow> (Err e, w3) | (Panic, w3) \<Rightarrow> (Panic, w3))
           | (Err e, w2) \<Rightarrow> (Err e, w2)
           | (Panic, w2) \<Rightarrow> (Panic, w2))
      | _ \<Rightarrow> (Err (Sentinel ErrItemLengthMismatch), w1))"
  using assms
  by (simp add: DeleteHelmApplication_def run_bindR run_bindP run_GetHelmApplication
      split: list.splits prod.splits outcome.splits)

section \<open>Identifiers and labels\<close>

text \<open>An identifier whose label names are distinct and leave the application label alone.\<close>

definition proper_rid :: "rid \<Rightarrow> bool" where
  "proper_rid i \<longleftrightarrow> distinct (map fst (rid_labels i)) \<and> ApplicationLabel \<notin> set (map fst (rid_labels i))"

lemma add_labels_lookup:
  "distinct (map fst ls) \<Longrightarrow>
   fmlookup (add_labels m ls) k = (case map_of ls k of None \<Rightarrow> fmlookup m k | Some v \<Rightarrow> Some v)"
  unfolding add_labels_def by (rule foldl_fmupd_lookup)

lemma applicationLabels_lookup:
  assumes "proper_rid i"
  shows "fmlookup (applicationLabels i) k =
     (if k = ApplicationLabel then Some (rid_name i) else map_of (rid_labels i) k)"
proof -
  from assms have "map_of (rid_labels i) ApplicationLabel = None"
    by (simp add: proper_rid_def map_of_eq_None_iff)
  then show ?thesis
    using assms by (auto simp: applicationLabels_def add_labels_lookup proper_rid_def split: option.splits)
qed

text \<open>
  C18: what was deployed can be read back: listing an application generated for a proper identifier
  gives the same name and the same labels in some order, the same repository, chart and path, and
  the revision as version of a chart or as branch of a path.
\<close>

theorem generateApplication_convert:
  assumes "proper_rid i" and "generateApplication yaml i app = Ok a" and "\<forall>m. walk_of m (walk m)"
  shows "rid_name (convertApplicationID walk a) = rid_name i \<and>
     mset (rid_labels (convertApplicationID walk a)) = mset (rid_labels i) \<and>
     ca_repo (convertApplication a) = ca_repo app \<and> ca_chart (convertApplication a) = ca_chart app \<and>
     ca_path (convertApplication a) = ca_path app \<and>
     (ca_chart app \<noteq> '''' \<and> ca_branch app = '''' \<longrightarrow> ca_version (convertApplication a) = ca_version app) \<and>
     (ca_path app \<noteq> '''' \<and> ca_branch app \<noteq> '''' \<longrightarrow> ca_branch (convertApplication a) = ca_branch app)"
proof -
  from assms(2) have l: "om_labels a = applicationLabels i"
    by (auto simp: generateApplication_def bind_outcome_Ok_iff Let_def)
  have nm: "rid_name (convertApplicationID walk a) = rid_name i"
    by (simp add: convertApplicationID_def l str_at_def applicationLabels_lookup [OF assms(1)])
  have drp: "fmdrop ApplicationLabel (applicationLabels i) = fmap_of_list (rid_labels i)"
  proof (rule fmap_ext)
    fix k
    show "fmlookup (fmdrop ApplicationLabel (applicationLabels i)) k = fmlookup (fmap_of_list (rid_labels i)) k"
      using assms(1) by (auto simp: applicationLabels_lookup [OF assms(1)] fmlookup_of_list proper_rid_def map_of_eq_None_iff eq_commute [of None])
  qed
  from drp assms(1) have wl: "walk_of (fmdrop ApplicationLabel (om_labels a)) (rid_labels i)"
    by (simp add: l walk_of_def proper_rid_def)
  have "mset (rid_labels (convertApplicationID walk a)) = mset (rid_labels i)"
    using walk_of_perm [OF assms(3) [rule_format] wl] by (simp add: convertApplicationID_def)
  with nm show ?thesis
    using assms(2)
    by (auto simp: generateApplication_def convertApplication_def empty_application_def
        bind_outcome_Ok_iff Let_def)
qed

section \<open>Health\<close>

text \<open>
  The overall health is healthy exactly when every application of the owner has a health and it
  is Healthy; otherwise the first application that is not so decides between unknown and degraded.
\<close>

theorem health_of_spec:
  "(health_of as = HealthStatusHealthy \<longleftrightarrow> (\<forall>a \<in> set as. st_health (aa_status a) = Some ArgoHealthy)) \<and>
   (health_of as = HealthStatusUnknown \<longleftrightarrow>
     (\<exists>xs a ys. as = xs @ a # ys \<and> st_health (aa_status a) = None \<and>
        (\<forall>x \<in> set xs. st_health (aa_status x) = Some ArgoHealthy)))"
proof -
  have h: "health_of as = HealthStatusHealthy \<longleftrightarrow> (\<forall>a \<in> set as. st_health (aa_status a) = Some ArgoHealthy)"
    by (induction as) (auto split: option.splits)
  have u: "health_of (xs @ a # ys) = HealthStatusUnknown"
    if "st_health (aa_status a) = None" "\<forall>x \<in> set xs. st_health (aa_status x) = Some ArgoHealthy" for xs a ys
    using that by (induction xs) auto
  have "\<exists>xs a ys. as = xs @ a # ys \<and> st_health (aa_status a) = None \<and>
        (\<forall>x \<in> set xs. st_health (aa_status x) = Some ArgoHealthy)" if "health_of as = HealthStatusUnknown"
    using that
  proof (induction as)
    case Nil
    then show ?case by simp
  next
    case (Cons a as)
    show ?case
    proof (cases "st_health (aa_status a)")
      case None
      then show ?thesis by (intro exI [of _ "[]"]) auto
    next
      case (Some h)
      with Cons.prems have h: "h = ArgoHealthy" and "health_of as = HealthStatusUnknown"
        by (auto split: if_splits)
      then obtain xs b ys where "as = xs @ b # ys" "st_health (aa_status b) = None"
        "\<forall>x \<in> set xs. st_health (aa_status x) = Some ArgoHealthy"
        using Cons.IH by blast
      with Some h show ?thesis by (intro exI [of _ "a # xs"]) auto
    qed
  qed
  with u h show ?thesis by blast
qed

section \<open>Cluster secrets\<close>

lemma length_clusterLabel: "length (clusterLabel i) = 24"
  by (simp add: clusterLabel_def)

text \<open>
  Remote servers whose addresses differ in a single byte are kept in different secrets (under one
  prefix and host name), because the hash in the name tells them apart.
\<close>

theorem clusterSecretName_one_byte:
  assumes "clusterSecretName url_parse (s @ a # t) pfx = Ok n1"
    and "clusterSecretName url_parse (s @ b # t) pfx = Ok n2"
    and "url_parse (s @ a # t) = url_parse (s @ b # t)" and "a \<noteq> b"
  shows "n1 \<noteq> n2"
proof
  assume "n1 = n2"
  with assms(1,2,3) have "show_nat (unat (fnv32a (s @ a # t))) = show_nat (unat (fnv32a (s @ b # t)))"
    by (auto simp: clusterSecretName_def bind_outcome_Ok_iff Let_def)
  then have "fnv32a (s @ a # t) = fnv32a (s @ b # t)"
    by (blast dest: show_nat_inj word_unat_eq_iff [THEN iffD2])
  with assms(4) show False by (simp add: fnv32a_one_byte)
qed

text \<open>
  A remote cluster is registered exactly when the kubeconfig holds the current context with its
  cluster and user, the secret's name could be derived, the secret exists already or the cluster's
  API answered, and the secret was written with labels and data that are a function of the
  identifier and the kubeconfig; a current context that is not there is a panic before any access.
\<close>

theorem CreateOrUpdateCluster_Ok_iff:
  "(run (CreateOrUpdateCluster cl url_parse i cluster) w = (Ok (), w') \<longleftrightarrow>
     (\<exists>config c clusterConfig authInfo n w1.
        cl_config cluster = Some config \<and>
        fmlookup (cfg_contexts config) (cfg_currentContext config) = Some c \<and>
        fmlookup (cfg_clusters config) (kc_cluster c) = Some clusterConfig \<and>
        fmlookup (cfg_authInfos config) (kc_authInfo c) = Some authInfo \<and>
        clusterSecretName url_parse (kl_server clusterConfig) (cl_prefix cluster) = Ok n \<and>
        run (await_cluster cl config n) w = (Ok (), w1) \<and>
        dc_CreateOrPatchSecret cl argo_namespace n
          (mustateSecret (secret_labels i) (secret_data i clusterConfig authInfo)) w1 = (Ok (), w'))) \<and>
   ((\<forall>config. cl_config cluster = Some config \<longrightarrow>
       fmlookup (cfg_contexts config) (cfg_currentContext config) = None) \<longrightarrow>
     run (CreateOrUpdateCluster cl url_parse i cluster) w = (Panic, w))"
proof -
  have auth: "run (case fmlookup m k of None \<Rightarrow> Ret Panic | Some a \<Rightarrow> call (f a)) w1 = (Ok (), w') \<longleftrightarrow>
      (\<exists>a. fmlookup m k = Some a \<and> f a w1 = (Ok (), w'))" for m :: "(string, kube_auth) fmap" and k f w1
    by (auto split: option.splits)
  have bind: "run (bindP p h) w = (Ok (), w') \<longleftrightarrow>
      (\<exists>x w1. run p w = (Ok x, w1) \<and> run (h x) w1 = (Ok (), w'))"
    for p :: "('a, unit) proc" and h w
    by (auto simp: run_bindP split: prod.splits outcome.splits)
  have name: "run (bindP (Ret r) h) w = (Ok (), w') \<longleftrightarrow> (\<exists>n. r = Ok n \<and> run (h n) w = (Ok (), w'))"
    for r :: "string result" and h :: "string \<Rightarrow> ('a, unit) proc"
    by (cases r) auto
  show ?thesis
    unfolding CreateOrUpdateCluster_def
    by (auto simp: auth bind name split: option.splits)
qed

section \<open>The driver's contract\<close>

text \<open>
  What a provisioner relies on: looking an application up, and deleting it.  Deletion in the
  foreground has succeeded only when the application is gone, is a no-op then, and passes on every
  other failure of the lookup; an application that cannot be identified cannot be applied.
\<close>

locale cd_driver =
  fixes lookup :: "rid \<Rightarrow> ('w, 'a) proc"
    and apply_app :: "rid \<Rightarrow> 'y cd_application \<Rightarrow> ('w, unit) proc"
    and delete_app :: "rid \<Rightarrow> bool \<Rightarrow> ('w, unit) proc"
  assumes delete_done:
      "run (delete_app i False) w = (Ok (), w') \<Longrightarrow>
       \<exists>e. run (lookup i) w = (Err e, w') \<and> errors_Is e CdErrNotFound"
    and delete_absent:
      "run (lookup i) w = (Err e, w') \<Longrightarrow> errors_Is e CdErrNotFound \<Longrightarrow> run (delete_app i bg) w = (Ok (), w')"
    and delete_unsure:
      "run (lookup i) w = (Err e, w') \<Longrightarrow> \<not> errors_Is e CdErrNotFound \<Longrightarrow> run (delete_app i bg) w = (Err e, w')"
    and apply_unsure:
      "run (lookup i) w = (Err e, w') \<Longrightarrow> \<not> errors_Is e CdErrNotFound \<Longrightarrow> fst (run (apply_app i app) w) \<noteq> Ok ()"
begin

lemma delete_foreground_iff:
  "run (delete_app i False) w = (Ok (), w') \<longleftrightarrow>
   (\<exists>e. run (lookup i) w = (Err e, w') \<and> errors_Is e CdErrNotFound)"
  using delete_done delete_absent by blast

lemma present_not_deleted: "run (lookup i) w = (Ok a, w1) \<Longrightarrow> fst (run (delete_app i False) w) \<noteq> Ok ()"
  by (cases "run (delete_app i False) w") (auto dest: delete_done)

end

interpretation argo: cd_driver "GetHelmApplication cl" "CreateOrUpdateHelmApplication cl yaml" "DeleteHelmApplication cl"
  for cl :: "'w dclient" and yaml
proof unfold_locales
  fix i w w'
  assume "run (DeleteHelmApplication cl i False) w = (Ok (), w')"
  then show "\<exists>e. run (GetHelmApplication cl i) w = (Err e, w') \<and> errors_Is e CdErrNotFound"
    by (auto simp: DeleteHelmApplication_def run_bindR run_bindP split: prod.splits outcome.splits if_splits)
next
  fix i w e w' app
  assume "run (GetHelmApplication cl i) w = (Err e, w')" and "\<not> errors_Is e CdErrNotFound"
  then show "fst (run (CreateOrUpdateHelmApplication cl yaml i app) w) \<noteq> Ok ()"
    by (cases "generateApplication yaml i app") (auto simp: CreateOrUpdateHelmApplication_def run_bindR run_bindP)
qed (simp_all add: DeleteHelmApplication_def run_bindR)

section \<open>Instances\<close>

text \<open>
  A server with a fixed list of applications that counts the writes it accepts and answers each with
  a synced and healthy application.
\<close>

definition counting_client :: "argo_app list \<Rightarrow> nat dclient" where
  "counting_client items =
     \<lparr>dc_ListApps = (\<lambda>ns sel w. (Ok items, w)),
      dc_CreateApp = (\<lambda>a w. (Ok (a\<lparr>aa_status := \<lparr>st_health = Some ArgoHealthy, st_sync = Some ArgoSynced\<rparr>\<rparr>), w + 1)),
      dc_PatchApp = (\<lambda>a old w. (Ok (a\<lparr>aa_status := \<lparr>st_health = Some ArgoHealthy, st_sync = Some ArgoSynced\<rparr>\<rparr>), w + 1)),
      dc_DeleteApp = (\<lambda>a w. (Ok (), w + 1)),
      dc_ListSecrets = (\<lambda>ns sel w. (Ok [], w)),
      dc_GetSecret = (\<lambda>ns n w. (Err (APIError StatusNotFound ''''), w)),
      dc_CreateOrPatchSecret = (\<lambda>ns n f w. (Ok (), w + 1)),
      dc_DeleteSecret = (\<lambda>s w. (Ok (), w + 1)),
      dc_Connect = (\<lambda>c w. (Ok (), w))\<rparr>"

definition some_rid :: rid where
  "some_rid = \<lparr>rid_name = ''nginx'', rid_labels = [(''env'', ''prod''), (''team'', ''a'')]\<rparr>"

definition some_app :: argo_app where
  "some_app =
     (case generateApplication (\<lambda>_ :: unit. Ok '''') some_rid (empty_application\<lparr>ca_repo := ''r'', ca_chart := ''c'', ca_version := ''1''\<rparr>) of
        Ok a \<Rightarrow> a)"

lemma some_app_gen:
  "generateApplication (\<lambda>_ :: unit. Ok '''') some_rid (empty_application\<lparr>ca_repo := ''r'', ca_chart := ''c'', ca_version := ''1''\<rparr>) = Ok some_app"
  by (simp add: some_app_def generateApplication_def empty_application_def)

lemma some_app_live: "om_deletionTimestamp some_app = None"
  by (simp add: some_app_def generateApplication_def empty_application_def)

theorem CreateOrUpdateHelmApplication_Ok_iff_witness:
  "run (CreateOrUpdateHelmApplication (counting_client []) (\<lambda>_ :: unit. Ok '''') some_rid
      (empty_application\<lparr>ca_repo := ''r'', ca_chart := ''c'', ca_version := ''1''\<rparr>)) 0 = (Ok (), 1)"
proof -
  have l: "dc_ListApps (counting_client []) argo_namespace (applicationLabels some_rid) 0 = (Ok [], 0)"
    by (simp add: counting_client_def)
  show ?thesis
    unfolding CreateOrUpdateHelmApplication_Ok_iff [OF l]
    using some_app_gen by (auto simp: counting_client_def)
qed

theorem ambiguous_application_untouched_witness:
  "run (CreateOrUpdateHelmApplication (counting_client [some_app, some_app]) (\<lambda>_ :: unit. Ok '''') some_rid
      (empty_application\<lparr>ca_repo := ''r'', ca_chart := ''c'', ca_version := ''1''\<rparr>)) 0 =
     (Err (Sentinel ErrItemLengthMismatch), 0)"
proof -
  have "dc_ListApps (counting_client [some_app, some_app]) argo_namespace (applicationLabels some_rid) 0 =
      (Ok [some_app, some_app], 0)"
    by (simp add: counting_client_def)
  from ambiguous_application_untouched [OF this some_app_gen] show ?thesis by blast
qed

theorem DeleteHelmApplication_foreground_witness:
  "run (DeleteHelmApplication (counting_client [some_app]) some_rid False) 0 = (Err (Sentinel ErrYield), 2)"
proof -
  have l: "dc_ListApps (counting_client [some_app]) argo_namespace (applicationLabels some_rid) 0 = (Ok [some_app], 0)"
    by (simp add: counting_client_def)
  show ?thesis
    unfolding DeleteHelmApplication_foreground [OF l]
    by (simp add: some_app_live) (simp add: counting_client_def)
qed

theorem generateApplication_convert_witness:
  "\<exists>walk. (\<forall>m. walk_of m (walk m)) \<and>
     mset (rid_labels (convertApplicationID walk some_app)) = mset (rid_labels some_rid) \<and>
     ca_version (convertApplication some_app :: unit cd_application) = ''1''"
proof -
  obtain walk :: "smap \<Rightarrow> (string \<times> string) list" where w: "\<forall>m. walk_of m (walk m)"
    using walk_exists by metis
  have "proper_rid some_rid" by (simp add: proper_rid_def some_rid_def ApplicationLabel_def)
  from generateApplication_convert [OF this some_app_gen w] w show ?thesis
    by (auto simp: empty_application_def)
qed

theorem clusterSecretName_one_byte_witness:
  "clusterSecretName (\<lambda>_. Ok \<lparr>u_scheme = ''https'', u_host = ''h:6443''\<rparr>) ''https://h/a'' '''' \<noteq> clusterSecretName (\<lambda>_. Ok \<lparr>u_scheme = ''https'', u_host = ''h:6443''\<rparr>) ''https://h/b'' ''''"
proof -
  obtain n1 n2 where n: "clusterSecretName (\<lambda>_. Ok \<lparr>u_scheme = ''https'', u_host = ''h:6443''\<rparr>) (''https://h/'' @ CHR ''a'' # []) '''' = Ok n1"
    "clusterSecretName (\<lambda>_. Ok \<lparr>u_scheme = ''https'', u_host = ''h:6443''\<rparr>) (''https://h/'' @ CHR ''b'' # []) '''' = Ok n2"
    by (simp add: clusterSecretName_def)
  from clusterSecretName_one_byte [OF n] n show ?thesis by simp
qed

theorem health_of_spec_witness:
  "health_of [some_app\<lparr>aa_status := \<lparr>st_health = Some ArgoHealthy, st_sync = None\<rparr>\<rparr>] = HealthStatusHealthy \<and>
   health_of [some_app\<lparr>aa_status := \<lparr>st_health = None, st_sync = None\<rparr>\<rparr>] = HealthStatusUnknown"
proof -
  let ?h = "some_app\<lparr>aa_status := \<lparr>st_health = Some ArgoHealthy, st_sync = None\<rparr>\<rparr>"
  let ?n = "some_app\<lparr>aa_status := \<lparr>st_health = None, st_sync = None\<rparr>\<rparr>"
  have "health_of [?h] = HealthStatusHealthy"
    using health_of_spec [of "[?h]"] by simp
  moreover have "\<exists>xs a ys. [?n] = xs @ a # ys \<and> st_health (aa_status a) = None \<and>
      (\<forall>x \<in> set xs. st_health (aa_status x) = Some ArgoHealthy)"
    by (rule exI [of _ "[]"]) simp
  ultimately show ?thesis using health_of_spec [of "[?n]"] by blast
qed

theorem CreateOrUpdateCluster_Ok_iff_witness:
  "run (CreateOrUpdateCluster (counting_client []) (\<lambda>_. Ok \<lparr>u_scheme = ''https'', u_host = ''h''\<rparr>) some_rid
      \<lparr>cl_config = Some \<lparr>cfg_currentContext = ''x'', cfg_contexts = fmempty, cfg_clusters = fmempty,
        cfg_authInfos = fmempty\<rparr>, cl_prefix = ''''\<rparr>) 0 = (Panic, 0)"
  by (rule CreateOrUpdateCluster_Ok_iff [THEN conjunct2, THEN mp]) simp

section \<open>The default API tester\<close>

text \<open>
  \<open>DefaultK8SAPITester.Connect\<close>, which the driver falls back to: the kubeconfig is turned into a
  client configuration, a client is made of it, and the service of the API server is read.  Both
  constructors and the read belong to the Kubernetes libraries and are arguments.
\<close>

definition Connect ::
    "(kube_config \<Rightarrow> 'w \<Rightarrow> 'r result \<times> 'w) \<Rightarrow> ('r \<Rightarrow> 'w \<Rightarrow> 'c result \<times> 'w) \<Rightarrow>
     ('c \<Rightarrow> string \<Rightarrow> string \<Rightarrow> 'w \<Rightarrow> unit result \<times> 'w) \<Rightarrow> kube_config \<Rightarrow> ('w, unit) proc" where
  "Connect clientConfig clientNew getService config =
     bindP (call (clientConfig config)) (\<lambda>restConfig.
     bindP (call (clientNew restConfig)) (\<lambda>c.
     bindR (call (getService c ''default'' ''kubernetes'')) (\<lambda>r.
       case r of
         Ok _ \<Rightarrow> return ()
       | Err _ \<Rightarrow> throw (Sentinel ErrK8SConnectionError)
       | Panic \<Rightarrow> Ret Panic)))"

text \<open>
  With it, a cluster that is new to the driver is registered only once its API server has answered.
  Whatever the read fails with, refused credentials included, the driver yields and asks again; only a
  kubeconfig or a client that cannot be made is an error, and it is passed on as it is.
\<close>

lemma await_cluster_default_tester:
  assumes new: "dc_GetSecret cl argo_namespace secretName w = (Err e, w1)" "IsNotFound e"
    and tester: "dc_Connect cl = (\<lambda>config. run (Connect clientConfig clientNew getService config))"
    and made: "clientConfig config w1 = (Ok restConfig, w2)" "clientNew restConfig w2 = (Ok c, w3)"
    and read: "getService c ''default'' ''kubernetes'' w3 = (r, w4)"
  shows "run (await_cluster cl config secretName) w =
    (case r of Ok _ \<Rightarrow> (Ok (), w4) | Err _ \<Rightarrow> (Err (Sentinel ErrYield), w4) | Panic \<Rightarrow> (Panic, w4))"
  using assms by (cases r) (simp_all add: await_cluster_def Connect_def run_bindR run_bindP)

lemma await_cluster_unusable_config:
  assumes new: "dc_GetSecret cl argo_namespace secretName w = (Err e, w1)" "IsNotFound e"
    and tester: "dc_Connect cl = (\<lambda>config. run (Connect clientConfig clientNew getService config))"
    and made: "clientConfig config w1 = (Err x, w2) \<or>
      clientConfig config w1 = (Ok restConfig, w3) \<and> clientNew restConfig w3 = (Err x, w2)"
    and "\<not> errors_Is x ErrK8SConnectionError"
  shows "run (await_cluster cl config secretName) w = (Err x, w2)"
  using assms by (auto simp: await_cluster_def Connect_def run_bindR run_bindP)

end
