(* ===== verification/Api_Memory.thy ===== *)
theory Api_Memory
  imports Memory Argo_Driver
begin

text \<open>
  The API types as they lie in memory: structures are records with addresses where Go has pointers,
  slices and maps, and every type that has an address of its own has a kind of cell.  The types of other
  modules are parameters: \<open>'l\<close> stands for their structures, \<open>'x\<close> for what they keep in memory.
\<close>

section \<open>Structures\<close>

record type_meta =
  tm_Kind :: string
  tm_APIVersion :: string

record application_health =
  ah_Status :: string

record application_sync =
  ay_Status :: string

record h_namespace_metadata =
  nm_Labels :: "addr option"
  nm_Annotations :: "addr option"

record h_ignore_difference =
  id_Group :: string
  id_Kind :: string
  id_JSONPointers :: "slice option"

record h_source_helm =
  hh_ReleaseName :: string
  hh_Values :: string
  hh_Parameters :: "slice option"

record h_source =
  hs_RepoURL :: string
  hs_Chart :: string
  hs_Path :: string
  hs_TargetRevision :: string
  hs_Helm :: "addr option"

record h_sync_policy =
  hp_SyncOptions :: "slice option"
  hp_Automated :: "addr option"
  hp_ManagedNamespaceMetadata :: "addr option"

record h_spec =
  he_Project :: string
  he_Source :: h_source
  he_Destination :: app_destination
  he_SyncPolicy :: h_sync_policy
  he_IgnoreDifferences :: "slice option"

record h_status =
  ht_Health :: "addr option"
  ht_Sync :: "addr option"

record 'l h_application =
  ap_TypeMeta :: type_meta
  ap_ObjectMeta :: 'l
  ap_Spec :: h_spec
  ap_Status :: h_status

record 'l h_application_list =
  al_TypeMeta :: type_meta
  al_ListMeta :: 'l
  al_Items :: "slice option"

record 'l semantic_version =
  sv_Version :: 'l

record 'l h_reference =
  rf_Kind :: "addr option"
  rf_Name :: "addr option"
  rf_Version :: "'l semantic_version"

record h_named_reference =
  nr_Name :: "addr option"
  nr_Reference :: "addr option"

record h_recommendation =
  rc_Name :: string

record h_dependency =
  dp_Name :: string
  dp_Constraints :: "addr option"

record 'l h_version =
  hv_Repo :: "addr option"
  hv_Chart :: "addr option"
  hv_Branch :: "addr option"
  hv_Path :: "addr option"
  hv_Version :: "'l semantic_version"
  hv_Release :: "addr option"
  hv_Parameters :: "slice option"
  hv_Namespace :: "addr option"
  hv_CreateNamespace :: "addr option"
  hv_ServerSideApply :: "addr option"
  hv_Dependencies :: "slice option"
  hv_Recommends :: "slice option"

record h_helm_spec =
  sp_Tags :: "slice option"
  sp_Documentation :: "addr option"
  sp_License :: "addr option"
  sp_Icon :: "slice option"
  sp_Versions :: "slice option"

record 'l h_helm_application =
  hm_TypeMeta :: type_meta
  hm_ObjectMeta :: 'l
  hm_Spec :: h_helm_spec
  hm_Status :: unit

record 'l h_helm_application_list =
  hl_TypeMeta :: type_meta
  hl_ListMeta :: 'l
  hl_Items :: "slice option"

record h_ipv4_address =
  ia_IP :: "slice option"

record h_ipv4_prefix =
  ip_IP :: "slice option"
  ip_Mask :: "slice option"

record h_machine =
  mc_ImageID :: string
  mc_FlavorID :: string
  mc_DiskSize :: "addr option"
  mc_Replicas :: int

record h_network =
  nw_NodeNetwork :: h_ipv4_prefix
  nw_DNSNameservers :: "slice option"

record h_managed_status =
  ms_Conditions :: "slice option"

record 'l h_managed =
  mr_TypeMeta :: type_meta
  mr_ObjectMeta :: 'l
  mr_Status :: h_managed_status

record 'l h_managed_list =
  ml_TypeMeta :: type_meta
  ml_ListMeta :: 'l
  ml_Items :: "slice option"

section \<open>Cells\<close>

text \<open>One constructor for each Go type that has an address of its own, arrays included.\<close>

datatype 'l basic_cell =
    StringCell string
  | BoolCell bool
  | BytesCell "8 word list"
  | StringsCell "string list"
  | MapCell smap
  | QuantityCell 'l
  | ConstraintsCell 'l
  | ConditionsCell "'l list"
  | TagListCell "slice option"

datatype 'l argo_cell =
    HelmParameterCell param
  | ApplicationDestinationCell app_destination
  | ApplicationHealthCell application_health
  | ApplicationSyncCell application_sync
  | ApplicationSyncAutomationCell sync_automation
  | NamespaceMetadataCell h_namespace_metadata
  | ApplicationIgnoreDifferenceCell h_ignore_difference
  | ApplicationSourceHelmCell h_source_helm
  | ApplicationSourceCell h_source
  | ApplicationSyncPolicyCell h_sync_policy
  | ApplicationSpecCell h_spec
  | ApplicationStatusCell h_status
  | ApplicationCell "'l h_application"
  | ApplicationListCell "'l h_application_list"
  | HelmParameterArrayCell "param list"
  | ApplicationIgnoreDifferenceArrayCell "h_ignore_difference list"
  | ApplicationArrayCell "('l h_application) list"

datatype 'l helm_cell =
    ApplicationReferenceCell "'l h_reference"
  | ApplicationNamedReferenceCell h_named_reference
  | HelmApplicationParameterCell param
  | HelmApplicationRecommendationCell h_recommendation
  | HelmApplicationStatusCell unit
  | HelmApplicationDependencyCell h_dependency
  | HelmApplicationVersionCell "'l h_version"
  | HelmApplicationSpecCell h_helm_spec
  | HelmApplicationCell "'l h_helm_application"
  | HelmApplicationListCell "'l h_helm_application_list"
  | HelmApplicationParameterArrayCell "param list"
  | HelmApplicationDependencyArrayCell "h_dependency list"
  | HelmApplicationRecommendationArrayCell "h_recommendation list"
  | HelmApplicationVersionArrayCell "('l h_version) list"
  | HelmApplicationArrayCell "('l h_helm_application) list"

datatype 'l core_cell =
    SemanticVersionCell "'l semantic_version"
  | TagCell tag
  | IPv4AddressCell h_ipv4_address
  | IPv4PrefixCell h_ipv4_prefix
  | MachineGenericCell h_machine
  | NetworkGenericCell h_network
  | TagArrayCell "tag list"
  | IPv4AddressArrayCell "h_ipv4_address list"

datatype 'l fake_cell =
    ManagedResourceStatusCell h_managed_status
  | ManagedResourceCell "'l h_managed"
  | ManagedResourceListCell "'l h_managed_list"
  | ManagedResourceArrayCell "('l h_managed) list"

datatype ('l, 'x) cell =
    BasicCell "'l basic_cell"
  | ArgoCell "'l argo_cell"
  | HelmCell "'l helm_cell"
  | CoreCell "'l core_cell"
  | FakeCell "'l fake_cell"
  | LibraryCell 'x

definition string_kind :: "(('l, 'x) cell, string) kind" where
  "string_kind =
     \<lparr>put = (\<lambda>x. BasicCell (StringCell x)), 
      get = (\<lambda>c. case c of BasicCell (StringCell x) \<Rightarrow> Some x | _ \<Rightarrow> None)\<rparr>"

definition bool_kind :: "(('l, 'x) cell, bool) kind" where
  "bool_kind =
     \<lparr>put = (\<lambda>x. BasicCell (BoolCell x)), 
      get = (\<lambda>c. case c of BasicCell (BoolCell x) \<Rightarrow> Some x | _ \<Rightarrow> None)\<rparr>"

definition bytes_kind :: "(('l, 'x) cell, 8 word list) kind" where
  "bytes_kind =
     \<lparr>put = (\<lambda>x. BasicCell (BytesCell x)), 
      get = (\<lambda>c. case c of BasicCell (BytesCell x) \<Rightarrow> Some x | _ \<Rightarrow> None)\<rparr>"

definition strings_kind :: "(('l, 'x) cell, string list) kind" where
  "strings_kind =
     \<lparr>put = (\<lambda>x. BasicCell (StringsCell x)), 
      get = (\<lambda>c. case c of BasicCell (StringsCell x) \<Rightarrow> Some x | _ \<Rightarrow> None)\<rparr>"

definition smap_kind :: "(('l, 'x) cell, smap) kind" where
  "smap_kind =
     \<lparr>put = (\<lambda>x. BasicCell (MapCell x)), 
      get = (\<lambda>c. case c of BasicCell (MapCell x) \<Rightarrow> Some x | _ \<Rightarrow> None)\<rparr>"

definition quantity_kind :: "(('l, 'x) cell, 'l) kind" where
  "quantity_kind =
     \<lparr>put = (\<lambda>x. BasicCell (QuantityCell x)), 
      get = (\<lambda>c. case c of BasicCell (QuantityCell x) \<Rightarrow> Some x | _ \<Rightarrow> None)\<rparr>"

definition constraints_kind :: "(('l, 'x) cell, 'l) kind" where
  "constraints_kind =
     \<lparr>put = (\<lambda>x. BasicCell (ConstraintsCell x)), 
      get = (\<lambda>c. case c of BasicCell (ConstraintsCell x) \<Rightarrow> Some x | _ \<Rightarrow> None)\<rparr>"

definition conditions_kind :: "(('l, 'x) cell, 'l list) kind" where
  "conditions_kind =
     \<lparr>put = (\<lambda>x. BasicCell (ConditionsCell x)), 
      get = (\<lambda>c. case c of BasicCell (ConditionsCell x) \<Rightarrow> Some x | _ \<Rightarrow> None)\<rparr>"

definition tag_list_kind :: "(('l, 'x) cell, slice option) kind" where
  "tag_list_kind =
     \<lparr>put = (\<lambda>x. BasicCell (TagListCell x)), 
      get = (\<lambda>c. case c of BasicCell (TagListCell x) \<Rightarrow> Some x | _ \<Rightarrow> None)\<rparr>"

definition helm_parameter_kind :: "(('l, 'x) cell, param) kind" where
  "helm_parameter_kind =
     \<lparr>put = (\<lambda>x. ArgoCell (HelmParameterCell x)), 
      get = (\<lambda>c. case c of ArgoCell (HelmParameterCell x) \<Rightarrow> Some x | _ \<Rightarrow> None)\<rparr>"

definition application_destination_kind :: "(('l, 'x) cell, app_destination) kind" where
  "application_destination_kind =
     \<lparr>put = (\<lambda>x. ArgoCell (ApplicationDestinationCell x)), 
      get = (\<lambda>c. case c of ArgoCell (ApplicationDestinationCell x) \<Rightarrow> Some x | _ \<Rightarrow> None)\<rparr>"

definition application_health_kind :: "(('l, 'x) cell, application_health) kind" where
  "application_health_kind =
     \<lparr>put = (\<lambda>x. ArgoCell (ApplicationHealthCell x)), 
      get = (\<lambda>c. case c of ArgoCell (ApplicationHealthCell x) \<Rightarrow> Some x | _ \<Rightarrow> None)\<rparr>"

definition application_sync_kind :: "(('l, 'x) cell, application_sync) kind" where
  "application_sync_kind =
     \<lparr>put = (\<lambda>x. ArgoCell (ApplicationSyncCell x)), 
      get = (\<lambda>c. case c of ArgoCell (ApplicationSyncCell x) \<Rightarrow> Some x | _ \<Rightarrow> None)\<rparr>"

definition application_sync_automation_kind :: "(('l, 'x) cell, sync_automation) kind" where
  "application_sync_automation_kind =
     \<lparr>put = (\<lambda>x. ArgoCell (ApplicationSyncAutomationCell x)), 
      get = (\<lambda>c. case c of ArgoCell (ApplicationSyncAutomationCell x) \<Rightarrow> Some x | _ \<Rightarrow> None)\<rparr>"

definition namespace_metadata_kind :: "(('l, 'x) cell, h_namespace_metadata) kind" where
  "namespace_metadata_kind =
     \<lparr>put = (\<lambda>x. ArgoCell (NamespaceMetadataCell x)), 
      get = (\<lambda>c. case c of ArgoCell (NamespaceMetadataCell x) \<Rightarrow> Some x | _ \<Rightarrow> None)\<rparr>"

definition application_ignore_difference_kind :: "(('l, 'x) cell, h_ignore_difference) kind" where
  "application_ignore_difference_kind =
     \<lparr>put = (\<lambda>x. ArgoCell (ApplicationIgnoreDifferenceCell x)), 
      get = (\<lambda>c. case c of ArgoCell (ApplicationIgnoreDifferenceCell x) \<Rightarrow> Some x | _ \<Rightarrow> None)\<rparr>"

definition application_source_helm_kind :: "(('l, 'x) cell, h_source_helm) kind" where
  "application_source_helm_kind =
     \<lparr>put = (\<lambda>x. ArgoCell (ApplicationSourceHelmCell x)), 
      get = (\<lambda>c. case c of ArgoCell (ApplicationSourceHelmCell x) \<Rightarrow> Some x | _ \<Rightarrow> None)\<rparr>"

definition application_source_kind :: "(('l, 'x) cell, h_source) kind" where
  "application_source_kind =
     \<lparr>put = (\<lambda>x. ArgoCell (ApplicationSourceCell x)), 
      get = (\<lambda>c. case c of ArgoCell (ApplicationSourceCell x) \<Rightarrow> Some x | _ \<Rightarrow> None)\<rparr>"

definition application_sync_policy_kind :: "(('l, 'x) cell, h_sync_policy) kind" where
  "application_sync_policy_kind =
     \<lparr>put = (\<lambda>x. ArgoCell (ApplicationSyncPolicyCell x)), 
      get = (\<lambda>c. case c of ArgoCell (ApplicationSyncPolicyCell x) \<Rightarrow> Some x | _ \<Rightarrow> None)\<rparr>"

definition application_spec_kind :: "(('l, 'x) cell, h_spec) kind" where
  "application_spec_kind =
     \<lparr>put = (\<lambda>x. ArgoCell (ApplicationSpecCell x)), 
      get = (\<lambda>c. case c of ArgoCell (ApplicationSpecCell x) \<Rightarrow> Some x | _ \<Rightarrow> None)\<rparr>"

definition application_status_kind :: "(('l, 'x) cell, h_status) kind" where
  "application_status_kind =
     \<lparr>put = (\<lambda>x. ArgoCell (ApplicationStatusCell x)), 
      get = (\<lambda>c. case c of ArgoCell (ApplicationStatusCell x) \<Rightarrow> Some x | _ \<Rightarrow> None)\<rparr>"

definition application_kind :: "(('l, 'x) cell, 'l h_application) kind" where
  "application_kind =
     \<lparr>put = (\<lambda>x. ArgoCell (ApplicationCell x)), 
      get = (\<lambda>c. case c of ArgoCell (ApplicationCell x) \<Rightarrow> Some x | _ \<Rightarrow> None)\<rparr>"

definition application_list_kind :: "(('l, 'x) cell, 'l h_application_list) kind" where
  "application_list_kind =
     \<lparr>put = (\<lambda>x. ArgoCell (ApplicationListCell x)), 
      get = (\<lambda>c. case c of ArgoCell (ApplicationListCell x) \<Rightarrow> Some x | _ \<Rightarrow> None)\<rparr>"

definition semantic_version_kind :: "(('l, 'x) cell, 'l semantic_version) kind" where
  "semantic_version_kind =
     \<lparr>put = (\<lambda>x. CoreCell (SemanticVersionCell x)), 
      get = (\<lambda>c. case c of CoreCell (SemanticVersionCell x) \<Rightarrow> Some x | _ \<Rightarrow> None)\<rparr>"

definition application_reference_kind :: "(('l, 'x) cell, 'l h_reference) kind" where
  "application_reference_kind =
     \<lparr>put = (\<lambda>x. HelmCell (ApplicationReferenceCell x)), 
      get = (\<lambda>c. case c of HelmCell (ApplicationReferenceCell x) \<Rightarrow> Some x | _ \<Rightarrow> None)\<rparr>"

definition application_named_reference_kind :: "(('l, 'x) cell, h_named_reference) kind" where
  "application_named_reference_kind =
     \<lparr>put = (\<lambda>x. HelmCell (ApplicationNamedReferenceCell x)), 
      get = (\<lambda>c. case c of HelmCell (ApplicationNamedReferenceCell x) \<Rightarrow> Some x | _ \<Rightarrow> None)\<rparr>"

definition helm_application_parameter_kind :: "(('l, 'x) cell, param) kind" where
  "helm_application_parameter_kind =
     \<lparr>put = (\<lambda>x. HelmCell (HelmApplicationParameterCell x)), 
      get = (\<lambda>c. case c of HelmCell (HelmApplicationParameterCell x) \<Rightarrow> Some x | _ \<Rightarrow> None)\<rparr>"

definition helm_application_recommendation_kind :: "(('l, 'x) cell, h_recommendation) kind" where
  "helm_application_recommendation_kind =
     \<lparr>put = (\<lambda>x. HelmCell (HelmApplicationRecommendationCell x)), 
      get = (\<lambda>c. case c of HelmCell (HelmApplicationRecommendationCell x) \<Rightarrow> Some x | _ \<Rightarrow> None)\<rparr>"

definition helm_application_status_kind :: "(('l, 'x) cell, unit) kind" where
  "helm_application_status_kind =
     \<lparr>put = (\<lambda>x. HelmCell (HelmApplicationStatusCell x)), 
      get = (\<lambda>c. case c of HelmCell (HelmApplicationStatusCell x) \<Rightarrow> Some x | _ \<Rightarrow> None)\<rparr>"

definition helm_application_dependency_kind :: "(('l, 'x) cell, h_dependency) kind" where
  "helm_application_dependency_kind =
     \<lparr>put = (\<lambda>x. HelmCell (HelmApplicationDependencyCell x)), 
      get = (\<lambda>c. case c of HelmCell (HelmApplicationDependencyCell x) \<Rightarrow> Some x | _ \<Rightarrow> None)\<rparr>"

definition tag_kind :: "(('l, 'x) cell, tag) kind" where
  "tag_kind =
     \<lparr>put = (\<lambda>x. CoreCell (TagCell x)), 
      get = (\<lambda>c. case c of CoreCell (TagCell x) \<Rightarrow> Some x | _ \<Rightarrow> None)\<rparr>"

definition helm_application_version_kind :: "(('l, 'x) cell, 'l h_version) kind" where
  "helm_application_version_kind =
     \<lparr>put = (\<lambda>x. HelmCell (HelmApplicationVersionCell x)), 
      get = (\<lambda>c. case c of HelmCell (HelmApplicationVersionCell x) \<Rightarrow> Some x | _ \<Rightarrow> None)\<rparr>"

definition helm_application_spec_kind :: "(('l, 'x) cell, h_helm_spec) kind" where
  "helm_application_spec_kind =
     \<lparr>put = (\<lambda>x. HelmCell (HelmApplicationSpecCell x)), 
      get = (\<lambda>c. case c of HelmCell (HelmApplicationSpecCell x) \<Rightarrow> Some x | _ \<Rightarrow> None)\<rparr>"

definition helm_application_kind :: "(('l, 'x) cell, 'l h_helm_application) kind" where
  "helm_application_kind =
     \<lparr>put = (\<lambda>x. HelmCell (HelmApplicationCell x)), 
      get = (\<lambda>c. case c of HelmCell (HelmApplicationCell x) \<Rightarrow> Some x | _ \<Rightarrow> None)\<rparr>"

definition helm_application_list_kind :: "(('l, 'x) cell, 'l h_helm_application_list) kind" where
  "helm_application_list_kind =
     \<lparr>put = (\<lambda>x. HelmCell (HelmApplicationListCell x)), 
      get = (\<lambda>c. case c of HelmCell (HelmApplicationListCell x) \<Rightarrow> Some x | _ \<Rightarrow> None)\<rparr>"

definition ipv4_address_kind :: "(('l, 'x) cell, h_ipv4_address) kind" where
  "ipv4_address_kind =
     \<lparr>put = (\<lambda>x. CoreCell (IPv4AddressCell x)), 
      get = (\<lambda>c. case c of CoreCell (IPv4AddressCell x) \<Rightarrow> Some x | _ \<Rightarrow> None)\<rparr>"

definition ipv4_prefix_kind :: "(('l, 'x) cell, h_ipv4_prefix) kind" where
  "ipv4_prefix_kind =
     \<lparr>put = (\<lambda>x. CoreCell (IPv4PrefixCell x)), 
      get = (\<lambda>c. case c of CoreCell (IPv4PrefixCell x) \<Rightarrow> Some x | _ \<Rightarrow> None)\<rparr>"

definition machine_generic_kind :: "(('l, 'x) cell, h_machine) kind" where
  "machine_generic_kind =
     \<lparr>put = (\<lambda>x. CoreCell (MachineGenericCell x)), 
      get = (\<lambda>c. case c of CoreCell (MachineGenericCell x) \<Rightarrow> Some x | _ \<Rightarrow> None)\<rparr>"

definition network_generic_kind :: "(('l, 'x) cell, h_network) kind" where
  "network_generic_kind =
     \<lparr>put = (\<lambda>x. CoreCell (NetworkGenericCell x)), 
      get = (\<lambda>c. case c of CoreCell (NetworkGenericCell x) \<Rightarrow> Some x | _ \<Rightarrow> None)\<rparr>"

definition managed_resource_status_kind :: "(('l, 'x) cell, h_managed_status) kind" where
  "managed_resource_status_kind =
     \<lparr>put = (\<lambda>x. FakeCell (ManagedResourceStatusCell x)), 
      get = (\<lambda>c. case c of FakeCell (ManagedResourceStatusCell x) \<Rightarrow> Some x | _ \<Rightarrow> None)\<rparr>"

definition managed_resource_kind :: "(('l, 'x) cell, 'l h_managed) kind" where
  "managed_resource_kind =
     \<lparr>put = (\<lambda>x. FakeCell (ManagedResourceCell x)), 
      get = (\<lambda>c. case c of FakeCell (ManagedResourceCell x) \<Rightarrow> Some x | _ \<Rightarrow> None)\<rparr>"

definition managed_resource_list_kind :: "(('l, 'x) cell, 'l h_managed_list) kind" where
  "managed_resource_list_kind =
     \<lparr>put = (\<lambda>x. FakeCell (ManagedResourceListCell x)), 
      get = (\<lambda>c. case c of FakeCell (ManagedResourceListCell x) \<Rightarrow> Some x | _ \<Rightarrow> None)\<rparr>"

definition helm_parameter_array :: "(('l, 'x) cell, param list) kind" where
  "helm_parameter_array =
     \<lparr>put = (\<lambda>x. ArgoCell (HelmParameterArrayCell x)), 
      get = (\<lambda>c. case c of ArgoCell (HelmParameterArrayCell x) \<Rightarrow> Some x | _ \<Rightarrow> None)\<rparr>"

definition application_ignore_difference_array :: "(('l, 'x) cell, h_ignore_difference list) kind" where
  "application_ignore_difference_array =
     \<lparr>put = (\<lambda>x. ArgoCell (ApplicationIgnoreDifferenceArrayCell x)), 
      get = (\<lambda>c. case c of ArgoCell (ApplicationIgnoreDifferenceArrayCell x) \<Rightarrow> Some x | _ \<Rightarrow> None)\<rparr>"

definition application_array :: "(('l, 'x) cell, ('l h_application) list) kind" where
  "application_array =
     \<lparr>put = (\<lambda>x. ArgoCell (ApplicationArrayCell x)), 
      get = (\<lambda>c. case c of ArgoCell (ApplicationArrayCell x) \<Rightarrow> Some x | _ \<Rightarrow> None)\<rparr>"

definition helm_application_parameter_array :: "(('l, 'x) cell, param list) kind" where
  "helm_application_parameter_array =
     \<lparr>put = (\<lambda>x. HelmCell (HelmApplicationParameterArrayCell x)), 
      get = (\<lambda>c. case c of HelmCell (HelmApplicationParameterArrayCell x) \<Rightarrow> Some x | _ \<Rightarrow> None)\<rparr>"

definition helm_application_dependency_array :: "(('l, 'x) cell, h_dependency list) kind" where
  "helm_application_dependency_array =
     \<lparr>put = (\<lambda>x. HelmCell (HelmApplicationDependencyArrayCell x)), 
      get = (\<lambda>c. case c of HelmCell (HelmApplicationDependencyArrayCell x) \<Rightarrow> Some x | _ \<Rightarrow> None)\<rparr>"

definition helm_application_recommendation_array :: "(('l, 'x) cell, h_recommendation list) kind" where
  "helm_application_recommendation_array =
     \<lparr>put = (\<lambda>x. HelmCell (HelmApplicationRecommendationArrayCell x)), 
      get = (\<lambda>c. case c of HelmCell (HelmApplicationRecommendationArrayCell x) \<Rightarrow> Some x | _ \<Rightarrow> None)\<rparr>"

definition tag_array :: "(('l, 'x) cell, tag list) kind" where
  "tag_array =
     \<lparr>put = (\<lambda>x. CoreCell (TagArrayCell x)), 
      get = (\<lambda>c. case c of CoreCell (TagArrayCell x) \<Rightarrow> Some x | _ \<Rightarrow> None)\<rparr>"

definition helm_application_version_array :: "(('l, 'x) cell, ('l h_version) list) kind" where
  "helm_application_version_array =
     \<lparr>put = (\<lambda>x. HelmCell (HelmApplicationVersionArrayCell x)), 
      get = (\<lambda>c. case c of HelmCell (HelmApplicationVersionArrayCell x) \<Rightarrow> Some x | _ \<Rightarrow> None)\<rparr>"

definition helm_application_array :: "(('l, 'x) cell, ('l h_helm_application) list) kind" where
  "helm_application_array =
     \<lparr>put = (\<lambda>x. HelmCell (HelmApplicationArrayCell x)), 
      get = (\<lambda>c. case c of HelmCell (HelmApplicationArrayCell x) \<Rightarrow> Some x | _ \<Rightarrow> None)\<rparr>"

definition ipv4_address_array :: "(('l, 'x) cell, h_ipv4_address list) kind" where
  "ipv4_address_array =
     \<lparr>put = (\<lambda>x. CoreCell (IPv4AddressArrayCell x)), 
      get = (\<lambda>c. case c of CoreCell (IPv4AddressArrayCell x) \<Rightarrow> Some x | _ \<Rightarrow> None)\<rparr>"

definition managed_resource_array :: "(('l, 'x) cell, ('l h_managed) list) kind" where
  "managed_resource_array =
     \<lparr>put = (\<lambda>x. FakeCell (ManagedResourceArrayCell x)), 
      get = (\<lambda>c. case c of FakeCell (ManagedResourceArrayCell x) \<Rightarrow> Some x | _ \<Rightarrow> None)\<rparr>"

lemmas kind_defs =
  string_kind_def bool_kind_def bytes_kind_def strings_kind_def
  smap_kind_def quantity_kind_def constraints_kind_def conditions_kind_def
  tag_list_kind_def helm_parameter_kind_def application_destination_kind_def application_health_kind_def
  application_sync_kind_def application_sync_automation_kind_def namespace_metadata_kind_def application_ignore_difference_kind_def
  application_source_helm_kind_def application_source_kind_def application_sync_policy_kind_def application_spec_kind_def
  application_status_kind_def application_kind_def application_list_kind_def semantic_version_kind_def
  application_reference_kind_def application_named_reference_kind_def helm_application_parameter_kind_def helm_application_recommendation_kind_def
  helm_application_status_kind_def helm_application_dependency_kind_def tag_kind_def helm_application_version_kind_def
  helm_application_spec_kind_def helm_application_kind_def helm_application_list_kind_def ipv4_address_kind_def
  ipv4_prefix_kind_def machine_generic_kind_def network_generic_kind_def managed_resource_status_kind_def
  managed_resource_kind_def managed_resource_list_kind_def helm_parameter_array_def application_ignore_difference_array_def
  application_array_def helm_application_parameter_array_def helm_application_dependency_array_def helm_application_recommendation_array_def
  tag_array_def helm_application_version_array_def helm_application_array_def ipv4_address_array_def
  managed_resource_array_def

section \<open>The libraries\<close>

text \<open>
  The zero values of their structures, and what the copies call: the copies of \<open>metav1\<close> and
  \<open>resource.Quantity\<close>, and the text form of semantic version constraints.  \<open>cl_walk\<close> is the order in
  which \<open>range\<close> walks a map.
\<close>

record 'l lib_zero =
  zl_ObjectMeta :: 'l
  zl_ListMeta :: 'l
  zl_Condition :: 'l
  zl_Constraints :: 'l
  zl_Version :: 'l

record ('l, 'x) copy_lib =
  cl_zero :: "'l lib_zero"
  cl_walk :: "smap \<Rightarrow> (string \<times> string) list"
  cl_ObjectMeta :: "'l \<Rightarrow> (('l, 'x) cell, 'l) mem"
  cl_ListMeta :: "'l \<Rightarrow> (('l, 'x) cell, 'l) mem"
  cl_Condition :: "'l \<Rightarrow> (('l, 'x) cell, 'l) mem"
  cl_Quantity :: "'l \<Rightarrow> (('l, 'x) cell, 'l) mem"
  cl_MarshalText :: "'l \<Rightarrow> (('l, 'x) cell, string) mem"
  cl_UnmarshalText :: "string \<Rightarrow> 'l \<Rightarrow> (('l, 'x) cell, 'l) mem"

section \<open>Zero values\<close>

text \<open>What \<open>new\<close> and \<open>make\<close> fill memory with.\<close>

definition zero_type_meta :: type_meta where
  "zero_type_meta = \<lparr>tm_Kind = '''', tm_APIVersion = ''''\<rparr>"

definition zero_helm_parameter :: param where
  "zero_helm_parameter = \<lparr>p_name = '''', p_value = ''''\<rparr>"

definition zero_application_destination :: app_destination where
  "zero_application_destination = \<lparr>ad_name = '''', ad_namespace = ''''\<rparr>"

definition zero_application_health :: application_health where
  "zero_application_health = \<lparr>ah_Status = ''''\<rparr>"

definition zero_application_sync :: application_sync where
  "zero_application_sync = \<lparr>ay_Status = ''''\<rparr>"

definition zero_application_sync_automation :: sync_automation where
  "zero_application_sync_automation = \<lparr>sa_selfHeal = False, sa_prune = False\<rparr>"

definition zero_namespace_metadata :: h_namespace_metadata where
  "zero_namespace_metadata = \<lparr>nm_Labels = None, nm_Annotations = None\<rparr>"

definition zero_application_ignore_difference :: h_ignore_difference where
  "zero_application_ignore_difference = \<lparr>id_Group = '''', id_Kind = '''', id_JSONPointers = None\<rparr>"

definition zero_application_source_helm :: h_source_helm where
  "zero_application_source_helm = \<lparr>hh_ReleaseName = '''', hh_Values = '''', hh_Parameters = None\<rparr>"

definition zero_application_source :: h_source where
  "zero_application_source =
     \<lparr>hs_RepoURL = '''', hs_Chart = '''', hs_Path = '''', hs_TargetRevision = '''',
      hs_Helm = None\<rparr>"

definition zero_application_sync_policy :: h_sync_policy where
  "zero_application_sync_policy = \<lparr>hp_SyncOptions = None, hp_Automated = None, hp_ManagedNamespaceMetadata = None\<rparr>"

definition zero_application_spec :: h_spec where
  "zero_application_spec =
     \<lparr>he_Project = '''', he_Source = zero_application_source,
      he_Destination = zero_application_destination,
      he_SyncPolicy = zero_application_sync_policy, he_IgnoreDifferences = None\<rparr>"

definition zero_application_status :: h_status where
  "zero_application_status = \<lparr>ht_Health = None, ht_Sync = None\<rparr>"

definition zero_application :: "'l lib_zero \<Rightarrow> 'l h_application" where
  "zero_application z =
     \<lparr>ap_TypeMeta = zero_type_meta, ap_ObjectMeta = (zl_ObjectMeta z),
      ap_Spec = zero_application_spec, ap_Status = zero_application_status\<rparr>"

definition zero_application_list :: "'l lib_zero \<Rightarrow> 'l h_application_list" where
  "zero_application_list z = \<lparr>al_TypeMeta = zero_type_meta, al_ListMeta = (zl_ListMeta z), al_Items = None\<rparr>"

definition zero_semantic_version :: "'l lib_zero \<Rightarrow> 'l semantic_version" where
  "zero_semantic_version z = \<lparr>sv_Version = (zl_Version z)\<rparr>"

definition zero_application_reference :: "'l lib_zero \<Rightarrow> 'l h_reference" where
  "zero_application_reference z = \<lparr>rf_Kind = None, rf_Name = None, rf_Version = (zero_semantic_version z)\<rparr>"

definition zero_application_named_reference :: h_named_reference where
  "zero_application_named_reference = \<lparr>nr_Name = None, nr_Reference = None\<rparr>"

definition zero_helm_application_parameter :: param where
  "zero_helm_application_parameter = \<lparr>p_name = '''', p_value = ''''\<rparr>"

definition zero_helm_application_recommendation :: h_recommendation where
  "zero_helm_application_recommendation = \<lparr>rc_Name = ''''\<rparr>"

definition zero_helm_application_dependency :: h_dependency where
  "zero_helm_application_dependency = \<lparr>dp_Name = '''', dp_Constraints = None\<rparr>"

definition zero_tag :: tag where
  "zero_tag = \<lparr>t_name = '''', t_value = ''''\<rparr>"

definition zero_helm_application_version :: "'l lib_zero \<Rightarrow> 'l h_version" where
  "zero_helm_application_version z =
     \<lparr>hv_Repo = None, hv_Chart = None, hv_Branch = None, hv_Path = None,
      hv_Version = (zero_semantic_version z), hv_Release = None, hv_Parameters = None,
      hv_Namespace = None, hv_CreateNamespace = None, hv_ServerSideApply = None,
      hv_Dependencies = None, hv_Recommends = None\<rparr>"

definition zero_helm_application_spec :: h_helm_spec where
  "zero_helm_application_spec =
     \<lparr>sp_Tags = None, sp_Documentation = None, sp_License = None, sp_Icon = None,
      sp_Versions = None\<rparr>"

definition zero_helm_application :: "'l lib_zero \<Rightarrow> 'l h_helm_application" where
  "zero_helm_application z =
     \<lparr>hm_TypeMeta = zero_type_meta, hm_ObjectMeta = (zl_ObjectMeta z),
      hm_Spec = zero_helm_application_spec, hm_Status = ()\<rparr>"

definition zero_helm_application_list :: "'l lib_zero \<Rightarrow> 'l h_helm_application_list" where
  "zero_helm_application_list z = \<lparr>hl_TypeMeta = zero_type_meta, hl_ListMeta = (zl_ListMeta z), hl_Items = None\<rparr>"

definition zero_ipv4_address :: h_ipv4_address where
  "zero_ipv4_address = \<lparr>ia_IP = None\<rparr>"

definition zero_ipv4_prefix :: h_ipv4_prefix where
  "zero_ipv4_prefix = \<lparr>ip_IP = None, ip_Mask = None\<rparr>"

definition zero_machine_generic :: h_machine where
  "zero_machine_generic = \<lparr>mc_ImageID = '''', mc_FlavorID = '''', mc_DiskSize = None, mc_Replicas = 0\<rparr>"

definition zero_network_generic :: h_network where
  "zero_network_generic = \<lparr>nw_NodeNetwork = zero_ipv4_prefix, nw_DNSNameservers = None\<rparr>"

definition zero_managed_resource_status :: h_managed_status where
  "zero_managed_resource_status = \<lparr>ms_Conditions = None\<rparr>"

definition zero_managed_resource :: "'l lib_zero \<Rightarrow> 'l h_managed" where
  "zero_managed_resource z =
     \<lparr>mr_TypeMeta = zero_type_meta, mr_ObjectMeta = (zl_ObjectMeta z),
      mr_Status = zero_managed_resource_status\<rparr>"

definition zero_managed_resource_list :: "'l lib_zero \<Rightarrow> 'l h_managed_list" where
  "zero_managed_resource_list z = \<lparr>ml_TypeMeta = zero_type_meta, ml_ListMeta = (zl_ListMeta z), ml_Items = None\<rparr>"

end
