(* ===== verification/Deep_Copy.thy ===== *)
theory Deep_Copy
  imports Api_Memory
begin

text \<open>
  The deep copies of the API types: the generated \<open>zz_generated.deepcopy.go\<close> of
  \<open>pkg/apis/argoproj/v1alpha1\<close>, \<open>pkg/apis/unikorn/v1alpha1\<close> and its \<open>fake\<close> package, and the two copies
  written by hand in \<open>types.go\<close>.  \<open>DeepCopyInto\<close> starts with \<open>*out = *in\<close>: it is a function of \<open>in\<close> that
  returns what \<open>out\<close> holds at the end.  \<open>DeepCopy\<close> asks for nil, allocates and calls it.
\<close>

section \<open>Copies\<close>

definition HelmParameter_DeepCopyInto ::
    "param \<Rightarrow> (('l, 'x) cell, param) mem" where
  "HelmParameter_DeepCopyInto s = mem_ret s"

definition HelmParameter_DeepCopy ::
    "addr option \<Rightarrow> (('l, 'x) cell, addr option) mem" where
  "HelmParameter_DeepCopy p = copy_ptr helm_parameter_kind zero_helm_parameter HelmParameter_DeepCopyInto p"

definition ApplicationDestination_DeepCopyInto ::
    "app_destination \<Rightarrow> (('l, 'x) cell, app_destination) mem" where
  "ApplicationDestination_DeepCopyInto s = mem_ret s"

definition ApplicationDestination_DeepCopy ::
    "addr option \<Rightarrow> (('l, 'x) cell, addr option) mem" where
  "ApplicationDestination_DeepCopy p =
     copy_ptr application_destination_kind zero_application_destination ApplicationDestination_DeepCopyInto p"

definition ApplicationHealth_DeepCopyInto ::
    "application_health \<Rightarrow> (('l, 'x) cell, application_health) mem" where
  "ApplicationHealth_DeepCopyInto s = mem_ret s"

definition ApplicationHealth_DeepCopy ::
    "addr option \<Rightarrow> (('l, 'x) cell, addr option) mem" where
  "ApplicationHealth_DeepCopy p =
     copy_ptr application_health_kind zero_application_health ApplicationHealth_DeepCopyInto p"

definition ApplicationSync_DeepCopyInto ::
    "application_sync \<Rightarrow> (('l, 'x) cell, application_sync) mem" where
  "ApplicationSync_DeepCopyInto s = mem_ret s"

definition ApplicationSync_DeepCopy ::
    "addr option \<Rightarrow> (('l, 'x) cell, addr option) mem" where
  "ApplicationSync_DeepCopy p =
     copy_ptr application_sync_kind zero_application_sync ApplicationSync_DeepCopyInto p"

definition ApplicationSyncAutomation_DeepCopyInto ::
    "sync_automation \<Rightarrow> (('l, 'x) cell, sync_automation) mem" where
  "ApplicationSyncAutomation_DeepCopyInto s = mem_ret s"

definition ApplicationSyncAutomation_DeepCopy ::
    "addr option \<Rightarrow> (('l, 'x) cell, addr option) mem" where
  "ApplicationSyncAutomation_DeepCopy p =
     copy_ptr application_sync_automation_kind
       zero_application_sync_automation ApplicationSyncAutomation_DeepCopyInto p"

definition NamespaceMetadata_DeepCopyInto ::
    "('l, 'x) copy_lib \<Rightarrow> h_namespace_metadata \<Rightarrow> (('l, 'x) cell, h_namespace_metadata) mem" where
  "NamespaceMetadata_DeepCopyInto lib s =
     mem_bind (copy_map smap_kind (cl_walk lib) (nm_Labels s)) (\<lambda>x1.
     mem_bind (copy_map smap_kind (cl_walk lib) (nm_Annotations s)) (\<lambda>x2.
       mem_ret (s\<lparr>nm_Labels := x1, nm_Annotations := x2\<rparr>)))"

definition NamespaceMetadata_DeepCopy ::
    "('l, 'x) copy_lib \<Rightarrow> addr option \<Rightarrow> (('l, 'x) cell, addr option) mem" where
  "NamespaceMetadata_DeepCopy lib p =
     copy_ptr namespace_metadata_kind zero_namespace_metadata (NamespaceMetadata_DeepCopyInto lib) p"

definition ApplicationIgnoreDifference_DeepCopyInto ::
    "h_ignore_difference \<Rightarrow> (('l, 'x) cell, h_ignore_difference) mem" where
  "ApplicationIgnoreDifference_DeepCopyInto s =
     mem_bind (copy_flat_slice strings_kind '''' (id_JSONPointers s)) (\<lambda>x1.
       mem_ret (s\<lparr>id_JSONPointers := x1\<rparr>))"

definition ApplicationIgnoreDifference_DeepCopy ::
    "addr option \<Rightarrow> (('l, 'x) cell, addr option) mem" where
  "ApplicationIgnoreDifference_DeepCopy p =
     copy_ptr application_ignore_difference_kind
       zero_application_ignore_difference ApplicationIgnoreDifference_DeepCopyInto p"

definition ApplicationSourceHelm_DeepCopyInto ::
    "h_source_helm \<Rightarrow> (('l, 'x) cell, h_source_helm) mem" where
  "ApplicationSourceHelm_DeepCopyInto s =
     mem_bind (copy_flat_slice helm_parameter_array zero_helm_parameter (hh_Parameters s)) (\<lambda>x1.
       mem_ret (s\<lparr>hh_Parameters := x1\<rparr>))"

definition ApplicationSourceHelm_DeepCopy ::
    "addr option \<Rightarrow> (('l, 'x) cell, addr option) mem" where
  "ApplicationSourceHelm_DeepCopy p =
     copy_ptr application_source_helm_kind zero_application_source_helm ApplicationSourceHelm_DeepCopyInto p"

definition ApplicationSource_DeepCopyInto ::
    "h_source \<Rightarrow> (('l, 'x) cell, h_source) mem" where
  "ApplicationSource_DeepCopyInto s =
     mem_bind (copy_ptr application_source_helm_kind
         zero_application_source_helm ApplicationSourceHelm_DeepCopyInto
         (hs_Helm s)) (\<lambda>x1.
       mem_ret (s\<lparr>hs_Helm := x1\<rparr>))"

definition ApplicationSource_DeepCopy ::
    "addr option \<Rightarrow> (('l, 'x) cell, addr option) mem" where
  "ApplicationSource_DeepCopy p =
     copy_ptr application_source_kind zero_application_source ApplicationSource_DeepCopyInto p"

definition ApplicationSyncPolicy_DeepCopyInto ::
    "('l, 'x) copy_lib \<Rightarrow> h_sync_policy \<Rightarrow> (('l, 'x) cell, h_sync_policy) mem" where
  "ApplicationSyncPolicy_DeepCopyInto lib s =
     mem_bind (copy_flat_slice strings_kind '''' (hp_SyncOptions s)) (\<lambda>x1.
     mem_bind (copy_ptr application_sync_automation_kind zero_application_sync_automation mem_ret
         (hp_Automated s)) (\<lambda>x2.
     mem_bind (copy_ptr namespace_metadata_kind zero_namespace_metadata (NamespaceMetadata_DeepCopyInto lib)
         (hp_ManagedNamespaceMetadata s)) (\<lambda>x3.
       mem_ret (s\<lparr>hp_SyncOptions := x1, hp_Automated := x2, hp_ManagedNamespaceMetadata := x3\<rparr>))))"

definition ApplicationSyncPolicy_DeepCopy ::
    "('l, 'x) copy_lib \<Rightarrow> addr option \<Rightarrow> (('l, 'x) cell, addr option) mem" where
  "ApplicationSyncPolicy_DeepCopy lib p =
     copy_ptr application_sync_policy_kind
       zero_application_sync_policy (ApplicationSyncPolicy_DeepCopyInto lib) p"

definition ApplicationSpec_DeepCopyInto ::
    "('l, 'x) copy_lib \<Rightarrow> h_spec \<Rightarrow> (('l, 'x) cell, h_spec) mem" where
  "ApplicationSpec_DeepCopyInto lib s =
     mem_bind (ApplicationSource_DeepCopyInto (he_Source s)) (\<lambda>x1.
     mem_bind (ApplicationSyncPolicy_DeepCopyInto lib (he_SyncPolicy s)) (\<lambda>x2.
     mem_bind (copy_slice application_ignore_difference_array
         zero_application_ignore_difference ApplicationIgnoreDifference_DeepCopyInto
         (he_IgnoreDifferences s)) (\<lambda>x3.
       mem_ret (s\<lparr>he_Source := x1, he_SyncPolicy := x2, he_IgnoreDifferences := x3\<rparr>))))"

definition ApplicationSpec_DeepCopy ::
    "('l, 'x) copy_lib \<Rightarrow> addr option \<Rightarrow> (('l, 'x) cell, addr option) mem" where
  "ApplicationSpec_DeepCopy lib p =
     copy_ptr application_spec_kind zero_application_spec (ApplicationSpec_DeepCopyInto lib) p"

definition ApplicationStatus_DeepCopyInto ::
    "h_status \<Rightarrow> (('l, 'x) cell, h_status) mem" where
  "ApplicationStatus_DeepCopyInto s =
     mem_bind (copy_ptr application_health_kind zero_application_health mem_ret (ht_Health s)) (\<lambda>x1.
     mem_bind (copy_ptr application_sync_kind zero_application_sync mem_ret (ht_Sync s)) (\<lambda>x2.
       mem_ret (s\<lparr>ht_Health := x1, ht_Sync := x2\<rparr>)))"

definition ApplicationStatus_DeepCopy ::
    "addr option \<Rightarrow> (('l, 'x) cell, addr option) mem" where
  "ApplicationStatus_DeepCopy p =
     copy_ptr application_status_kind zero_application_status ApplicationStatus_DeepCopyInto p"

definition Application_DeepCopyInto ::
    "('l, 'x) copy_lib \<Rightarrow> 'l h_application \<Rightarrow> (('l, 'x) cell, 'l h_application) mem" where
  "Application_DeepCopyInto lib s =
     mem_bind (cl_ObjectMeta lib (ap_ObjectMeta s)) (\<lambda>x1.
     mem_bind (ApplicationSpec_DeepCopyInto lib (ap_Spec s)) (\<lambda>x2.
     mem_bind (ApplicationStatus_DeepCopyInto (ap_Status s)) (\<lambda>x3.
       mem_ret (s\<lparr>ap_ObjectMeta := x1, ap_Spec := x2, ap_Status := x3\<rparr>))))"

definition Application_DeepCopy ::
    "('l, 'x) copy_lib \<Rightarrow> addr option \<Rightarrow> (('l, 'x) cell, addr option) mem" where
  "Application_DeepCopy lib p =
     copy_ptr application_kind (zero_application (cl_zero lib)) (Application_DeepCopyInto lib) p"

definition ApplicationList_DeepCopyInto ::
    "('l, 'x) copy_lib \<Rightarrow> 'l h_application_list \<Rightarrow> (('l, 'x) cell, 'l h_application_list) mem" where
  "ApplicationList_DeepCopyInto lib s =
     mem_bind (cl_ListMeta lib (al_ListMeta s)) (\<lambda>x1.
     mem_bind (copy_slice application_array (zero_application (cl_zero lib)) (Application_DeepCopyInto lib)
         (al_Items s)) (\<lambda>x2.
       mem_ret (s\<lparr>al_ListMeta := x1, al_Items := x2\<rparr>)))"

definition ApplicationList_DeepCopy ::
    "('l, 'x) copy_lib \<Rightarrow> addr option \<Rightarrow> (('l, 'x) cell, addr option) mem" where
  "ApplicationList_DeepCopy lib p =
     copy_ptr application_list_kind
       (zero_application_list (cl_zero lib)) (ApplicationList_DeepCopyInto lib) p"

definition SemanticVersion_DeepCopyInto ::
    "'l semantic_version \<Rightarrow> (('l, 'x) cell, 'l semantic_version) mem" where
  "SemanticVersion_DeepCopyInto s = mem_ret s"

definition SemanticVersion_DeepCopy ::
    "('l, 'x) copy_lib \<Rightarrow> addr option \<Rightarrow> (('l, 'x) cell, addr option) mem" where
  "SemanticVersion_DeepCopy lib p =
     copy_ptr semantic_version_kind (zero_semantic_version (cl_zero lib)) SemanticVersion_DeepCopyInto p"

definition ApplicationReference_DeepCopyInto ::
    "'l h_reference \<Rightarrow> (('l, 'x) cell, 'l h_reference) mem" where
  "ApplicationReference_DeepCopyInto s =
     mem_bind (copy_ptr string_kind '''' mem_ret (rf_Kind s)) (\<lambda>x1.
     mem_bind (copy_ptr string_kind '''' mem_ret (rf_Name s)) (\<lambda>x2.
       mem_ret (s\<lparr>rf_Kind := x1, rf_Name := x2\<rparr>)))"

definition ApplicationReference_DeepCopy ::
    "('l, 'x) copy_lib \<Rightarrow> addr option \<Rightarrow> (('l, 'x) cell, addr option) mem" where
  "ApplicationReference_DeepCopy lib p =
     copy_ptr application_reference_kind
       (zero_application_reference (cl_zero lib)) ApplicationReference_DeepCopyInto p"

definition ApplicationNamedReference_DeepCopyInto ::
    "('l, 'x) copy_lib \<Rightarrow> h_named_reference \<Rightarrow> (('l, 'x) cell, h_named_reference) mem" where
  "ApplicationNamedReference_DeepCopyInto lib s =
     mem_bind (copy_ptr string_kind '''' mem_ret (nr_Name s)) (\<lambda>x1.
     mem_bind (copy_ptr application_reference_kind
         (zero_application_reference (cl_zero lib)) ApplicationReference_DeepCopyInto
         (nr_Reference s)) (\<lambda>x2.
       mem_ret (s\<lparr>nr_Name := x1, nr_Reference := x2\<rparr>)))"

definition ApplicationNamedReference_DeepCopy ::
    "('l, 'x) copy_lib \<Rightarrow> addr option \<Rightarrow> (('l, 'x) cell, addr option) mem" where
  "ApplicationNamedReference_DeepCopy lib p =
     copy_ptr application_named_reference_kind
       zero_application_named_reference (ApplicationNamedReference_DeepCopyInto lib) p"

definition HelmApplicationParameter_DeepCopyInto ::
    "param \<Rightarrow> (('l, 'x) cell, param) mem" where
  "HelmApplicationParameter_DeepCopyInto s = mem_ret s"

definition HelmApplicationParameter_DeepCopy ::
    "addr option \<Rightarrow> (('l, 'x) cell, addr option) mem" where
  "HelmApplicationParameter_DeepCopy p =
     copy_ptr helm_application_parameter_kind
       zero_helm_application_parameter HelmApplicationParameter_DeepCopyInto p"

definition HelmApplicationRecommendation_DeepCopyInto ::
    "h_recommendation \<Rightarrow> (('l, 'x) cell, h_recommendation) mem" where
  "HelmApplicationRecommendation_DeepCopyInto s = mem_ret s"

definition HelmApplicationRecommendation_DeepCopy ::
    "addr option \<Rightarrow> (('l, 'x) cell, addr option) mem" where
  "HelmApplicationRecommendation_DeepCopy p =
     copy_ptr helm_application_recommendation_kind
       zero_helm_application_recommendation HelmApplicationRecommendation_DeepCopyInto p"

definition HelmApplicationStatus_DeepCopyInto ::
    "unit \<Rightarrow> (('l, 'x) cell, unit) mem" where
  "HelmApplicationStatus_DeepCopyInto s = mem_ret s"

definition HelmApplicationStatus_DeepCopy ::
    "addr option \<Rightarrow> (('l, 'x) cell, addr option) mem" where
  "HelmApplicationStatus_DeepCopy p =
     copy_ptr helm_application_status_kind () HelmApplicationStatus_DeepCopyInto p"

text \<open>
  The copy of constraints, written by hand, goes through their text and ignores both errors.  Its
  \<open>DeepCopy\<close> does not ask for nil; the caller does.
\<close>

definition SemanticVersionConstraints_DeepCopyInto ::
    "('l, 'x) copy_lib \<Rightarrow> 'l \<Rightarrow> 'l \<Rightarrow> (('l, 'x) cell, 'l) mem" where
  "SemanticVersionConstraints_DeepCopyInto lib c out =
     mem_bind (cl_MarshalText lib c) (\<lambda>t. cl_UnmarshalText lib t out)"

definition SemanticVersionConstraints_DeepCopy ::
    "('l, 'x) copy_lib \<Rightarrow> addr \<Rightarrow> (('l, 'x) cell, addr) mem" where
  "SemanticVersionConstraints_DeepCopy lib c =
     mem_bind (mem_new constraints_kind (zl_Constraints (cl_zero lib))) (\<lambda>out.
     mem_bind (mem_load constraints_kind c) (\<lambda>x.
     mem_bind (SemanticVersionConstraints_DeepCopyInto lib x (zl_Constraints (cl_zero lib))) (\<lambda>y.
     mem_bind (mem_store constraints_kind out y) (\<lambda>_. mem_ret out))))"

definition copy_constraints ::
    "('l, 'x) copy_lib \<Rightarrow> addr option \<Rightarrow> (('l, 'x) cell, addr option) mem" where
  "copy_constraints lib p =
     (case p of
        None \<Rightarrow> mem_ret None
      | Some c \<Rightarrow> mem_bind (SemanticVersionConstraints_DeepCopy lib c) (\<lambda>out. mem_ret (Some out)))"

definition HelmApplicationDependency_DeepCopyInto ::
    "('l, 'x) copy_lib \<Rightarrow> h_dependency \<Rightarrow> (('l, 'x) cell, h_dependency) mem" where
  "HelmApplicationDependency_DeepCopyInto lib s =
     mem_bind (copy_constraints lib (dp_Constraints s)) (\<lambda>x1.
       mem_ret (s\<lparr>dp_Constraints := x1\<rparr>))"

definition HelmApplicationDependency_DeepCopy ::
    "('l, 'x) copy_lib \<Rightarrow> addr option \<Rightarrow> (('l, 'x) cell, addr option) mem" where
  "HelmApplicationDependency_DeepCopy lib p =
     copy_ptr helm_application_dependency_kind
       zero_helm_application_dependency (HelmApplicationDependency_DeepCopyInto lib) p"

definition Tag_DeepCopyInto ::
    "tag \<Rightarrow> (('l, 'x) cell, tag) mem" where
  "Tag_DeepCopyInto s = mem_ret s"

definition Tag_DeepCopy ::
    "addr option \<Rightarrow> (('l, 'x) cell, addr option) mem" where
  "Tag_DeepCopy p = copy_ptr tag_kind zero_tag Tag_DeepCopyInto p"

definition HelmApplicationVersion_DeepCopyInto ::
    "('l, 'x) copy_lib \<Rightarrow> 'l h_version \<Rightarrow> (('l, 'x) cell, 'l h_version) mem" where
  "HelmApplicationVersion_DeepCopyInto lib s =
     mem_bind (copy_ptr string_kind '''' mem_ret (hv_Repo s)) (\<lambda>x1.
     mem_bind (copy_ptr string_kind '''' mem_ret (hv_Chart s)) (\<lambda>x2.
     mem_bind (copy_ptr string_kind '''' mem_ret (hv_Branch s)) (\<lambda>x3.
     mem_bind (copy_ptr string_kind '''' mem_ret (hv_Path s)) (\<lambda>x4.
     mem_bind (copy_ptr string_kind '''' mem_ret (hv_Release s)) (\<lambda>x5.
     mem_bind (copy_flat_slice helm_application_parameter_array zero_helm_application_parameter
         (hv_Parameters s)) (\<lambda>x6.
     mem_bind (copy_ptr string_kind '''' mem_ret (hv_Namespace s)) (\<lambda>x7.
     mem_bind (copy_ptr bool_kind False mem_ret (hv_CreateNamespace s)) (\<lambda>x8.
     mem_bind (copy_ptr bool_kind False mem_ret (hv_ServerSideApply s)) (\<lambda>x9.
     mem_bind (copy_slice helm_application_dependency_array
         zero_helm_application_dependency (HelmApplicationDependency_DeepCopyInto lib)
         (hv_Dependencies s)) (\<lambda>x10.
     mem_bind (copy_flat_slice helm_application_recommendation_array zero_helm_application_recommendation
         (hv_Recommends s)) (\<lambda>x11.
       mem_ret (s\<lparr>hv_Repo := x1, hv_Chart := x2, hv_Branch := x3, hv_Path := x4, hv_Release := x5,
           hv_Parameters := x6, hv_Namespace := x7, hv_CreateNamespace := x8, hv_ServerSideApply := x9, hv_Dependencies := x10, hv_Recommends := x11\<rparr>))))))))))))"

definition HelmApplicationVersion_DeepCopy ::
    "('l, 'x) copy_lib \<Rightarrow> addr option \<Rightarrow> (('l, 'x) cell, addr option) mem" where
  "HelmApplicationVersion_DeepCopy lib p =
     copy_ptr helm_application_version_kind
       (zero_helm_application_version (cl_zero lib)) (HelmApplicationVersion_DeepCopyInto lib) p"

definition HelmApplicationSpec_DeepCopyInto ::
    "('l, 'x) copy_lib \<Rightarrow> h_helm_spec \<Rightarrow> (('l, 'x) cell, h_helm_spec) mem" where
  "HelmApplicationSpec_DeepCopyInto lib s =
     mem_bind (copy_flat_slice tag_array zero_tag (sp_Tags s)) (\<lambda>x1.
     mem_bind (copy_ptr string_kind '''' mem_ret (sp_Documentation s)) (\<lambda>x2.
     mem_bind (copy_ptr string_kind '''' mem_ret (sp_License s)) (\<lambda>x3.
     mem_bind (copy_flat_slice bytes_kind 0 (sp_Icon s)) (\<lambda>x4.
     mem_bind (copy_slice helm_application_version_array
         (zero_helm_application_version (cl_zero lib)) (HelmApplicationVersion_DeepCopyInto lib)
         (sp_Versions s)) (\<lambda>x5.
       mem_ret (s\<lparr>sp_Tags := x1, sp_Documentation := x2,
           sp_License := x3, sp_Icon := x4, sp_Versions := x5\<rparr>))))))"

definition HelmApplicationSpec_DeepCopy ::
    "('l, 'x) copy_lib \<Rightarrow> addr option \<Rightarrow> (('l, 'x) cell, addr option) mem" where
  "HelmApplicationSpec_DeepCopy lib p =
     copy_ptr helm_application_spec_kind zero_helm_application_spec (HelmApplicationSpec_DeepCopyInto lib) p"

definition HelmApplication_DeepCopyInto ::
    "('l, 'x) copy_lib \<Rightarrow> 'l h_helm_application \<Rightarrow> (('l, 'x) cell, 'l h_helm_application) mem" where
  "HelmApplication_DeepCopyInto lib s =
     mem_bind (cl_ObjectMeta lib (hm_ObjectMeta s)) (\<lambda>x1.
     mem_bind (HelmApplicationSpec_DeepCopyInto lib (hm_Spec s)) (\<lambda>x2.
       mem_ret (s\<lparr>hm_ObjectMeta := x1, hm_Spec := x2\<rparr>)))"

definition HelmApplication_DeepCopy ::
    "('l, 'x) copy_lib \<Rightarrow> addr option \<Rightarrow> (('l, 'x) cell, addr option) mem" where
  "HelmApplication_DeepCopy lib p =
     copy_ptr helm_application_kind
       (zero_helm_application (cl_zero lib)) (HelmApplication_DeepCopyInto lib) p"

definition HelmApplicationList_DeepCopyInto ::
    "('l, 'x) copy_lib \<Rightarrow> 'l h_helm_application_list \<Rightarrow> (('l, 'x) cell, 'l h_helm_application_list) mem" where
  "HelmApplicationList_DeepCopyInto lib s =
     mem_bind (cl_ListMeta lib (hl_ListMeta s)) (\<lambda>x1.
     mem_bind (copy_slice helm_application_array
         (zero_helm_application (cl_zero lib)) (HelmApplication_DeepCopyInto lib)
         (hl_Items s)) (\<lambda>x2.
       mem_ret (s\<lparr>hl_ListMeta := x1, hl_Items := x2\<rparr>)))"

definition HelmApplicationList_DeepCopy ::
    "('l, 'x) copy_lib \<Rightarrow> addr option \<Rightarrow> (('l, 'x) cell, addr option) mem" where
  "HelmApplicationList_DeepCopy lib p =
     copy_ptr helm_application_list_kind
       (zero_helm_application_list (cl_zero lib)) (HelmApplicationList_DeepCopyInto lib) p"

definition IPv4Address_DeepCopyInto ::
    "h_ipv4_address \<Rightarrow> (('l, 'x) cell, h_ipv4_address) mem" where
  "IPv4Address_DeepCopyInto s =
     mem_bind (copy_flat_slice bytes_kind 0 (ia_IP s)) (\<lambda>x1.
       mem_ret (s\<lparr>ia_IP := x1\<rparr>))"

definition IPv4Address_DeepCopy ::
    "addr option \<Rightarrow> (('l, 'x) cell, addr option) mem" where
  "IPv4Address_DeepCopy p = copy_ptr ipv4_address_kind zero_ipv4_address IPv4Address_DeepCopyInto p"

text \<open>The copy of a prefix, written by hand, leaves a field of \<open>out\<close> as it is where that of \<open>in\<close> is nil.\<close>

definition IPv4Prefix_DeepCopyInto_mem ::
    "h_ipv4_prefix \<Rightarrow> h_ipv4_prefix \<Rightarrow> (('l, 'x) cell, h_ipv4_prefix) mem" where
  "IPv4Prefix_DeepCopyInto_mem p out =
     mem_bind (if ip_IP p \<noteq> None then copy_flat_slice bytes_kind 0 (ip_IP p) else mem_ret (ip_IP out)) (\<lambda>x1.
     mem_bind (if ip_Mask p \<noteq> None then copy_flat_slice bytes_kind 0 (ip_Mask p) else mem_ret (ip_Mask out)) (\<lambda>x2.
       mem_ret (out\<lparr>ip_IP := x1, ip_Mask := x2\<rparr>)))"

definition IPv4Prefix_DeepCopy :: "addr option \<Rightarrow> (('l, 'x) cell, addr option) mem" where
  "IPv4Prefix_DeepCopy p =
     copy_ptr ipv4_prefix_kind zero_ipv4_prefix (\<lambda>x. IPv4Prefix_DeepCopyInto_mem x zero_ipv4_prefix) p"

definition MachineGeneric_DeepCopyInto ::
    "('l, 'x) copy_lib \<Rightarrow> h_machine \<Rightarrow> (('l, 'x) cell, h_machine) mem" where
  "MachineGeneric_DeepCopyInto lib s =
     mem_bind (copy_boxed quantity_kind (cl_Quantity lib) (mc_DiskSize s)) (\<lambda>x1.
       mem_ret (s\<lparr>mc_DiskSize := x1\<rparr>))"

definition MachineGeneric_DeepCopy ::
    "('l, 'x) copy_lib \<Rightarrow> addr option \<Rightarrow> (('l, 'x) cell, addr option) mem" where
  "MachineGeneric_DeepCopy lib p =
     copy_ptr machine_generic_kind zero_machine_generic (MachineGeneric_DeepCopyInto lib) p"

definition NetworkGeneric_DeepCopyInto ::
    "h_network \<Rightarrow> (('l, 'x) cell, h_network) mem" where
  "NetworkGeneric_DeepCopyInto s =
     mem_bind (IPv4Prefix_DeepCopyInto_mem (nw_NodeNetwork s) (nw_NodeNetwork s)) (\<lambda>x1.
     mem_bind (copy_slice ipv4_address_array zero_ipv4_address IPv4Address_DeepCopyInto
         (nw_DNSNameservers s)) (\<lambda>x2.
       mem_ret (s\<lparr>nw_NodeNetwork := x1, nw_DNSNameservers := x2\<rparr>)))"

definition NetworkGeneric_DeepCopy ::
    "addr option \<Rightarrow> (('l, 'x) cell, addr option) mem" where
  "NetworkGeneric_DeepCopy p =
     copy_ptr network_generic_kind zero_network_generic NetworkGeneric_DeepCopyInto p"

definition ManagedResourceStatus_DeepCopyInto ::
    "('l, 'x) copy_lib \<Rightarrow> h_managed_status \<Rightarrow> (('l, 'x) cell, h_managed_status) mem" where
  "ManagedResourceStatus_DeepCopyInto lib s =
     mem_bind (copy_slice conditions_kind (zl_Condition (cl_zero lib)) (cl_Condition lib)
         (ms_Conditions s)) (\<lambda>x1.
       mem_ret (s\<lparr>ms_Conditions := x1\<rparr>))"

definition ManagedResourceStatus_DeepCopy ::
    "('l, 'x) copy_lib \<Rightarrow> addr option \<Rightarrow> (('l, 'x) cell, addr option) mem" where
  "ManagedResourceStatus_DeepCopy lib p =
     copy_ptr managed_resource_status_kind
       zero_managed_resource_status (ManagedResourceStatus_DeepCopyInto lib) p"

definition ManagedResource_DeepCopyInto ::
    "('l, 'x) copy_lib \<Rightarrow> 'l h_managed \<Rightarrow> (('l, 'x) cell, 'l h_managed) mem" where
  "ManagedResource_DeepCopyInto lib s =
     mem_bind (cl_ObjectMeta lib (mr_ObjectMeta s)) (\<lambda>x1.
     mem_bind (ManagedResourceStatus_DeepCopyInto lib (mr_Status s)) (\<lambda>x2.
       mem_ret (s\<lparr>mr_ObjectMeta := x1, mr_Status := x2\<rparr>)))"

definition ManagedResource_DeepCopy ::
    "('l, 'x) copy_lib \<Rightarrow> addr option \<Rightarrow> (('l, 'x) cell, addr option) mem" where
  "ManagedResource_DeepCopy lib p =
     copy_ptr managed_resource_kind
       (zero_managed_resource (cl_zero lib)) (ManagedResource_DeepCopyInto lib) p"

definition ManagedResourceList_DeepCopyInto ::
    "('l, 'x) copy_lib \<Rightarrow> 'l h_managed_list \<Rightarrow> (('l, 'x) cell, 'l h_managed_list) mem" where
  "ManagedResourceList_DeepCopyInto lib s =
     mem_bind (cl_ListMeta lib (ml_ListMeta s)) (\<lambda>x1.
     mem_bind (copy_slice managed_resource_array
         (zero_managed_resource (cl_zero lib)) (ManagedResource_DeepCopyInto lib)
         (ml_Items s)) (\<lambda>x2.
       mem_ret (s\<lparr>ml_ListMeta := x1, ml_Items := x2\<rparr>)))"

definition ManagedResourceList_DeepCopy ::
    "('l, 'x) copy_lib \<Rightarrow> addr option \<Rightarrow> (('l, 'x) cell, addr option) mem" where
  "ManagedResourceList_DeepCopy lib p =
     copy_ptr managed_resource_list_kind
       (zero_managed_resource_list (cl_zero lib)) (ManagedResourceList_DeepCopyInto lib) p"

text \<open>
  A list of tags is a slice itself: its copy allocates the array even for nil, which \<open>DeepCopy\<close> excludes,
  and hands back what the new header holds.
\<close>

definition TagList_DeepCopyInto :: "slice option \<Rightarrow> (('l, 'x) cell, slice option) mem" where
  "TagList_DeepCopyInto s =
     (case s of
        None \<Rightarrow> mem_bind (mem_new tag_array []) (\<lambda>b. mem_ret (Some \<lparr>sl_array = b, sl_offset = 0, sl_len = 0\<rparr>))
      | Some _ \<Rightarrow> copy_flat_slice tag_array zero_tag s)"

definition TagList_DeepCopy :: "slice option \<Rightarrow> (('l, 'x) cell, slice option) mem" where
  "TagList_DeepCopy s =
     (case s of
        None \<Rightarrow> mem_ret None
      | Some _ \<Rightarrow>
          mem_bind (mem_new tag_list_kind None) (\<lambda>out.
          mem_bind (TagList_DeepCopyInto s) (\<lambda>y.
          mem_bind (mem_store tag_list_kind out y) (\<lambda>_. mem_load tag_list_kind out))))"

section \<open>Copies as runtime objects\<close>

text \<open>An interface value is nil, or a type together with a pointer: a nil pointer is made a nil interface.\<close>

datatype runtime_object =
    ApplicationObject addr
  | ApplicationListObject addr
  | HelmApplicationObject addr
  | HelmApplicationListObject addr
  | ManagedResourceObject addr
  | ManagedResourceListObject addr

definition Application_DeepCopyObject ::
    "('l, 'x) copy_lib \<Rightarrow> addr option \<Rightarrow> (('l, 'x) cell, runtime_object option) mem" where
  "Application_DeepCopyObject lib p =
     mem_bind (Application_DeepCopy lib p) (\<lambda>c. mem_ret (case c of Some a \<Rightarrow> Some (ApplicationObject a) | None \<Rightarrow> None))"

definition ApplicationList_DeepCopyObject ::
    "('l, 'x) copy_lib \<Rightarrow> addr option \<Rightarrow> (('l, 'x) cell, runtime_object option) mem" where
  "ApplicationList_DeepCopyObject lib p =
     mem_bind (ApplicationList_DeepCopy lib p) (\<lambda>c. mem_ret (case c of Some a \<Rightarrow> Some (ApplicationListObject a) | None \<Rightarrow> None))"

definition HelmApplication_DeepCopyObject ::
    "('l, 'x) copy_lib \<Rightarrow> addr option \<Rightarrow> (('l, 'x) cell, runtime_object option) mem" where
  "HelmApplication_DeepCopyObject lib p =
     mem_bind (HelmApplication_DeepCopy lib p) (\<lambda>c. mem_ret (case c of Some a \<Rightarrow> Some (HelmApplicationObject a) | None \<Rightarrow> None))"

definition HelmApplicationList_DeepCopyObject ::
    "('l, 'x) copy_lib \<Rightarrow> addr option \<Rightarrow> (('l, 'x) cell, runtime_object option) mem" where
  "HelmApplicationList_DeepCopyObject lib p =
     mem_bind (HelmApplicationList_DeepCopy lib p) (\<lambda>c. mem_ret (case c of Some a \<Rightarrow> Some (HelmApplicationListObject a) | None \<Rightarrow> None))"

definition ManagedResource_DeepCopyObject ::
    "('l, 'x) copy_lib \<Rightarrow> addr option \<Rightarrow> (('l, 'x) cell, runtime_object option) mem" where
  "ManagedResource_DeepCopyObject lib p =
     mem_bind (ManagedResource_DeepCopy lib p) (\<lambda>c. mem_ret (case c of Some a \<Rightarrow> Some (ManagedResourceObject a) | None \<Rightarrow> None))"

definition ManagedResourceList_DeepCopyObject ::
    "('l, 'x) copy_lib \<Rightarrow> addr option \<Rightarrow> (('l, 'x) cell, runtime_object option) mem" where
  "ManagedResourceList_DeepCopyObject lib p =
     mem_bind (ManagedResourceList_DeepCopy lib p) (\<lambda>c. mem_ret (case c of Some a \<Rightarrow> Some (ManagedResourceListObject a) | None \<Rightarrow> None))"

end
