(* ===== verification/Deep_Copy_Correct.thy ===== *)
theory Deep_Copy_Correct
  imports Deep_Copy "HOL-Library.Char_ord" "HOL-Library.List_Lexorder"
begin

text \<open>
  The copies of \<open>Deep_Copy\<close> are deep: each keeps the contract \<open>copier\<close> of theory \<open>Memory\<close>, given that the
  copies of the libraries do.  A view for every structure lists its fields in the order of the Go type.
  At the end the independence of an object and its copy, and the use the Argo driver makes of it.
\<close>

section \<open>Views\<close>

text \<open>How the structures of the libraries are read; a semantic version holds no addresses.\<close>

record ('l, 'x) lib_views =
  lv_ObjectMeta :: "(('l, 'x) cell, 'l) view"
  lv_ListMeta :: "(('l, 'x) cell, 'l) view"
  lv_Condition :: "(('l, 'x) cell, 'l) view"
  lv_Quantity :: "(('l, 'x) cell, 'l) view"
  lv_Constraints :: "(('l, 'x) cell, 'l) view"
  lv_Version :: "'l \<Rightarrow> gval"

definition byte_val :: "8 word \<Rightarrow> gval" where
  "byte_val b = GInt (uint b)"

definition type_meta_val :: "type_meta \<Rightarrow> gval" where
  "type_meta_val s = GStruct [GString (tm_Kind s), GString (tm_APIVersion s)]"

definition helm_parameter_val :: "param \<Rightarrow> gval" where
  "helm_parameter_val s = GStruct [GString (p_name s), GString (p_value s)]"

definition application_destination_val :: "app_destination \<Rightarrow> gval" where
  "application_destination_val s = GStruct [GString (ad_name s), GString (ad_namespace s)]"

definition application_health_val :: "application_health \<Rightarrow> gval" where
  "application_health_val s = GStruct [GString (ah_Status s)]"

definition application_sync_val :: "application_sync \<Rightarrow> gval" where
  "application_sync_val s = GStruct [GString (ay_Status s)]"

definition application_sync_automation_val :: "sync_automation \<Rightarrow> gval" where
  "application_sync_automation_val s = GStruct [GBool (sa_selfHeal s), GBool (sa_prune s)]"

definition semantic_version_val :: "('l, 'x) lib_views \<Rightarrow> 'l semantic_version \<Rightarrow> gval" where
  "semantic_version_val V s = GStruct [lv_Version V (sv_Version s)]"

definition helm_application_parameter_val :: "param \<Rightarrow> gval" where
  "helm_application_parameter_val s = GStruct [GString (p_name s), GString (p_value s)]"

definition helm_application_recommendation_val :: "h_recommendation \<Rightarrow> gval" where
  "helm_application_recommendation_val s = GStruct [GString (rc_Name s)]"

definition helm_application_status_val :: "unit \<Rightarrow> gval" where
  "helm_application_status_val s = GStruct []"

definition tag_val :: "tag \<Rightarrow> gval" where
  "tag_val s = GStruct [GString (t_name s), GString (t_value s)]"

definition namespace_metadata_view :: "(('l, 'x) cell, h_namespace_metadata) view" where
  "namespace_metadata_view = struct_view
     [on nm_Labels (ptr_view smap_kind (plain GMap)),
      on nm_Annotations (ptr_view smap_kind (plain GMap))]"

definition application_ignore_difference_view :: "(('l, 'x) cell, h_ignore_difference) view" where
  "application_ignore_difference_view = struct_view
     [plain (\<lambda>s. GString (id_Group s)),
      plain (\<lambda>s. GString (id_Kind s)),
      on id_JSONPointers (slice_view strings_kind (plain GString))]"

definition application_source_helm_view :: "(('l, 'x) cell, h_source_helm) view" where
  "application_source_helm_view = struct_view
     [plain (\<lambda>s. GString (hh_ReleaseName s)),
      plain (\<lambda>s. GString (hh_Values s)),
      on hh_Parameters (slice_view helm_parameter_array (plain helm_parameter_val))]"

definition application_source_view :: "(('l, 'x) cell, h_source) view" where
  "application_source_view = struct_view
     [plain (\<lambda>s. GString (hs_RepoURL s)),
      plain (\<lambda>s. GString (hs_Chart s)),
      plain (\<lambda>s. GString (hs_Path s)),
      plain (\<lambda>s. GString (hs_TargetRevision s)),
      on hs_Helm (ptr_view application_source_helm_kind application_source_helm_view)]"

definition application_sync_policy_view :: "(('l, 'x) cell, h_sync_policy) view" where
  "application_sync_policy_view = struct_view
     [on hp_SyncOptions (slice_view strings_kind (plain GString)),
      on hp_Automated (ptr_view application_sync_automation_kind (plain application_sync_automation_val)),
      on hp_ManagedNamespaceMetadata (ptr_view namespace_metadata_kind namespace_metadata_view)]"

definition application_spec_view :: "(('l, 'x) cell, h_spec) view" where
  "application_spec_view = struct_view
     [plain (\<lambda>s. GString (he_Project s)),
      on he_Source (application_source_view),
      plain (\<lambda>s. application_destination_val (he_Destination s)),
      on he_SyncPolicy (application_sync_policy_view),
      on he_IgnoreDifferences (slice_view application_ignore_difference_array application_ignore_difference_view)]"

definition application_status_view :: "(('l, 'x) cell, h_status) view" where
  "application_status_view = struct_view
     [on ht_Health (ptr_view application_health_kind (plain application_health_val)),
      on ht_Sync (ptr_view application_sync_kind (plain application_sync_val))]"

definition application_view :: "('l, 'x) lib_views \<Rightarrow> (('l, 'x) cell, 'l h_application) view" where
  "application_view V = struct_view
     [plain (\<lambda>s. type_meta_val (ap_TypeMeta s)),
      on ap_ObjectMeta (lv_ObjectMeta V),
      on ap_Spec (application_spec_view),
      on ap_Status (application_status_view)]"

definition application_list_view :: "('l, 'x) lib_views \<Rightarrow> (('l, 'x) cell, 'l h_application_list) view" where
  "application_list_view V = struct_view
     [plain (\<lambda>s. type_meta_val (al_TypeMeta s)),
      on al_ListMeta (lv_ListMeta V),
      on al_Items (slice_view application_array (application_view V))]"

definition application_reference_view :: "('l, 'x) lib_views \<Rightarrow> (('l, 'x) cell, 'l h_reference) view" where
  "application_reference_view V = struct_view
     [on rf_Kind (ptr_view string_kind (plain GString)),
      on rf_Name (ptr_view string_kind (plain GString)),
      plain (\<lambda>s. semantic_version_val V (rf_Version s))]"

definition application_named_reference_view :: "('l, 'x) lib_views \<Rightarrow> (('l, 'x) cell, h_named_reference) view" where
  "application_named_reference_view V = struct_view
     [on nr_Name (ptr_view string_kind (plain GString)),
      on nr_Reference (ptr_view application_reference_kind (application_reference_view V))]"

definition helm_application_dependency_view :: "('l, 'x) lib_views \<Rightarrow> (('l, 'x) cell, h_dependency) view" where
  "helm_application_dependency_view V = struct_view
     [plain (\<lambda>s. GString (dp_Name s)),
      on dp_Constraints (ptr_view constraints_kind (lv_Constraints V))]"

definition helm_application_version_view :: "('l, 'x) lib_views \<Rightarrow> (('l, 'x) cell, 'l h_version) view" where
  "helm_application_version_view V = struct_view
     [on hv_Repo (ptr_view string_kind (plain GString)),
      on hv_Chart (ptr_view string_kind (plain GString)),
      on hv_Branch (ptr_view string_kind (plain GString)),
      on hv_Path (ptr_view string_kind (plain GString)),
      plain (\<lambda>s. semantic_version_val V (hv_Version s)),
      on hv_Release (ptr_view string_kind (plain GString)),
      on hv_Parameters (slice_view helm_application_parameter_array (plain helm_application_parameter_val)),
      on hv_Namespace (ptr_view string_kind (plain GString)),
      on hv_CreateNamespace (ptr_view bool_kind (plain GBool)),
      on hv_ServerSideApply (ptr_view bool_kind (plain GBool)),
      on hv_Dependencies (slice_view helm_application_dependency_array (helm_application_dependency_view V)),
      on hv_Recommends (slice_view helm_application_recommendation_array (plain helm_application_recommendation_val))]"

definition helm_application_spec_view :: "('l, 'x) lib_views \<Rightarrow> (('l, 'x) cell, h_helm_spec) view" where
  "helm_application_spec_view V = struct_view
     [on sp_Tags (slice_view tag_array (plain tag_val)),
      on sp_Documentation (ptr_view string_kind (plain GString)),
      on sp_License (ptr_view string_kind (plain GString)),
      on sp_Icon (slice_view bytes_kind (plain byte_val)),
      on sp_Versions (slice_view helm_application_version_array (helm_application_version_view V))]"

definition helm_application_view :: "('l, 'x) lib_views \<Rightarrow> (('l, 'x) cell, 'l h_helm_application) view" where
  "helm_application_view V = struct_view
     [plain (\<lambda>s. type_meta_val (hm_TypeMeta s)),
      on hm_ObjectMeta (lv_ObjectMeta V),
      on hm_Spec (helm_application_spec_view V),
      plain (\<lambda>s. helm_application_status_val (hm_Status s))]"

definition helm_application_list_view :: "('l, 'x) lib_views \<Rightarrow> (('l, 'x) cell, 'l h_helm_application_list) view" where
  "helm_application_list_view V = struct_view
     [plain (\<lambda>s. type_meta_val (hl_TypeMeta s)),
      on hl_ListMeta (lv_ListMeta V),
      on hl_Items (slice_view helm_application_array (helm_application_view V))]"

definition ipv4_address_view :: "(('l, 'x) cell, h_ipv4_address) view" where
  "ipv4_address_view = struct_view
     [on ia_IP (slice_view bytes_kind (plain byte_val))]"

definition ipv4_prefix_view :: "(('l, 'x) cell, h_ipv4_prefix) view" where
  "ipv4_prefix_view = struct_view
     [on ip_IP (slice_view bytes_kind (plain byte_val)),
      on ip_Mask (slice_view bytes_kind (plain byte_val))]"

definition machine_generic_view :: "('l, 'x) lib_views \<Rightarrow> (('l, 'x) cell, h_machine) view" where
  "machine_generic_view V = struct_view
     [plain (\<lambda>s. GString (mc_ImageID s)),
      plain (\<lambda>s. GString (mc_FlavorID s)),
      on mc_DiskSize (ptr_view quantity_kind (lv_Quantity V)),
      plain (\<lambda>s. GInt (mc_Replicas s))]"

definition network_generic_view :: "(('l, 'x) cell, h_network) view" where
  "network_generic_view = struct_view
     [on nw_NodeNetwork (ipv4_prefix_view),
      on nw_DNSNameservers (slice_view ipv4_address_array ipv4_address_view)]"

definition managed_resource_status_view :: "('l, 'x) lib_views \<Rightarrow> (('l, 'x) cell, h_managed_status) view" where
  "managed_resource_status_view V = struct_view
     [on ms_Conditions (slice_view conditions_kind (lv_Condition V))]"

definition managed_resource_view :: "('l, 'x) lib_views \<Rightarrow> (('l, 'x) cell, 'l h_managed) view" where
  "managed_resource_view V = struct_view
     [plain (\<lambda>s. type_meta_val (mr_TypeMeta s)),
      on mr_ObjectMeta (lv_ObjectMeta V),
      on mr_Status (managed_resource_status_view V)]"

definition managed_resource_list_view :: "('l, 'x) lib_views \<Rightarrow> (('l, 'x) cell, 'l h_managed_list) view" where
  "managed_resource_list_view V = struct_view
     [plain (\<lambda>s. type_meta_val (ml_TypeMeta s)),
      on ml_ListMeta (lv_ListMeta V),
      on ml_Items (slice_view managed_resource_array (managed_resource_view V))]"

section \<open>The copies of the libraries\<close>

text \<open>
  What is asked of the libraries: \<open>range\<close> walks every entry of a map once, the copies of \<open>metav1\<close> and
  \<open>resource\<close> are deep, and constraints written as text are read back as the same constraints.
\<close>

definition lib_deep :: "('l, 'x) copy_lib \<Rightarrow> ('l, 'x) lib_views \<Rightarrow> bool" where
  "lib_deep lib V \<longleftrightarrow>
     (\<forall>m. walk_of m (cl_walk lib m)) \<and>
     copier (lv_ObjectMeta V) (cl_ObjectMeta lib) \<and>
     copier (lv_ListMeta V) (cl_ListMeta lib) \<and>
     copier (lv_Condition V) (cl_Condition lib) \<and>
     copier (lv_Quantity V) (cl_Quantity lib) \<and>
     representation (lv_Constraints V) \<and>
     (\<forall>h S c v. lv_Constraints V h S c = Some v \<longrightarrow>
        (\<exists>t h1 c' h2. cl_MarshalText lib c h = Some (t, h1) \<and> extends h h1 \<and>
           cl_UnmarshalText lib t (zl_Constraints (cl_zero lib)) h1 = Some (c', h2) \<and> extends h1 h2 \<and>
           lv_Constraints V h2 {length h1..} c' = Some v))"

lemma kinds_ok [copiers]:
  "kind_ok string_kind" "kind_ok bool_kind" "kind_ok bytes_kind"
  "kind_ok strings_kind" "kind_ok smap_kind" "kind_ok quantity_kind"
  "kind_ok constraints_kind" "kind_ok conditions_kind" "kind_ok tag_list_kind"
  "kind_ok helm_parameter_kind" "kind_ok application_destination_kind" "kind_ok application_health_kind"
  "kind_ok application_sync_kind" "kind_ok application_sync_automation_kind" "kind_ok namespace_metadata_kind"
  "kind_ok application_ignore_difference_kind" "kind_ok application_source_helm_kind" "kind_ok application_source_kind"
  "kind_ok application_sync_policy_kind" "kind_ok application_spec_kind" "kind_ok application_status_kind"
  "kind_ok application_kind" "kind_ok application_list_kind" "kind_ok semantic_version_kind"
  "kind_ok application_reference_kind" "kind_ok application_named_reference_kind" "kind_ok helm_application_parameter_kind"
  "kind_ok helm_application_recommendation_kind" "kind_ok helm_application_status_kind" "kind_ok helm_application_dependency_kind"
  "kind_ok tag_kind" "kind_ok helm_application_version_kind" "kind_ok helm_application_spec_kind"
  "kind_ok helm_application_kind" "kind_ok helm_application_list_kind" "kind_ok ipv4_address_kind"
  "kind_ok ipv4_prefix_kind" "kind_ok machine_generic_kind" "kind_ok network_generic_kind"
  "kind_ok managed_resource_status_kind" "kind_ok managed_resource_kind" "kind_ok managed_resource_list_kind"
  "kind_ok helm_parameter_array" "kind_ok application_ignore_difference_array" "kind_ok application_array"
  "kind_ok helm_application_parameter_array" "kind_ok helm_application_dependency_array" "kind_ok helm_application_recommendation_array"
  "kind_ok tag_array" "kind_ok helm_application_version_array" "kind_ok helm_application_array"
  "kind_ok ipv4_address_array" "kind_ok managed_resource_array"
  by (simp_all add: kind_ok_def kind_defs)

lemma lib_walk: "lib_deep lib V \<Longrightarrow> walk_of m (cl_walk lib m)"
  by (simp add: lib_deep_def)

lemma lib_copiers [copiers]:
  assumes "lib_deep lib V"
  shows "copier (lv_ObjectMeta V) (cl_ObjectMeta lib)" "copier (lv_ListMeta V) (cl_ListMeta lib)"
    "copier (lv_Condition V) (cl_Condition lib)" "copier (lv_Quantity V) (cl_Quantity lib)"
  using assms by (simp_all add: lib_deep_def)

lemma copier_copy_constraints [copiers]:
  assumes lib: "lib_deep lib V"
  shows "copier (ptr_view constraints_kind (lv_Constraints V)) (copy_constraints lib)"
proof -
  let ?z = "zl_Constraints (cl_zero lib)"
  have "copier (lv_Constraints V) (\<lambda>c. SemanticVersionConstraints_DeepCopyInto lib c ?z)"
  proof (intro copier.intro copier_axioms.intro)
    show rep: "representation (lv_Constraints V)" using lib by (simp add: lib_deep_def)
    fix h S s v assume "lv_Constraints V h S s = Some v"
    with lib obtain t h1 c' h2 where m: "cl_MarshalText lib s h = Some (t, h1)" "extends h h1"
      "cl_UnmarshalText lib t ?z h1 = Some (c', h2)" "extends h1 h2"
      and v: "lv_Constraints V h2 {length h1..} c' = Some v"
      unfolding lib_deep_def by blast
    have "lv_Constraints V h2 {length h..} c' = Some v"
      by (rule representation.mono [OF rep v]) (use extends_length [OF m(2)] in auto)
    with m show "\<exists>s' h'. SemanticVersionConstraints_DeepCopyInto lib s ?z h = Some (s', h') \<and>
        extends h h' \<and> lv_Constraints V h' {length h..} s' = Some v"
      by (auto simp: SemanticVersionConstraints_DeepCopyInto_def mem_bind_def intro: extends_trans)
  qed
  then have "copier (ptr_view constraints_kind (lv_Constraints V))
      (copy_ptr constraints_kind ?z (\<lambda>c. SemanticVersionConstraints_DeepCopyInto lib c ?z))"
    by (rule copier_ptr) (rule kinds_ok)
  moreover have "copy_constraints lib = copy_ptr constraints_kind ?z (\<lambda>c. SemanticVersionConstraints_DeepCopyInto lib c ?z)"
    by (auto simp: fun_eq_iff copy_constraints_def copy_ptr_def SemanticVersionConstraints_DeepCopy_def
        mem_bind_def mem_ret_def split: option.splits)
  ultimately show ?thesis by simp
qed

section \<open>Every structure is copied deeply\<close>

lemma flat_copies:
  "HelmParameter_DeepCopyInto = mem_ret"
  "ApplicationDestination_DeepCopyInto = mem_ret"
  "ApplicationHealth_DeepCopyInto = mem_ret"
  "ApplicationSync_DeepCopyInto = mem_ret"
  "ApplicationSyncAutomation_DeepCopyInto = mem_ret"
  "SemanticVersion_DeepCopyInto = mem_ret"
  "HelmApplicationParameter_DeepCopyInto = mem_ret"
  "HelmApplicationRecommendation_DeepCopyInto = mem_ret"
  "HelmApplicationStatus_DeepCopyInto = mem_ret"
  "Tag_DeepCopyInto = mem_ret"
  by (simp_all add: fun_eq_iff HelmParameter_DeepCopyInto_def ApplicationDestination_DeepCopyInto_def ApplicationHealth_DeepCopyInto_def
    ApplicationSync_DeepCopyInto_def ApplicationSyncAutomation_DeepCopyInto_def SemanticVersion_DeepCopyInto_def
    HelmApplicationParameter_DeepCopyInto_def HelmApplicationRecommendation_DeepCopyInto_def HelmApplicationStatus_DeepCopyInto_def
    Tag_DeepCopyInto_def)

lemma copier_namespace_metadata [copiers]:
  "lib_deep lib V \<Longrightarrow> copier namespace_metadata_view (NamespaceMetadata_DeepCopyInto lib)"
  unfolding namespace_metadata_view_def
  by (rule copier_struct, simp, (rule views copier_representation copiers | assumption)+,
      clarsimp simp: struct_simps NamespaceMetadata_DeepCopyInto_def simp del: those.simps,
      (rule produces_bind stable_True copiers lib_walk | assumption)+, rule produces_ret, simp add: struct_simps)

lemma copier_application_ignore_difference [copiers]:
  "copier application_ignore_difference_view ApplicationIgnoreDifference_DeepCopyInto"
  unfolding application_ignore_difference_view_def
  by (rule copier_struct, simp, (rule views copier_representation copiers | assumption)+,
      clarsimp simp: struct_simps ApplicationIgnoreDifference_DeepCopyInto_def simp del: those.simps,
      (rule produces_bind stable_True copiers lib_walk | assumption)+, rule produces_ret, simp add: struct_simps)

lemma copier_application_source_helm [copiers]:
  "copier application_source_helm_view ApplicationSourceHelm_DeepCopyInto"
  unfolding application_source_helm_view_def
  by (rule copier_struct, simp, (rule views copier_representation copiers | assumption)+,
      clarsimp simp: struct_simps ApplicationSourceHelm_DeepCopyInto_def simp del: those.simps,
      (rule produces_bind stable_True copiers lib_walk | assumption)+, rule produces_ret, simp add: struct_simps)

lemma copier_application_source [copiers]:
  "copier application_source_view ApplicationSource_DeepCopyInto"
  unfolding application_source_view_def
  by (rule copier_struct, simp, (rule views copier_representation copiers | assumption)+,
      clarsimp simp: struct_simps ApplicationSource_DeepCopyInto_def simp del: those.simps,
      (rule produces_bind stable_True copiers lib_walk | assumption)+, rule produces_ret, simp add: struct_simps)

lemma copier_application_sync_policy [copiers]:
  "lib_deep lib V \<Longrightarrow> copier application_sync_policy_view (ApplicationSyncPolicy_DeepCopyInto lib)"
  unfolding application_sync_policy_view_def
  by (rule copier_struct, simp, (rule views copier_representation copiers | assumption)+,
      clarsimp simp: struct_simps ApplicationSyncPolicy_DeepCopyInto_def simp del: those.simps,
      (rule produces_bind stable_True copiers lib_walk | assumption)+, rule produces_ret, simp add: struct_simps)

lemma copier_application_spec [copiers]:
  "lib_deep lib V \<Longrightarrow> copier application_spec_view (ApplicationSpec_DeepCopyInto lib)"
  unfolding application_spec_view_def
  by (rule copier_struct, simp, (rule views copier_representation copiers | assumption)+,
      clarsimp simp: struct_simps ApplicationSpec_DeepCopyInto_def simp del: those.simps,
      (rule produces_bind stable_True copiers lib_walk | assumption)+, rule produces_ret, simp add: struct_simps)

lemma copier_application_status [copiers]:
  "copier application_status_view ApplicationStatus_DeepCopyInto"
  unfolding application_status_view_def
  by (rule copier_struct, simp, (rule views copier_representation copiers | assumption)+,
      clarsimp simp: struct_simps ApplicationStatus_DeepCopyInto_def simp del: those.simps,
      (rule produces_bind stable_True copiers lib_walk | assumption)+, rule produces_ret, simp add: struct_simps)

lemma copier_application [copiers]:
  "lib_deep lib V \<Longrightarrow> copier (application_view V) (Application_DeepCopyInto lib)"
  unfolding application_view_def
  by (rule copier_struct, simp, (rule views copier_representation copiers | assumption)+,
      clarsimp simp: struct_simps Application_DeepCopyInto_def simp del: those.simps,
      (rule produces_bind stable_True copiers lib_walk | assumption)+, rule produces_ret, simp add: struct_simps)

lemma copier_application_list [copiers]:
  "lib_deep lib V \<Longrightarrow> copier (application_list_view V) (ApplicationList_DeepCopyInto lib)"
  unfolding application_list_view_def
  by (rule copier_struct, simp, (rule views copier_representation copiers | assumption)+,
      clarsimp simp: struct_simps ApplicationList_DeepCopyInto_def simp del: those.simps,
      (rule produces_bind stable_True copiers lib_walk | assumption)+, rule produces_ret, simp add: struct_simps)

lemma copier_application_reference [copiers]:
  "copier (application_reference_view V) ApplicationReference_DeepCopyInto"
  unfolding application_reference_view_def
  by (rule copier_struct, simp, (rule views copier_representation copiers | assumption)+,
      clarsimp simp: struct_simps ApplicationReference_DeepCopyInto_def simp del: those.simps,
      (rule produces_bind stable_True copiers lib_walk | assumption)+, rule produces_ret, simp add: struct_simps)

lemma copier_application_named_reference [copiers]:
  "lib_deep lib V \<Longrightarrow> copier (application_named_reference_view V) (ApplicationNamedReference_DeepCopyInto lib)"
  unfolding application_named_reference_view_def
  by (rule copier_struct, simp, (rule views copier_representation copiers | assumption)+,
      clarsimp simp: struct_simps ApplicationNamedReference_DeepCopyInto_def simp del: those.simps,
      (rule produces_bind stable_True copiers lib_walk | assumption)+, rule produces_ret, simp add: struct_simps)

lemma copier_helm_application_dependency [copiers]:
  "lib_deep lib V \<Longrightarrow> copier (helm_application_dependency_view V) (HelmApplicationDependency_DeepCopyInto lib)"
  unfolding helm_application_dependency_view_def
  by (rule copier_struct, simp, (rule views copier_representation copiers | assumption)+,
      clarsimp simp: struct_simps HelmApplicationDependency_DeepCopyInto_def simp del: those.simps,
      (rule produces_bind stable_True copiers lib_walk | assumption)+, rule produces_ret, simp add: struct_simps)

lemma copier_helm_application_version [copiers]:
  "lib_deep lib V \<Longrightarrow> copier (helm_application_version_view V) (HelmApplicationVersion_DeepCopyInto lib)"
  unfolding helm_application_version_view_def
  by (rule copier_struct, simp, (rule views copier_representation copiers | assumption)+,
      clarsimp simp: struct_simps HelmApplicationVersion_DeepCopyInto_def simp del: those.simps,
      (rule produces_bind stable_True copiers lib_walk | assumption)+, rule produces_ret, simp add: struct_simps)

lemma copier_helm_application_spec [copiers]:
  "lib_deep lib V \<Longrightarrow> copier (helm_application_spec_view V) (HelmApplicationSpec_DeepCopyInto lib)"
  unfolding helm_application_spec_view_def
  by (rule copier_struct, simp, (rule views copier_representation copiers | assumption)+,
      clarsimp simp: struct_simps HelmApplicationSpec_DeepCopyInto_def simp del: those.simps,
      (rule produces_bind stable_True copiers lib_walk | assumption)+, rule produces_ret, simp add: struct_simps)

lemma copier_helm_application [copiers]:
  "lib_deep lib V \<Longrightarrow> copier (helm_application_view V) (HelmApplication_DeepCopyInto lib)"
  unfolding helm_application_view_def
  by (rule copier_struct, simp, (rule views copier_representation copiers | assumption)+,
      clarsimp simp: struct_simps HelmApplication_DeepCopyInto_def simp del: those.simps,
      (rule produces_bind stable_True copiers lib_walk | assumption)+, rule produces_ret, simp add: struct_simps)

lemma copier_helm_application_list [copiers]:
  "lib_deep lib V \<Longrightarrow> copier (helm_application_list_view V) (HelmApplicationList_DeepCopyInto lib)"
  unfolding helm_application_list_view_def
  by (rule copier_struct, simp, (rule views copier_representation copiers | assumption)+,
      clarsimp simp: struct_simps HelmApplicationList_DeepCopyInto_def simp del: those.simps,
      (rule produces_bind stable_True copiers lib_walk | assumption)+, rule produces_ret, simp add: struct_simps)

lemma copier_ipv4_address [copiers]:
  "copier ipv4_address_view IPv4Address_DeepCopyInto"
  unfolding ipv4_address_view_def
  by (rule copier_struct, simp, (rule views copier_representation copiers | assumption)+,
      clarsimp simp: struct_simps IPv4Address_DeepCopyInto_def simp del: those.simps,
      (rule produces_bind stable_True copiers lib_walk | assumption)+, rule produces_ret, simp add: struct_simps)

text \<open>The fields of a prefix that are nil are nil in \<open>out\<close> as well, wherever its copy is called.\<close>

lemma prefix_filled: "(p :: h_ipv4_prefix)\<lparr>ip_IP := a, ip_Mask := b\<rparr> = \<lparr>ip_IP = a, ip_Mask = b\<rparr>"
  by (cases p) simp

lemma prefix_copy:
  assumes "ip_IP p = None \<Longrightarrow> ip_IP out = None" and "ip_Mask p = None \<Longrightarrow> ip_Mask out = None"
  shows "IPv4Prefix_DeepCopyInto_mem p out =
    mem_bind (copy_flat_slice bytes_kind 0 (ip_IP p)) (\<lambda>x1.
    mem_bind (copy_flat_slice bytes_kind 0 (ip_Mask p)) (\<lambda>x2. mem_ret (p\<lparr>ip_IP := x1, ip_Mask := x2\<rparr>)))"
  using assms
  by (cases "ip_IP p"; cases "ip_Mask p")
    (simp_all add: prefix_filled IPv4Prefix_DeepCopyInto_mem_def copy_flat_slice_def)

lemma copier_prefix:
  assumes "\<And>p. ip_IP p = None \<Longrightarrow> ip_IP (out p) = None" and "\<And>p. ip_Mask p = None \<Longrightarrow> ip_Mask (out p) = None"
  shows "copier ipv4_prefix_view (\<lambda>p. IPv4Prefix_DeepCopyInto_mem p (out p) :: (('l, 'x) cell, h_ipv4_prefix) mem)"
proof -
  have eq: "(\<lambda>p. IPv4Prefix_DeepCopyInto_mem p (out p) :: (('l, 'x) cell, h_ipv4_prefix) mem) = (\<lambda>p.
      mem_bind (copy_flat_slice bytes_kind 0 (ip_IP p)) (\<lambda>x1.
      mem_bind (copy_flat_slice bytes_kind 0 (ip_Mask p)) (\<lambda>x2. mem_ret (p\<lparr>ip_IP := x1, ip_Mask := x2\<rparr>))))"
    by (rule ext, rule prefix_copy) (use assms in auto)
  show ?thesis
    unfolding ipv4_prefix_view_def eq
    by (rule copier_struct, simp, (rule views)+, clarsimp simp: struct_simps simp del: those.simps,
        (rule produces_bind stable_True copiers | assumption)+, rule produces_ret, simp add: struct_simps)
qed

lemma copier_ipv4_prefix:
  "copier ipv4_prefix_view (\<lambda>p. IPv4Prefix_DeepCopyInto_mem p p)"
  "copier ipv4_prefix_view (\<lambda>p. IPv4Prefix_DeepCopyInto_mem p zero_ipv4_prefix)"
  using copier_prefix [of "\<lambda>p. p"] copier_prefix [of "\<lambda>p. zero_ipv4_prefix"]
  by (simp_all add: zero_ipv4_prefix_def)

lemmas representation_ipv4_prefix [copiers] = copier_representation [OF copier_ipv4_prefix(1)]

lemma copier_machine_generic [copiers]:
  "lib_deep lib V \<Longrightarrow> copier (machine_generic_view V) (MachineGeneric_DeepCopyInto lib)"
  unfolding machine_generic_view_def
  by (rule copier_struct, simp, (rule views copier_representation copiers | assumption)+,
      clarsimp simp: struct_simps MachineGeneric_DeepCopyInto_def simp del: those.simps,
      (rule produces_bind stable_True copiers lib_walk | assumption)+, rule produces_ret, simp add: struct_simps)

lemma copier_network_generic [copiers]:
  "copier network_generic_view NetworkGeneric_DeepCopyInto"
  unfolding network_generic_view_def
  by (rule copier_struct, simp, (rule views copier_representation copiers | assumption)+,
      clarsimp simp: struct_simps NetworkGeneric_DeepCopyInto_def simp del: those.simps,
      rule produces_bind [where c = "\<lambda>p. IPv4Prefix_DeepCopyInto_mem p p"], rule copier_ipv4_prefix, assumption, rule stable_True,
      (rule produces_bind stable_True copiers lib_walk | assumption)+, rule produces_ret, simp add: struct_simps)

lemma copier_managed_resource_status [copiers]:
  "lib_deep lib V \<Longrightarrow> copier (managed_resource_status_view V) (ManagedResourceStatus_DeepCopyInto lib)"
  unfolding managed_resource_status_view_def
  by (rule copier_struct, simp, (rule views copier_representation copiers | assumption)+,
      clarsimp simp: struct_simps ManagedResourceStatus_DeepCopyInto_def simp del: those.simps,
      (rule produces_bind stable_True copiers lib_walk | assumption)+, rule produces_ret, simp add: struct_simps)

lemma copier_managed_resource [copiers]:
  "lib_deep lib V \<Longrightarrow> copier (managed_resource_view V) (ManagedResource_DeepCopyInto lib)"
  unfolding managed_resource_view_def
  by (rule copier_struct, simp, (rule views copier_representation copiers | assumption)+,
      clarsimp simp: struct_simps ManagedResource_DeepCopyInto_def simp del: those.simps,
      (rule produces_bind stable_True copiers lib_walk | assumption)+, rule produces_ret, simp add: struct_simps)

lemma copier_managed_resource_list [copiers]:
  "lib_deep lib V \<Longrightarrow> copier (managed_resource_list_view V) (ManagedResourceList_DeepCopyInto lib)"
  unfolding managed_resource_list_view_def
  by (rule copier_struct, simp, (rule views copier_representation copiers | assumption)+,
      clarsimp simp: struct_simps ManagedResourceList_DeepCopyInto_def simp del: those.simps,
      (rule produces_bind stable_True copiers lib_walk | assumption)+, rule produces_ret, simp add: struct_simps)

section \<open>Copies through a pointer\<close>

lemma flat_DeepCopy:
  "copier (ptr_view helm_parameter_kind (plain helm_parameter_val)) HelmParameter_DeepCopy"
  "copier (ptr_view application_destination_kind (plain application_destination_val)) ApplicationDestination_DeepCopy"
  "copier (ptr_view application_health_kind (plain application_health_val)) ApplicationHealth_DeepCopy"
  "copier (ptr_view application_sync_kind (plain application_sync_val)) ApplicationSync_DeepCopy"
  "copier (ptr_view application_sync_automation_kind (plain application_sync_automation_val)) ApplicationSyncAutomation_DeepCopy"
  "copier (ptr_view semantic_version_kind (plain (semantic_version_val V))) (SemanticVersion_DeepCopy lib)"
  "copier (ptr_view helm_application_parameter_kind (plain helm_application_parameter_val)) HelmApplicationParameter_DeepCopy"
  "copier (ptr_view helm_application_recommendation_kind (plain helm_application_recommendation_val)) HelmApplicationRecommendation_DeepCopy"
  "copier (ptr_view helm_application_status_kind (plain helm_application_status_val)) HelmApplicationStatus_DeepCopy"
  "copier (ptr_view tag_kind (plain tag_val)) Tag_DeepCopy"
  unfolding HelmParameter_DeepCopy_def [abs_def] ApplicationDestination_DeepCopy_def [abs_def]
    ApplicationHealth_DeepCopy_def [abs_def] ApplicationSync_DeepCopy_def [abs_def]
    ApplicationSyncAutomation_DeepCopy_def [abs_def] SemanticVersion_DeepCopy_def [abs_def]
    HelmApplicationParameter_DeepCopy_def [abs_def] HelmApplicationRecommendation_DeepCopy_def [abs_def]
    HelmApplicationStatus_DeepCopy_def [abs_def] Tag_DeepCopy_def [abs_def] flat_copies
  by (rule copiers)+

lemma struct_DeepCopy:
  assumes "lib_deep lib V"
  shows
  "copier (ptr_view namespace_metadata_kind namespace_metadata_view) (NamespaceMetadata_DeepCopy lib)"
  "copier (ptr_view application_ignore_difference_kind application_ignore_difference_view) ApplicationIgnoreDifference_DeepCopy"
  "copier (ptr_view application_source_helm_kind application_source_helm_view) ApplicationSourceHelm_DeepCopy"
  "copier (ptr_view application_source_kind application_source_view) ApplicationSource_DeepCopy"
  "copier (ptr_view application_sync_policy_kind application_sync_policy_view) (ApplicationSyncPolicy_DeepCopy lib)"
  "copier (ptr_view application_spec_kind application_spec_view) (ApplicationSpec_DeepCopy lib)"
  "copier (ptr_view application_status_kind application_status_view) ApplicationStatus_DeepCopy"
  "copier (ptr_view application_kind (application_view V)) (Application_DeepCopy lib)"
  "copier (ptr_view application_list_kind (application_list_view V)) (ApplicationList_DeepCopy lib)"
  "copier (ptr_view application_reference_kind (application_reference_view V)) (ApplicationReference_DeepCopy lib)"
  "copier (ptr_view application_named_reference_kind (application_named_reference_view V)) (ApplicationNamedReference_DeepCopy lib)"
  "copier (ptr_view helm_application_dependency_kind (helm_application_dependency_view V)) (HelmApplicationDependency_DeepCopy lib)"
  "copier (ptr_view helm_application_version_kind (helm_application_version_view V)) (HelmApplicationVersion_DeepCopy lib)"
  "copier (ptr_view helm_application_spec_kind (helm_application_spec_view V)) (HelmApplicationSpec_DeepCopy lib)"
  "copier (ptr_view helm_application_kind (helm_application_view V)) (HelmApplication_DeepCopy lib)"
  "copier (ptr_view helm_application_list_kind (helm_application_list_view V)) (HelmApplicationList_DeepCopy lib)"
  "copier (ptr_view ipv4_address_kind ipv4_address_view) IPv4Address_DeepCopy"
  "copier (ptr_view machine_generic_kind (machine_generic_view V)) (MachineGeneric_DeepCopy lib)"
  "copier (ptr_view network_generic_kind network_generic_view) NetworkGeneric_DeepCopy"
  "copier (ptr_view managed_resource_status_kind (managed_resource_status_view V)) (ManagedResourceStatus_DeepCopy lib)"
  "copier (ptr_view managed_resource_kind (managed_resource_view V)) (ManagedResource_DeepCopy lib)"
  "copier (ptr_view managed_resource_list_kind (managed_resource_list_view V)) (ManagedResourceList_DeepCopy lib)"
  "copier (ptr_view ipv4_prefix_kind ipv4_prefix_view) IPv4Prefix_DeepCopy"
  unfolding NamespaceMetadata_DeepCopy_def [abs_def] ApplicationIgnoreDifference_DeepCopy_def [abs_def]
    ApplicationSourceHelm_DeepCopy_def [abs_def] ApplicationSource_DeepCopy_def [abs_def]
    ApplicationSyncPolicy_DeepCopy_def [abs_def] ApplicationSpec_DeepCopy_def [abs_def]
    ApplicationStatus_DeepCopy_def [abs_def] Application_DeepCopy_def [abs_def]
    ApplicationList_DeepCopy_def [abs_def] ApplicationReference_DeepCopy_def [abs_def]
    ApplicationNamedReference_DeepCopy_def [abs_def] HelmApplicationDependency_DeepCopy_def [abs_def]
    HelmApplicationVersion_DeepCopy_def [abs_def] HelmApplicationSpec_DeepCopy_def [abs_def]
    HelmApplication_DeepCopy_def [abs_def] HelmApplicationList_DeepCopy_def [abs_def]
    IPv4Address_DeepCopy_def [abs_def] MachineGeneric_DeepCopy_def [abs_def]
    NetworkGeneric_DeepCopy_def [abs_def] ManagedResourceStatus_DeepCopy_def [abs_def]
    ManagedResource_DeepCopy_def [abs_def] ManagedResourceList_DeepCopy_def [abs_def]
    IPv4Prefix_DeepCopy_def [abs_def]
  by (rule copiers copier_ipv4_prefix assms)+

text \<open>Tags: the array is copied, and a list that is nil stays nil.\<close>

lemma tag_array_ok: "kind_ok tag_array"
  by (rule kinds_ok)

lemma copier_tag_list: "copier (slice_view tag_array (plain tag_val)) TagList_DeepCopy"
proof (intro copier.intro copier_axioms.intro)
  let ?V = "slice_view tag_array (plain tag_val)"
  show rep: "representation ?V" by blast
  fix h :: "('l, 'x) cell list" and S p v assume view: "?V h S p = Some v"
  show "\<exists>s' h'. TagList_DeepCopy p h = Some (s', h') \<and> extends h h' \<and> ?V h' {length h..} s' = Some v"
  proof (cases p)
    case None
    with view show ?thesis by (auto simp: TagList_DeepCopy_def slice_view_def mem_ret_def)
  next
    case (Some s)
    let ?h = "h @ [put tag_list_kind None]"
    from copier.copies [OF copier_flat_slice [OF tag_array_ok] representation.kept [OF rep view extends_append]]
    obtain s' h' where s': "copy_flat_slice tag_array zero_tag p ?h = Some (s', h')" "extends ?h h'"
      "?V h' {length ?h..} s' = Some v" by blast
    from s'(2) have len: "length h < length h'" by (simp add: extends_def)
    let ?g = "h'[length h := put tag_list_kind s']"
    have "?V ?g {length h..} s' = Some v"
      by (rule representation.transfer [OF rep s'(3)]) auto
    moreover have "extends h ?g"
      by (rule extends_update) (use s'(2) in \<open>auto intro: extends_trans [OF extends_append]\<close>)
    moreover have "TagList_DeepCopy p h = Some (s', ?g)"
      using Some s'(1) len by (simp add: TagList_DeepCopy_def TagList_DeepCopyInto_def mem_defs tag_list_kind_def)
    ultimately show ?thesis by blast
  qed
qed

section \<open>The contract on the copies\<close>

interpretation source: representation application_source_view
  by (rule copier_representation [OF copier_application_source])

interpretation source: copier application_source_view ApplicationSource_DeepCopyInto
  by (rule copier_application_source)

interpretation network: copier network_generic_view NetworkGeneric_DeepCopyInto
  by (rule copier_network_generic)

interpretation tags: copier "slice_view tag_array (plain tag_val)" TagList_DeepCopy
  by (rule copier_tag_list)

section \<open>Objects and their copies\<close>

text \<open>
  C16: the objects of the API, single and in lists, are copied deeply: a copy has the value of the original,
  and what is written to memory through one of them afterwards is not seen through the other.
\<close>

theorem object_copies_independent:
  assumes "lib_deep lib V"
  shows "independent_copy (ptr_view application_kind (application_view V)) (Application_DeepCopy lib) \<and>
    independent_copy (ptr_view application_list_kind (application_list_view V)) (ApplicationList_DeepCopy lib) \<and>
    independent_copy (ptr_view helm_application_kind (helm_application_view V)) (HelmApplication_DeepCopy lib) \<and>
    independent_copy (ptr_view helm_application_list_kind (helm_application_list_view V))
      (HelmApplicationList_DeepCopy lib) \<and>
    independent_copy (ptr_view managed_resource_kind (managed_resource_view V)) (ManagedResource_DeepCopy lib) \<and>
    independent_copy (ptr_view managed_resource_list_kind (managed_resource_list_view V))
      (ManagedResourceList_DeepCopy lib)"
  by (intro conjI independent_copyI struct_DeepCopy [OF assms])

text \<open>A runtime object is nil exactly for a nil pointer: no interface ever holds a nil pointer.\<close>

lemma DeepCopyObject_nil:
  assumes "Application_DeepCopyObject lib p h = Some (ob, h')"
  shows "ob = None \<longleftrightarrow> p = None"
  using assms
  by (cases p)
    (auto simp: Application_DeepCopyObject_def Application_DeepCopy_def copy_ptr_def mem_bind_def mem_ret_def
      split: option.splits)

section \<open>The copy the driver edits\<close>

text \<open>
  Before it deletes an application the driver copies it, edits the copy, and sends the difference between
  the two: the original must still be what the server has.  \<open>setFinalizers\<close> is the setter of the metadata.
\<close>

definition delete_temp ::
    "('l, 'x) copy_lib \<Rightarrow> ('l \<Rightarrow> string list \<Rightarrow> (('l, 'x) cell, 'l) mem) \<Rightarrow> addr \<Rightarrow>
     (('l, 'x) cell, addr option) mem" where
  "delete_temp lib setFinalizers resource =
     mem_bind (Application_DeepCopy lib (Some resource)) (\<lambda>temp.
       case temp of
         None \<Rightarrow> (\<lambda>h. None)
       | Some t \<Rightarrow>
           mem_bind (mem_load application_kind t) (\<lambda>x.
           mem_bind (setFinalizers (ap_ObjectMeta x) [''resources-finalizer.argocd.argoproj.io'']) (\<lambda>m.
           let x' = x\<lparr>ap_ObjectMeta := m,
                      ap_Spec := (ap_Spec x)\<lparr>he_SyncPolicy := (he_SyncPolicy (ap_Spec x))\<lparr>hp_Automated := None\<rparr>\<rparr>\<rparr>
           in mem_bind (mem_store application_kind t x') (\<lambda>_. mem_ret temp))))"

lemma application_view_iff:
  "application_view V h S x = Some v \<longleftrightarrow>
     (\<exists>t m spec status. v = GStruct [t, m, spec, status] \<and> t = type_meta_val (ap_TypeMeta x) \<and>
        lv_ObjectMeta V h S (ap_ObjectMeta x) = Some m \<and> application_spec_view h S (ap_Spec x) = Some spec \<and>
        application_status_view h S (ap_Status x) = Some status)"
  by (auto simp: application_view_def struct_view_def struct_simps simp del: those.simps(2))

lemma automation_removed:
  assumes "application_spec_view h S x = Some (GStruct [pr, so, de, GStruct [op, au, ns], ig])"
  shows "application_spec_view h S (x\<lparr>he_SyncPolicy := (he_SyncPolicy x)\<lparr>hp_Automated := None\<rparr>\<rparr>) =
    Some (GStruct [pr, so, de, GStruct [op, GNil, ns], ig])"
  using assms
  by (auto simp: application_spec_view_def application_sync_policy_view_def struct_view_def struct_simps
      ptr_view_def [of _ _ _ _ None] simp del: those.simps(2))

text \<open>The copy of an application, field by field: the parts of the copy come after its own cell.\<close>

lemma application_copied:
  fixes lib :: "('l, 'x) copy_lib"
  assumes lib: "lib_deep lib V"
    and view: "ptr_view application_kind (application_view V) h UNIV (Some r) = Some (GPtr (GStruct [t, m, spec, st]))"
  obtains x h1 where "Application_DeepCopy lib (Some r) h = Some (Some (length h), h1)" and "extends h h1"
    and "length h < length h1" and "get application_kind (h1 ! length h) = Some x"
    and "t = type_meta_val (ap_TypeMeta x)" and "lv_ObjectMeta V h1 {Suc (length h)..} (ap_ObjectMeta x) = Some m"
    and "application_spec_view h1 {Suc (length h)..} (ap_Spec x) = Some spec"
    and "application_status_view h1 {Suc (length h)..} (ap_Status x) = Some st"
proof -
  have ok: "kind_ok (application_kind :: (('l, 'x) cell, 'l h_application) kind)" by (rule kinds_ok)
  from copy_ptr_spec [OF copier_application [OF lib] ok view, of "zero_application (cl_zero lib)"] obtain x h1 y
    where "Application_DeepCopy lib (Some r) h = Some (Some (length h), h1)" "extends h h1" "length h < length h1"
      "get application_kind (h1 ! length h) = Some x" "application_view V h1 {Suc (length h)..} x = Some y"
      "GPtr (GStruct [t, m, spec, st]) = GPtr y"
    unfolding Application_DeepCopy_def by metis
  then show ?thesis by (intro that) (auto simp: application_view_iff)
qed

text \<open>
  C17: the driver edits a copy: after the edit that precedes a deletion the copy is the application with
  the finalizer and without automation, at an address of its own, and the application it was made from,
  the base of the patch, reads as before.
\<close>

theorem delete_temp_edits_copy:
  fixes lib :: "('l, 'x) copy_lib"
  assumes lib: "lib_deep lib V"
    and view: "ptr_view application_kind (application_view V) h UNIV (Some r) =
      Some (GPtr (GStruct [t, m, GStruct [pr, so, de, GStruct [op, au, ns], ig], st]))"
    and setter: "\<And>h1 S x fs. lv_ObjectMeta V h1 S x = Some m \<Longrightarrow>
      \<exists>x' h2. setFinalizers x fs h1 = Some (x', h2) \<and> extends h1 h2 \<and>
        lv_ObjectMeta V h2 (S \<union> {length h1..}) x' = Some (finalized fs)"
  shows "\<exists>temp h'. delete_temp lib setFinalizers r h = Some (Some temp, h') \<and> temp \<noteq> r \<and>
    ptr_view application_kind (application_view V) h' UNIV (Some temp) =
      Some (GPtr (GStruct [t, finalized [''resources-finalizer.argocd.argoproj.io''],
        GStruct [pr, so, de, GStruct [op, GNil, ns], ig], st])) \<and>
    ptr_view application_kind (application_view V) h' UNIV (Some r) =
      Some (GPtr (GStruct [t, m, GStruct [pr, so, de, GStruct [op, au, ns], ig], st]))"
proof -
  note rep = copier_representation [OF copier_application [OF lib]]
    and meta_rep = copier_representation [OF lib_copiers(1) [OF lib]]
    and spec_rep = copier_representation [OF copier_application_spec [OF lib]]
    and status_rep = copier_representation [OF copier_application_status]
  have ok: "kind_ok (application_kind :: (('l, 'x) cell, 'l h_application) kind)" by (rule kinds_ok)
  let ?R = "{Suc (length h)..}" and ?fs = "[''resources-finalizer.argocd.argoproj.io'']"
  from application_copied [OF lib view] obtain x h1 where
    copied: "Application_DeepCopy lib (Some r) h = Some (Some (length h), h1)" "extends h h1" "length h < length h1"
      "get application_kind (h1 ! length h) = Some x"
    and fields: "t = type_meta_val (ap_TypeMeta x)" "lv_ObjectMeta V h1 ?R (ap_ObjectMeta x) = Some m"
      "application_spec_view h1 ?R (ap_Spec x) = Some (GStruct [pr, so, de, GStruct [op, au, ns], ig])"
      "application_status_view h1 ?R (ap_Status x) = Some st" .
  from setter [OF fields(2)] obtain m' h2 where m': "setFinalizers (ap_ObjectMeta x) ?fs h1 = Some (m', h2)"
    "extends h1 h2" "lv_ObjectMeta V h2 (?R \<union> {length h1..}) m' = Some (finalized ?fs)" by blast
  let ?spec = "(ap_Spec x)\<lparr>he_SyncPolicy := (he_SyncPolicy (ap_Spec x))\<lparr>hp_Automated := None\<rparr>\<rparr>"
  let ?x = "x\<lparr>ap_ObjectMeta := m', ap_Spec := ?spec\<rparr>" and ?h = "\<lambda>c. h2[length h := put application_kind c]"
  have "lv_ObjectMeta V (?h ?x) UNIV m' = Some (finalized ?fs)"
    by (rule representation.apart [OF meta_rep m'(3) extends_refl]) (use copied(3) in auto)
  moreover have "application_spec_view (?h ?x) UNIV ?spec = Some (GStruct [pr, so, de, GStruct [op, GNil, ns], ig])"
    by (rule automation_removed, rule representation.apart [OF spec_rep fields(3) m'(2)]) simp
  moreover have "application_status_view (?h ?x) UNIV (ap_Status x) = Some st"
    by (rule representation.apart [OF status_rep fields(4) m'(2)]) simp
  ultimately have new: "application_view V (?h ?x) UNIV ?x =
      Some (GStruct [t, finalized ?fs, GStruct [pr, so, de, GStruct [op, GNil, ns], ig], st])"
    using fields(1) by (simp add: application_view_iff)
  have len: "length h < length h2" using copied(3) extends_length [OF m'(2)] by simp
  have "extends h (?h ?x)" by (rule extends_update [OF extends_trans [OF copied(2) m'(2)]]) simp
  then have "ptr_view application_kind (application_view V) (?h ?x) UNIV (Some r) =
      Some (GPtr (GStruct [t, m, GStruct [pr, so, de, GStruct [op, au, ns], ig], st]))"
    using representation.kept [OF representation_ptr [OF rep] view] by blast
  moreover have "ptr_view application_kind (application_view V) (?h ?x) UNIV (Some (length h)) =
      Some (GPtr (GStruct [t, finalized ?fs, GStruct [pr, so, de, GStruct [op, GNil, ns], ig], st]))"
    using new len ok by (simp add: ptr_view_def kind_ok_def)
  moreover have "r < length h" using view by (auto simp: ptr_view_def split: if_splits)
  moreover have "delete_temp lib setFinalizers r h = Some (Some (length h), ?h ?x)"
    using copied m'(1) len by (simp add: delete_temp_def mem_bind_def mem_load_def mem_store_def mem_ret_def Let_def)
  ultimately show ?thesis by blast
qed

section \<open>An instance\<close>

text \<open>
  Libraries whose structures hold a map and a text: the copies duplicate the map, constraints are their
  text.
\<close>

type_synonym sample_struct = "addr option \<times> string"

definition sample_copy :: "sample_struct \<Rightarrow> ((sample_struct, unit) cell, sample_struct) mem" where
  "sample_copy s = mem_bind (copy_map smap_kind sorted_walk (fst s)) (\<lambda>p. mem_ret (p, snd s))"

definition sample_view :: "((sample_struct, unit) cell, sample_struct) view" where
  "sample_view = struct_view [on fst (ptr_view smap_kind (plain GMap)), plain (\<lambda>s. GString (snd s))]"

definition sample_lib :: "(sample_struct, unit) copy_lib" where
  "sample_lib =
     \<lparr>cl_zero = \<lparr>zl_ObjectMeta = (None, ''''), zl_ListMeta = (None, ''''), zl_Condition = (None, ''''),
        zl_Constraints = (None, ''''), zl_Version = (None, '''')\<rparr>,
      cl_walk = sorted_walk, cl_ObjectMeta = sample_copy, cl_ListMeta = sample_copy,
      cl_Condition = sample_copy, cl_Quantity = sample_copy,
      cl_MarshalText = (\<lambda>s. mem_ret (snd s)), cl_UnmarshalText = (\<lambda>t out. mem_ret (None, t))\<rparr>"

definition sample_views :: "(sample_struct, unit) lib_views" where
  "sample_views =
     \<lparr>lv_ObjectMeta = sample_view, lv_ListMeta = sample_view, lv_Condition = sample_view,
      lv_Quantity = sample_view, lv_Constraints = plain (\<lambda>s. GString (snd s)), lv_Version = (\<lambda>s. GString (snd s))\<rparr>"

lemma sample_copier: "copier sample_view sample_copy"
  unfolding sample_view_def
  by (rule copier_struct, simp, (rule views)+, clarsimp simp: struct_simps sample_copy_def simp del: those.simps,
      (rule produces_bind stable_True copiers walk_of_sorted | assumption)+, rule produces_ret, simp add: struct_simps)

lemma sample_lib_deep: "lib_deep sample_lib sample_views"
  using sample_copier walk_of_sorted representation_plain
  by (auto simp: lib_deep_def sample_lib_def sample_views_def plain_def mem_ret_def)

text \<open>An application with a label, one Helm parameter and automation.\<close>

definition sample_heap :: "(sample_struct, unit) cell list" where
  "sample_heap =
     [put smap_kind (fmupd ''k'' ''v'' fmempty),
      put helm_parameter_array [\<lparr>p_name = ''a'', p_value = ''1''\<rparr>],
      put application_source_helm_kind
        \<lparr>hh_ReleaseName = ''r'', hh_Values = '''', hh_Parameters = Some \<lparr>sl_array = 1, sl_offset = 0, sl_len = 1\<rparr>\<rparr>,
      put application_sync_automation_kind \<lparr>sa_selfHeal = True, sa_prune = True\<rparr>,
      put application_kind
        \<lparr>ap_TypeMeta = zero_type_meta, ap_ObjectMeta = (Some 0, ''app''),
         ap_Spec =
           \<lparr>he_Project = ''p'',
            he_Source = \<lparr>hs_RepoURL = ''u'', hs_Chart = ''c'', hs_Path = '''', hs_TargetRevision = ''1'', hs_Helm = Some 2\<rparr>,
            he_Destination = \<lparr>ad_name = ''d'', ad_namespace = ''n''\<rparr>,
            he_SyncPolicy = \<lparr>hp_SyncOptions = None, hp_Automated = Some 3, hp_ManagedNamespaceMetadata = None\<rparr>,
            he_IgnoreDifferences = None\<rparr>,
         ap_Status = \<lparr>ht_Health = None, ht_Sync = None\<rparr>\<rparr>]"

definition sample_value :: "gval \<Rightarrow> gval \<Rightarrow> gval" where
  "sample_value m au =
     GPtr (GStruct [GStruct [GString '''', GString ''''], m,
       GStruct [GString ''p'',
         GStruct [GString ''u'', GString ''c'', GString '''', GString ''1'',
           GPtr (GStruct [GString ''r'', GString '''', GSlice [GStruct [GString ''a'', GString ''1'']]])],
         GStruct [GString ''d'', GString ''n''], GStruct [GNil, au, GNil], GNil],
       GStruct [GNil, GNil]])"

definition sample_meta :: "string \<Rightarrow> gval" where
  "sample_meta t = GStruct [GPtr (GMap (fmupd ''k'' ''v'' fmempty)), GString t]"

lemma sample_application:
  "ptr_view application_kind (application_view sample_views) sample_heap UNIV (Some 4) =
     Some (sample_value (sample_meta ''app'') (GPtr (GStruct [GBool True, GBool True])))"
  by (simp add: sample_heap_def sample_value_def sample_meta_def kind_defs ptr_view_def slice_view_def struct_view_def
      on_def plain_def application_view_def application_spec_view_def application_source_view_def
      application_source_helm_view_def application_sync_policy_view_def application_status_view_def
      sample_views_def sample_view_def helm_parameter_val_def application_destination_val_def
      application_sync_automation_val_def type_meta_val_def zero_type_meta_def)

theorem object_copies_independent_witness:
  "\<exists>q h'. Application_DeepCopy sample_lib (Some 4) sample_heap = Some (q, h') \<and>
     ptr_view application_kind (application_view sample_views) h' UNIV q =
       ptr_view application_kind (application_view sample_views) sample_heap UNIV (Some 4) \<and>
     ptr_view application_kind (application_view sample_views) (h'[6 := put string_kind ''other'']) UNIV (Some 4) =
       ptr_view application_kind (application_view sample_views) sample_heap UNIV (Some 4)"
proof -
  let ?V = "ptr_view application_kind (application_view sample_views)"
  have "independent_copy ?V (Application_DeepCopy sample_lib)"
    using object_copies_independent [OF sample_lib_deep] by (rule conjunct1)
  from independent_copyE [OF this sample_application] obtain q h'
    where "Application_DeepCopy sample_lib (Some 4) sample_heap = Some (q, h')" "extends sample_heap h'"
      "?V h' UNIV q = ?V sample_heap UNIV (Some 4)"
      "\<And>h2. extends sample_heap h2 \<Longrightarrow> ?V h2 UNIV (Some 4) = ?V sample_heap UNIV (Some 4)"
    unfolding sample_application by metis
  moreover have "extends sample_heap (h'[6 := put string_kind ''other''])"
    by (rule extends_update [OF calculation(2)]) (simp add: sample_heap_def)
  ultimately show ?thesis by blast
qed

text \<open>Its metadata writes the finalizers into the text.\<close>

definition sample_setFinalizers ::
    "sample_struct \<Rightarrow> string list \<Rightarrow> ((sample_struct, unit) cell, sample_struct) mem" where
  "sample_setFinalizers s fs = mem_ret (fst s, concat fs)"

lemma sample_setter:
  assumes "lv_ObjectMeta sample_views h1 S x = Some (sample_meta ''app'')"
  shows "\<exists>x' h2. sample_setFinalizers x fs h1 = Some (x', h2) \<and> extends h1 h2 \<and>
    lv_ObjectMeta sample_views h2 (S \<union> {length h1..}) x' = Some (sample_meta (concat fs))"
proof -
  have rep: "representation (ptr_view smap_kind (plain GMap) :: ((sample_struct, unit) cell, addr option) view)" by blast
  from assms have "ptr_view smap_kind (plain GMap) h1 S (fst x) = Some (GPtr (GMap (fmupd ''k'' ''v'' fmempty)))"
    by (auto simp: sample_views_def sample_view_def sample_meta_def struct_view_def struct_simps simp del: those.simps(2))
  then have "ptr_view smap_kind (plain GMap) h1 (S \<union> {length h1..}) (fst x) = Some (GPtr (GMap (fmupd ''k'' ''v'' fmempty)))"
    by (rule representation.mono [OF rep]) simp
  then show ?thesis
    by (simp add: sample_setFinalizers_def sample_views_def sample_view_def sample_meta_def struct_view_def
        struct_simps mem_ret_def)
qed

theorem delete_temp_edits_copy_witness:
  "\<exists>temp h'. delete_temp sample_lib sample_setFinalizers 4 sample_heap = Some (Some temp, h') \<and> temp \<noteq> 4 \<and>
     ptr_view application_kind (application_view sample_views) h' UNIV (Some temp) =
       Some (sample_value (sample_meta ''resources-finalizer.argocd.argoproj.io'') GNil) \<and>
     ptr_view application_kind (application_view sample_views) h' UNIV (Some 4) =
       Some (sample_value (sample_meta ''app'') (GPtr (GStruct [GBool True, GBool True])))"
  using delete_temp_edits_copy [OF sample_lib_deep sample_application [unfolded sample_value_def],
      of sample_setFinalizers "\<lambda>fs. sample_meta (concat fs)", OF sample_setter]
  by (simp add: sample_value_def)

end
