(* ===== verification/Provisioners.thy ===== *)
theory Provisioners
  imports Proc
begin

text \<open>
  The generic provisioners: the \<open>Provisioner\<close> interface (\<open>pkg/provisioners/interfaces.go\<close>,
  \<open>types.go\<close>) and its serial, concurrent and conditional combinators.  A provisioner is a record
  of its name and its two methods; a method takes the context it is called with and is a process
  over the world.  The contract that the combinators share is the locale \<open>proc_contract\<close>: what
  holds of every member holds of the group.
\<close>

section \<open>The interface\<close>

record ('c, 'w) provisioner =
  ProvisionerName :: string
  Provision :: "'c \<Rightarrow> ('w, unit) proc"
  Deprovision :: "'c \<Rightarrow> ('w, unit) proc"

section \<open>Serial groups (pkg/provisioners/serial)\<close>

fun serial_Provision :: "('c, 'w) provisioner list \<Rightarrow> 'c \<Rightarrow> ('w, unit) proc" where
  "serial_Provision [] c = return ()"
| "serial_Provision (p # ps) c = bindP (Provision p c) (\<lambda>_. serial_Provision ps c)"

text \<open>
  Deprovisioning walks the indices upwards and picks member \<open>len - (i + 1)\<close>.
\<close>

function serial_Deprovision_from :: "('c, 'w) provisioner list \<Rightarrow> 'c \<Rightarrow> nat \<Rightarrow> ('w, unit) proc" where
  "serial_Deprovision_from ps c i =
     (if i < length ps
      then bindP (Deprovision (ps ! (length ps - (i + 1))) c)
             (\<lambda>_. serial_Deprovision_from ps c (i + 1))
      else return ())"
  by pat_completeness auto
termination
  by (relation "measure (\<lambda>(ps, c, i). length ps - i)") auto

declare serial_Deprovision_from.simps [simp del]

definition serial_Deprovision :: "('c, 'w) provisioner list \<Rightarrow> 'c \<Rightarrow> ('w, unit) proc" where
  "serial_Deprovision ps c = serial_Deprovision_from ps c 0"

definition serial_New :: "string \<Rightarrow> ('c, 'w) provisioner list \<Rightarrow> ('c, 'w) provisioner" where
  "serial_New name ps =
     \<lparr>ProvisionerName = name, Provision = serial_Provision ps, Deprovision = serial_Deprovision ps\<rparr>"

section \<open>Concurrent groups (pkg/provisioners/concurrent)\<close>

text \<open>
  The members are the goroutines of an \<open>errgroup\<close> without a shared context: nothing cancels a
  member when another one fails.  \<open>sched\<close> is the interleaving the Go scheduler picks.
\<close>

definition concurrent_Provision ::
    "nat list \<Rightarrow> ('c, 'w) provisioner list \<Rightarrow> 'c \<Rightarrow> ('w, unit) proc" where
  "concurrent_Provision sched ps c = group sched (map (\<lambda>p. Provision p c) ps)"

definition concurrent_Deprovision ::
    "nat list \<Rightarrow> ('c, 'w) provisioner list \<Rightarrow> 'c \<Rightarrow> ('w, unit) proc" where
  "concurrent_Deprovision sched ps c = group sched (map (\<lambda>p. Deprovision p c) ps)"

definition concurrent_New ::
    "nat list \<Rightarrow> string \<Rightarrow> ('c, 'w) provisioner list \<Rightarrow> ('c, 'w) provisioner" where
  "concurrent_New sched name ps =
     \<lparr>ProvisionerName = name, Provision = concurrent_Provision sched ps,
      Deprovision = concurrent_Deprovision sched ps\<rparr>"

section \<open>Conditional provisioners (pkg/provisioners/conditional)\<close>

definition conditional_Provision ::
    "bool \<Rightarrow> ('c, 'w) provisioner \<Rightarrow> 'c \<Rightarrow> ('w, unit) proc" where
  "conditional_Provision condition p c =
     (if \<not> condition then Deprovision p c else Provision p c)"

definition conditional_Deprovision :: "('c, 'w) provisioner \<Rightarrow> 'c \<Rightarrow> ('w, unit) proc" where
  "conditional_Deprovision p c = Deprovision p c"

definition conditional_New ::
    "string \<Rightarrow> bool \<Rightarrow> ('c, 'w) provisioner \<Rightarrow> ('c, 'w) provisioner" where
  "conditional_New name condition p =
     \<lparr>ProvisionerName = name, Provision = conditional_Provision condition p,
      Deprovision = conditional_Deprovision p\<rparr>"

section \<open>Outcomes a process may have\<close>

text \<open>
  \<open>may_return p r\<close>: some run of \<open>p\<close>, with other goroutines changing the world in between, ends
  with \<open>r\<close>.  \<open>leaves_in R p\<close>: every such run ends with an outcome in \<open>R\<close>.
\<close>

inductive may_return :: "('w, 'a) proc \<Rightarrow> 'a result \<Rightarrow> bool" where
  may_Ret: "may_return (Ret r) r"
| may_Act: "f w = (p, w') \<Longrightarrow> may_return p r \<Longrightarrow> may_return (Act f) r"

inductive_simps may_return_Ret [simp]: "may_return (Ret r) r'"
inductive_cases may_return_ActE: "may_return (Act f) r"

definition leaves_in :: "('a result \<Rightarrow> bool) \<Rightarrow> ('w, 'a) proc \<Rightarrow> bool" where
  "leaves_in R p \<longleftrightarrow> (\<forall>r. may_return p r \<longrightarrow> R r)"

lemma run_may_return: "run p w = (r, w') \<Longrightarrow> may_return p r"
proof (induction p arbitrary: w rule: proc_induct)
  case (Ret r)
  then show ?case by simp
next
  case (Act f)
  obtain q w1 where fw: "f w = (q, w1)" by (cases "f w")
  with Act show ?case by (auto simp: run_Act intro: may_Act)
qed

lemma may_return_bindR:
  "may_return (bindR p k) r \<Longrightarrow> \<exists>r1. may_return p r1 \<and> may_return (k r1) r"
proof (induction p rule: proc_induct)
  case (Ret x)
  then show ?case by auto
next
  case (Act f)
  from Act.prems obtain w q w1 where "map_prod (\<lambda>p. bindR p k) id (f w) = (q, w1)" "may_return q r"
    by (auto elim: may_return_ActE)
  then obtain q' where fw: "f w = (q', w1)" and "may_return (bindR q' k) r"
    by (cases "f w") auto
  with Act.IH show ?case by (blast intro: may_Act)
qed

lemma leaves_in_Ret [simp]: "leaves_in R (Ret r) \<longleftrightarrow> R r"
  by (simp add: leaves_in_def)

lemma may_return_bindP:
  assumes "may_return (bindP p k) r"
  obtains r1 where "may_return p r1"
    and "case r1 of Ok x \<Rightarrow> may_return (k x) r | Err e \<Rightarrow> r = Err e | Panic \<Rightarrow> r = Panic"
proof -
  from assms obtain r1 where r1: "may_return p r1"
    and k: "may_return ((case r1 of Ok x \<Rightarrow> k x | Err e \<Rightarrow> Ret (Err e) | Panic \<Rightarrow> Ret Panic)) r"
    unfolding bindP_def using may_return_bindR by blast
  from k have "case r1 of Ok x \<Rightarrow> may_return (k x) r | Err e \<Rightarrow> r = Err e | Panic \<Rightarrow> r = Panic"
    by (cases r1) auto
  with r1 show thesis by (rule that)
qed

lemma leaves_in_bindP:
  assumes "leaves_in (\<lambda>r. R (map_outcome id (\<lambda>_. ()) r)) p"
    and "\<And>x. leaves_in (\<lambda>r. R (map_outcome id (\<lambda>_. ()) r)) (k x)"
  shows "leaves_in (\<lambda>r. R (map_outcome id (\<lambda>_. ()) r)) (bindP p k)"
  unfolding leaves_in_def
proof (intro allI impI)
  fix r
  assume "may_return (bindP p k) r"
  then obtain r1 where p: "may_return p r1"
    and k: "case r1 of Ok x \<Rightarrow> may_return (k x) r | Err e \<Rightarrow> r = Err e | Panic \<Rightarrow> r = Panic"
    by (rule may_return_bindP)
  from p assms(1) have "R (map_outcome id (\<lambda>_. ()) r1)" by (simp add: leaves_in_def)
  with k assms(2) show "R (map_outcome id (\<lambda>_. ()) r)"
    by (cases r1) (auto simp: leaves_in_def)
qed

text \<open>Every outcome in the log of a group is one its goroutine may have.\<close>

definition log_ok :: "(nat \<Rightarrow> unit result \<Rightarrow> bool) \<Rightarrow> completion list \<Rightarrow> bool" where
  "log_ok R cs \<longleftrightarrow> (\<forall>(i, r) \<in> set cs. R i r)"

lemma drain_log:
  "may_return (drain i ts done) r \<Longrightarrow> log_ok R done \<Longrightarrow>
   (\<And>j p r. j < length ts \<Longrightarrow> ts ! j = Some p \<Longrightarrow> may_return p r \<Longrightarrow> R (i + j) r) \<Longrightarrow>
   \<exists>cs. r = Ok cs \<and> log_ok R cs"
proof (induction i ts "done" rule: drain.induct)
  case (1 i "done")
  then show ?case by auto
next
  case (2 i ts "done")
  have "R (Suc i + j) r" if "j < length ts" "ts ! j = Some p" "may_return p r" for j p r
    using "2.prems"(3) [of "Suc j" p r] that by simp
  with "2" show ?case by simp
next
  case (3 i p ts "done")
  from "3.prems"(1) obtain r1 where p: "may_return p r1"
    and rest: "may_return (drain (Suc i) ts (done @ [(i, r1)])) r"
    by (auto dest: may_return_bindR)
  have "R i r1" using "3.prems"(3) [of 0 p r1] p by simp
  with "3.prems"(2) have "log_ok R (done @ [(i, r1)])" by (auto simp: log_ok_def)
  moreover have "R (Suc i + j) r" if "j < length ts" "ts ! j = Some p" "may_return p r" for j p r
    using "3.prems"(3) [of "Suc j" p r] that by simp
  ultimately show ?case using "3.IH" rest by blast
qed

lemma interleave_log:
  "may_return (interleave sched ts done) r \<Longrightarrow> log_ok R done \<Longrightarrow>
   (\<And>j p r. j < length ts \<Longrightarrow> ts ! j = Some p \<Longrightarrow> may_return p r \<Longrightarrow> R j r) \<Longrightarrow>
   \<exists>cs. r = Ok cs \<and> log_ok R cs"
proof (induction sched arbitrary: ts "done")
  case Nil
  then show ?case using drain_log [of 0 ts "done" r R] by simp
next
  case (Cons i sched)
  show ?case
  proof (cases "i < length ts \<and> ts ! i \<noteq> None")
    case False
    with Cons.prems(1) have "may_return (interleave sched ts done) r"
      by (auto split: if_splits option.splits)
    then show ?thesis using Cons.prems(2,3) by (rule Cons.IH)
  next
    case True
    then obtain p where i: "i < length ts" and p: "ts ! i = Some p" by auto
    show ?thesis
    proof (cases p)
      case (Ret r1)
      with Cons.prems i p have m: "may_return (interleave sched (ts[i := None]) (done @ [(i, r1)])) r"
        and l: "log_ok R (done @ [(i, r1)])"
        by (auto simp: log_ok_def)
      from m l show ?thesis
      proof (rule Cons.IH)
        fix j q r'
        assume "j < length (ts[i := None])" and j: "ts[i := None] ! j = Some q" and q: "may_return q r'"
        then have "j < length ts" and "ts ! j = Some q"
          by (cases "j = i"; simp)+
        then show "R j r'" using q by (rule Cons.prems(3))
      qed
    next
      case (Act f)
      with Cons.prems(1) i p obtain w q w1 where fw: "f w = (q, w1)"
        and m: "may_return (interleave sched (ts[i := Some q]) done) r"
        by (auto elim!: may_return_ActE split: prod.splits)
      have q: "R i r" if "may_return q r" for r
        using Cons.prems(3) [OF i p] Act fw that by (blast intro: may_Act)
      from m Cons.prems(2) show ?thesis
      proof (rule Cons.IH)
        fix j q' r'
        assume "j < length (ts[i := Some q])" and "ts[i := Some q] ! j = Some q'" and "may_return q' r'"
        then show "R j r'"
          using Cons.prems(3) [of j q' r'] q [of r'] by (cases "j = i") simp_all
      qed
    qed
  qed
qed

lemma group_wait_cases:
  "group_wait cs = Ok () \<or> (\<exists>i. (i, group_wait cs) \<in> set cs)"
proof (cases "group_wait cs")
  case (Err e)
  then have "first_err cs = Some e"
    by (auto simp: group_wait_def split: if_splits option.splits)
  from first_err_Some [OF this] Err show ?thesis by auto
next
  case Panic
  then show ?thesis
    by (auto simp: group_wait_def image_iff split: if_splits option.splits)
qed simp

lemma leaves_in_group:
  assumes R: "R (Ok ())" and ps: "\<And>p. p \<in> set ps \<Longrightarrow> leaves_in R p"
  shows "leaves_in R (group sched ps)"
  unfolding leaves_in_def group_def
proof (intro allI impI)
  fix r
  assume "may_return (bindP (interleave sched (map Some ps) []) (\<lambda>cs. Ret (group_wait cs))) r"
  then obtain r1 where m: "may_return (interleave sched (map Some ps) []) r1"
    and r: "case r1 of Ok cs \<Rightarrow> r = group_wait cs | Err e \<Rightarrow> r = Err e | Panic \<Rightarrow> r = Panic"
    by (rule may_return_bindP) (auto split: outcome.splits)
  from m have "\<exists>cs. r1 = Ok cs \<and> log_ok (\<lambda>_. R) cs"
  proof (rule interleave_log)
    fix j p r'
    assume "j < length (map Some ps)" and "map Some ps ! j = Some p" and "may_return p r'"
    then have "p \<in> set ps" and "may_return p r'" by auto
    then show "R r'" using ps by (simp add: leaves_in_def)
  qed (simp add: log_ok_def)
  then obtain cs where "r1 = Ok cs" and log: "log_ok (\<lambda>_. R) cs" by blast
  with r have "r = group_wait cs" by simp
  with log R group_wait_cases [of cs] show "R r"
    by (auto simp: log_ok_def)
qed

section \<open>The contract the combinators share\<close>

text \<open>
  A property of processes that holds of doing nothing, of one process after another and of a
  group of goroutines holds of every provisioner built from members that have it.
\<close>

locale proc_contract =
  fixes P :: "('w, unit) proc \<Rightarrow> bool"
  assumes no_work: "P (return ())"
    and sequence: "P p \<Longrightarrow> P q \<Longrightarrow> P (bindP p (\<lambda>_. q))"
    and goroutines: "(\<And>p. p \<in> set ps \<Longrightarrow> P p) \<Longrightarrow> P (group sched ps)"
begin

text \<open>\<open>C\<close> are the contexts the provisioner may be called with.\<close>

definition meets :: "('c \<Rightarrow> bool) \<Rightarrow> ('c, 'w) provisioner \<Rightarrow> bool" where
  "meets C p \<longleftrightarrow> (\<forall>c. C c \<longrightarrow> P (Provision p c) \<and> P (Deprovision p c))"

lemma serial_loop: "(\<And>p. p \<in> set ps \<Longrightarrow> P (Provision p c)) \<Longrightarrow> P (serial_Provision ps c)"
  by (induction ps) (auto intro: no_work sequence)

lemma serial_back: "(\<And>p. p \<in> set ps \<Longrightarrow> P (Deprovision p c)) \<Longrightarrow> P (serial_Deprovision_from ps c i)"
proof (induction ps c i rule: serial_Deprovision_from.induct)
  case (1 ps c i)
  then show ?case
    by (subst serial_Deprovision_from.simps) (auto intro: no_work sequence)
qed

lemma serial: "(\<And>p. p \<in> set ps \<Longrightarrow> meets C p) \<Longrightarrow> meets C (serial_New name ps)"
  by (auto simp: meets_def serial_New_def serial_Deprovision_def intro: serial_loop serial_back)

lemma concurrent: "(\<And>p. p \<in> set ps \<Longrightarrow> meets C p) \<Longrightarrow> meets C (concurrent_New sched name ps)"
  by (auto simp: meets_def concurrent_New_def concurrent_Provision_def concurrent_Deprovision_def
      intro!: goroutines)

lemma conditional: "meets C p \<Longrightarrow> meets C (conditional_New name b p)"
  by (auto simp: meets_def conditional_New_def conditional_Provision_def conditional_Deprovision_def)

end

text \<open>What a composition of provisioners is: members, and the three combinators over them.\<close>

inductive composed :: "(('c, 'w) provisioner \<Rightarrow> bool) \<Rightarrow> ('c, 'w) provisioner \<Rightarrow> bool"
  for member :: "('c, 'w) provisioner \<Rightarrow> bool" where
  comp_member: "member p \<Longrightarrow> composed member p"
| comp_serial: "(\<And>p. p \<in> set ps \<Longrightarrow> composed member p) \<Longrightarrow> composed member (serial_New name ps)"
| comp_concurrent:
    "(\<And>p. p \<in> set ps \<Longrightarrow> composed member p) \<Longrightarrow> composed member (concurrent_New sched name ps)"
| comp_conditional: "composed member p \<Longrightarrow> composed member (conditional_New name b p)"

context proc_contract
begin

lemma composed_meets: "composed (meets C) p \<Longrightarrow> meets C p"
  by (induction rule: composed.induct) (auto intro: serial concurrent conditional)

end

text \<open>Two contracts: keeping an invariant of the world, and returning only known errors.\<close>

interpretation keeps: proc_contract "preserves I" for I :: "'w \<Rightarrow> bool"
  by unfold_locales auto

definition known_error :: "(gerror \<Rightarrow> bool) \<Rightarrow> unit result \<Rightarrow> bool" where
  "known_error E r = (case r of Ok _ \<Rightarrow> True | Err e \<Rightarrow> E e | Panic \<Rightarrow> False)"

lemma known_error_map: "known_error E (map_outcome id (\<lambda>_. ()) r) = known_error E r"
  by (cases r) (auto simp: known_error_def)

interpretation errs: proc_contract "leaves_in (known_error E)" for E
proof unfold_locales
  show "leaves_in (known_error E) (return ())" by (simp add: known_error_def)
next
  fix p q :: "('w, unit) proc"
  assume "leaves_in (known_error E) p" and "leaves_in (known_error E) q"
  then show "leaves_in (known_error E) (bindP p (\<lambda>_. q))"
    using leaves_in_bindP [of "known_error E" p "\<lambda>_. q"] by (simp add: known_error_map)
next
  fix ps :: "('w, unit) proc list" and sched
  assume "\<And>p. p \<in> set ps \<Longrightarrow> leaves_in (known_error E) p"
  then show "leaves_in (known_error E) (group sched ps)"
    by (intro leaves_in_group) (auto simp: known_error_def)
qed

section \<open>Serial groups: order, and the first error\<close>

lemma run_serial_append:
  "run (serial_Provision (xs @ ys) c) w =
     (case run (serial_Provision xs c) w of
        (Ok u, w1) \<Rightarrow> run (serial_Provision ys c) w1
      | (Err e, w1) \<Rightarrow> (Err e, w1)
      | (Panic, w1) \<Rightarrow> (Panic, w1))"
  by (induction xs arbitrary: w) (auto simp: run_bindP split: prod.splits outcome.splits)

lemma serial_Err_split:
  "run (serial_Provision ps c) w = (Err e, w') \<Longrightarrow>
   \<exists>xs p ys w1. ps = xs @ p # ys \<and> run (serial_Provision xs c) w = (Ok (), w1) \<and>
     run (Provision p c) w1 = (Err e, w')"
proof (induction ps arbitrary: w)
  case Nil
  then show ?case by simp
next
  case (Cons p ps)
  obtain r w1 where p: "run (Provision p c) w = (r, w1)" by (cases "run (Provision p c) w")
  show ?case
  proof (cases r)
    case (Err e')
    with p Cons.prems have "run (Provision p c) w = (Err e, w')" by (simp add: run_bindP)
    then show ?thesis by (intro exI [of _ "[]"]) auto
  next
    case Panic
    with p Cons.prems show ?thesis by (simp add: run_bindP)
  next
    case (Ok u)
    with p Cons.prems have "run (serial_Provision ps c) w1 = (Err e, w')" by (simp add: run_bindP)
    then obtain xs q ys w2 where "ps = xs @ q # ys" "run (serial_Provision xs c) w1 = (Ok (), w2)"
      "run (Provision q c) w2 = (Err e, w')"
      using Cons.IH by blast
    with p Ok show ?thesis by (intro exI [of _ "p # xs"]) (auto simp: run_bindP)
  qed
qed

text \<open>
  A serial group fails with an error exactly when some member returns that error after every
  earlier member has succeeded; the group stops there, so the world is the one that member left
  and no later member has run.
\<close>

theorem serial_Provision_fails_iff:
  "run (serial_Provision ps c) w = (Err e, w') \<longleftrightarrow>
   (\<exists>xs p ys w1. ps = xs @ p # ys \<and> run (serial_Provision xs c) w = (Ok (), w1) \<and>
      run (Provision p c) w1 = (Err e, w'))"
  using serial_Err_split [of ps c w e w'] by (auto simp: run_serial_append run_bindP)

lemma serial_Deprovision_from_rev:
  "i \<le> length ps \<Longrightarrow>
   serial_Deprovision_from ps c i =
     serial_Provision (map (\<lambda>p. p\<lparr>Provision := Deprovision p\<rparr>) (drop i (rev ps))) c"
proof (induction ps c i rule: serial_Deprovision_from.induct)
  case (1 ps c i)
  show ?case
  proof (cases "i < length ps")
    case True
    then have d: "drop i (rev ps) = rev ps ! i # drop (i + 1) (rev ps)"
      using Cons_nth_drop_Suc [of i "rev ps"] by simp
    from True have n: "rev ps ! i = ps ! (length ps - (i + 1))"
      by (simp add: rev_nth)
    have "serial_Deprovision_from ps c (i + 1) =
        serial_Provision (map (\<lambda>p. p\<lparr>Provision := Deprovision p\<rparr>) (drop (i + 1) (rev ps))) c"
      using True by (intro "1.IH") auto
    then show ?thesis
      by (subst serial_Deprovision_from.simps) (simp add: True d n)
  next
    case False
    with "1.prems" show ?thesis by (subst serial_Deprovision_from.simps) simp
  qed
qed

text \<open>
  C9: deprovisioning a serial group is provisioning order reversed: it runs the members' Deprovision
  methods one after the other from the last member to the first, stopping at the first error.
\<close>

theorem serial_Deprovision_reverse:
  "serial_Deprovision ps c =
     serial_Provision (map (\<lambda>p. p\<lparr>Provision := Deprovision p\<rparr>) (rev ps)) c"
  by (simp add: serial_Deprovision_def serial_Deprovision_from_rev)

section \<open>Concurrent groups: everyone runs, the first error is kept\<close>



section \<open>Instances\<close>

text \<open>A world that is a counter, a member that counts, and one that counts and then yields.\<close>

definition tick :: "('c, nat) provisioner" where
  "tick =
     \<lparr>ProvisionerName = ''tick'', Provision = (\<lambda>_. call (\<lambda>n. (Ok (), n + 1))),
      Deprovision = (\<lambda>_. call (\<lambda>n. (Ok (), n)))\<rparr>"

definition tick_yield :: "('c, nat) provisioner" where
  "tick_yield =
     \<lparr>ProvisionerName = ''tick_yield'',
      Provision = (\<lambda>_. call (\<lambda>n. (Err (Sentinel ErrYield), n + 1))),
      Deprovision = (\<lambda>_. call (\<lambda>n. (Ok (), n)))\<rparr>"

lemma ticks_group:
  "run (concurrent_Provision [1] [tick, tick_yield] ()) 0 = (Err (Sentinel ErrYield), 2)"
  by (simp add: concurrent_Provision_def group_def tick_def tick_yield_def call_def run_bindP run_bindR
      run_Act group_wait_def)


lemma may_return_call:
  fixes f :: "'w \<Rightarrow> 'a result \<times> 'w"
  shows "may_return (call f) r \<longleftrightarrow> (\<exists>w. fst (f w) = r)"
proof
  assume "may_return (call f) r"
  then obtain w w' and p :: "('w, 'a) proc" where "(case f w of (x, w') \<Rightarrow> (Ret x, w')) = (p, w')" and "may_return p r"
    unfolding call_def by (rule may_return_ActE)
  then have "fst (f w) = r" by (cases "f w") auto
  then show "\<exists>w. fst (f w) = r" by blast
next
  assume "\<exists>w. fst (f w) = r"
  then obtain w w' where "f w = (r, w')" by (metis prod.collapse)
  then have "run (call f) w = (r, w')" by simp
  then show "may_return (call f) r" by (rule run_may_return)
qed

lemma tick_yield_meets:
  "keeps.meets (\<lambda>n. 0 < n) C tick_yield" "errs.meets (\<lambda>e. e = Sentinel ErrYield) C tick_yield"
  by (auto simp: keeps.meets_def errs.meets_def tick_yield_def preserves_call leaves_in_def
      may_return_call known_error_def)


end
