(* ===== verification/Contexts.thy ===== *)
theory Contexts
  imports Argo_Driver Provisioners
begin

text \<open>
  The context the provisioners are called with, and the small provisioners and helpers that only use
  it: \<open>pkg/client/context.go\<close>, \<open>pkg/cd/context.go\<close>, \<open>pkg/cd/flags.go\<close>,
  \<open>pkg/provisioners/application/context.go\<close>, \<open>pkg/provisioners/remotecluster/context.go\<close>,
  \<open>pkg/provisioners/resource\<close> and \<open>pkg/provisioners/util\<close>.  A context is a record of the values
  that the packages store in it under their keys; a driver is a record of the operations of the
  \<open>cd.Driver\<close> interface that the provisioners call.
\<close>

section \<open>Drivers\<close>

record ('w, 'y) driver =
  drv_Kind :: string
  drv_CreateOrUpdateHelmApplication :: "rid \<Rightarrow> 'y cd_application \<Rightarrow> ('w, unit) proc"
  drv_DeleteHelmApplication :: "rid \<Rightarrow> bool \<Rightarrow> ('w, unit) proc"
  drv_CreateOrUpdateCluster :: "rid \<Rightarrow> cd_cluster \<Rightarrow> ('w, unit) proc"
  drv_DeleteCluster :: "rid \<Rightarrow> ('w, unit) proc"

definition DriverKindFlag_Set :: "string \<Rightarrow> string result" where
  "DriverKindFlag_Set s = (if s \<notin> set [''argocd''] then Err (Sentinel ErrParseFlag) else Ok s)"

definition argo_New ::
    "'w dclient \<Rightarrow> ('y \<Rightarrow> string result) \<Rightarrow> (string \<Rightarrow> gourl result) \<Rightarrow> ('w, 'y) driver" where
  "argo_New cl yaml url_parse =
     \<lparr>drv_Kind = ''argocd'',
      drv_CreateOrUpdateHelmApplication = CreateOrUpdateHelmApplication cl yaml,
      drv_DeleteHelmApplication = DeleteHelmApplication cl,
      drv_CreateOrUpdateCluster = CreateOrUpdateCluster cl url_parse,
      drv_DeleteCluster = DeleteCluster cl\<rparr>"

section \<open>Contexts\<close>

text \<open>
  \<open>'k\<close> are Kubernetes clients.  The identifier of the cluster is nil outside a remote cluster.  The
  managed resource is read through its \<open>ResourceLabels\<close> only.
\<close>

record 'k cluster_context =
  cc_client :: 'k
  cc_id :: "rid option"
  cc_host :: string
  cc_port :: string

record ('k, 'w, 'y) pcontext =
  cx_client :: "'k option"
  cx_cluster :: "'k cluster_context option"
  cx_namespace :: "string option"
  cx_driver :: "('w, 'y) driver option"
  cx_resourceLabels :: "smap result option"
  cx_backgroundDeletion :: "bool option"

definition FromContext :: "('k, 'w, 'y) pcontext \<Rightarrow> 'k result" where
  "FromContext c = (case cx_client c of Some k \<Rightarrow> Ok k | None \<Rightarrow> Err (Sentinel ErrInvalidContext))"

definition NewContextWithCluster ::
    "('k, 'w, 'y) pcontext \<Rightarrow> 'k cluster_context \<Rightarrow> ('k, 'w, 'y) pcontext" where
  "NewContextWithCluster c remote = c\<lparr>cx_cluster := Some remote\<rparr>"

definition ClusterFromContext :: "('k, 'w, 'y) pcontext \<Rightarrow> 'k cluster_context result" where
  "ClusterFromContext c =
     (case cx_cluster c of Some r \<Rightarrow> Ok r | None \<Rightarrow> Err (Sentinel ErrInvalidContext))"

definition NewContextWithNamespace :: "('k, 'w, 'y) pcontext \<Rightarrow> string \<Rightarrow> ('k, 'w, 'y) pcontext" where
  "NewContextWithNamespace c ns = c\<lparr>cx_namespace := Some ns\<rparr>"

definition NamespaceFromContext :: "('k, 'w, 'y) pcontext \<Rightarrow> string result" where
  "NamespaceFromContext c =
     (case cx_namespace c of Some ns \<Rightarrow> Ok ns | None \<Rightarrow> Err (Sentinel ErrInvalidContext))"

text \<open>The driver and the resource are asserted to be there: a missing one is a panic.\<close>

definition DriverFromContext :: "('k, 'w, 'y) pcontext \<Rightarrow> ('w, 'y) driver result" where
  "DriverFromContext c = (case cx_driver c of Some d \<Rightarrow> Ok d | None \<Rightarrow> Panic)"

definition ResourceLabelsFromContext :: "('k, 'w, 'y) pcontext \<Rightarrow> smap result" where
  "ResourceLabelsFromContext c = (case cx_resourceLabels c of Some r \<Rightarrow> r | None \<Rightarrow> Panic)"

definition NewContextWithBackgroundDeletion ::
    "('k, 'w, 'y) pcontext \<Rightarrow> bool \<Rightarrow> ('k, 'w, 'y) pcontext" where
  "NewContextWithBackgroundDeletion c b = c\<lparr>cx_backgroundDeletion := Some b\<rparr>"

definition BackgroundDeletionFromContext :: "('k, 'w, 'y) pcontext \<Rightarrow> bool" where
  "BackgroundDeletionFromContext c =
     (case cx_backgroundDeletion c of Some b \<Rightarrow> b | None \<Rightarrow> False)"

lemma context_round_trips [simp]:
  "ClusterFromContext (NewContextWithCluster c r) = Ok r"
  "NamespaceFromContext (NewContextWithNamespace c ns) = Ok ns"
  "BackgroundDeletionFromContext (NewContextWithBackgroundDeletion c b) = b"
  "BackgroundDeletionFromContext (NewContextWithCluster c r) = BackgroundDeletionFromContext c"
  "DriverFromContext (NewContextWithCluster c r) = DriverFromContext c"
  "DriverFromContext (NewContextWithBackgroundDeletion c b) = DriverFromContext c"
  "ClusterFromContext (NewContextWithBackgroundDeletion c b) = ClusterFromContext c"
  by (simp_all add: ClusterFromContext_def NewContextWithCluster_def NamespaceFromContext_def
      NewContextWithNamespace_def BackgroundDeletionFromContext_def NewContextWithBackgroundDeletion_def
      DriverFromContext_def)

section \<open>Raw resources (pkg/provisioners/resource)\<close>

text \<open>
  \<open>upsert\<close> is \<open>controllerutil.CreateOrUpdate\<close> with a mutation that does nothing, \<open>remove\<close> is the
  client's \<open>Delete\<close>.
\<close>

record ('k, 'ob, 'w) object_client =
  oc_CreateOrUpdate :: "'k \<Rightarrow> 'ob \<Rightarrow> 'w \<Rightarrow> unit result \<times> 'w"
  oc_Delete :: "'k \<Rightarrow> 'ob \<Rightarrow> 'w \<Rightarrow> unit result \<times> 'w"

definition resource_Provision ::
    "('k, 'ob, 'w) object_client \<Rightarrow> 'ob \<Rightarrow> ('k, 'w, 'y) pcontext \<Rightarrow> ('w, unit) proc" where
  "resource_Provision oc resource c =
     bindP (Ret (ClusterFromContext c)) (\<lambda>cc.
     bindP (call (oc_CreateOrUpdate oc (cc_client cc) resource)) (\<lambda>_. return ()))"

definition resource_Deprovision ::
    "('k, 'ob, 'w) object_client \<Rightarrow> 'ob \<Rightarrow> ('k, 'w, 'y) pcontext \<Rightarrow> ('w, unit) proc" where
  "resource_Deprovision oc resource c =
     bindP (Ret (ClusterFromContext c)) (\<lambda>cc.
     bindR (call (oc_Delete oc (cc_client cc) resource)) (\<lambda>r.
       case r of
         Err e \<Rightarrow> if IsNotFound e then return () else throw e
       | Panic \<Rightarrow> Ret Panic
       | Ok _ \<Rightarrow> throw (Sentinel ErrYield)))"

definition resource_New ::
    "('k, 'ob, 'w) object_client \<Rightarrow> 'ob \<Rightarrow> (('k, 'w, 'y) pcontext, 'w) provisioner" where
  "resource_New oc resource =
     \<lparr>ProvisionerName = '''', Provision = resource_Provision oc resource,
      Deprovision = resource_Deprovision oc resource\<rparr>"

text \<open>
  Deprovisioning is gating: it has succeeded only when the server says that the object is gone; an
  accepted deletion is a yield.
\<close>

lemma resource_Deprovision_gates:
  assumes "run (resource_Deprovision oc resource c) w = (Ok (), w')"
  obtains cc e where "ClusterFromContext c = Ok cc"
    and "oc_Delete oc (cc_client cc) resource w = (Err e, w')" and "IsNotFound e"
  using assms
  by (cases "ClusterFromContext c")
    (auto simp: resource_Deprovision_def run_bindR split: prod.splits outcome.splits if_splits)

section \<open>Helpers (pkg/provisioners/util)\<close>

text \<open>
  \<open>list_ns\<close> lists the namespaces with the given labels, \<open>render\<close> is \<open>%v\<close> on a label set.
\<close>

definition GetResourceNamespace ::
    "('k \<Rightarrow> smap \<Rightarrow> 'w \<Rightarrow> objmeta list result \<times> 'w) \<Rightarrow> (smap \<Rightarrow> string) \<Rightarrow>
     ('k, 'w, 'y) pcontext \<Rightarrow> smap \<Rightarrow> ('w, objmeta) proc" where
  "GetResourceNamespace list_ns render c l =
     bindP (Ret (FromContext c)) (\<lambda>cli.
     bindP (call (list_ns cli l)) (\<lambda>items.
       if length items \<noteq> 1
       then throw (Wrapf '''' (Sentinel ErrNamespaceLookup) ('': labels '' @ render l))
       else return (items ! 0)))"

definition GetConfigurationHash :: "('j \<Rightarrow> string result) \<Rightarrow> 'j \<Rightarrow> string result" where
  "GetConfigurationHash json config = bind_outcome (json config) (\<lambda>s. Ok (hex_bytes (sha256 s)))"

definition ControlPlaneTolerations :: "smap list" where
  "ControlPlaneTolerations =
     [fmap_of_list [(''key'', ''node-role.kubernetes.io/control-plane''), (''effect'', ''NoSchedule'')]]"

definition ControlPlaneNodeSelector :: smap where
  "ControlPlaneNodeSelector = fmap_of_list [(''node-role.kubernetes.io/control-plane'', '''')]"

definition ControlPlaneInitTolerations :: "smap list" where
  "ControlPlaneInitTolerations =
     [fmap_of_list [(''key'', ''node.cloudprovider.kubernetes.io/uninitialized''),
        (''effect'', ''NoSchedule''), (''value'', ''true'')],
      fmap_of_list [(''key'', ''node.cilium.io/agent-not-ready''),
        (''effect'', ''NoSchedule''), (''value'', ''true'')]]"

lemma length_configuration_hash: "GetConfigurationHash json config = Ok h \<Longrightarrow> length h = 64"
  by (auto simp: GetConfigurationHash_def bind_outcome_Ok_iff)

lemma GetResourceNamespace_unique:
  assumes "run (GetResourceNamespace list_ns render c l) w = (Ok ns, w')"
  obtains cli where "FromContext c = Ok cli" and "list_ns cli l w = (Ok [ns], w')"
proof (cases "FromContext c")
  case (Ok cli)
  with assms obtain items where "list_ns cli l w = (Ok items, w')" "length items = 1" "items ! 0 = ns"
    by (auto simp: GetResourceNamespace_def run_bindP split: prod.splits outcome.splits if_splits)
  then have "list_ns cli l w = (Ok [ns], w')"
    by (cases items) auto
  with Ok show thesis by (rule that)
qed (use assms in \<open>auto simp: GetResourceNamespace_def\<close>)

end
