(* ===== verification/App_Provisioner.thy ===== *)
theory App_Provisioner
  imports Contexts "HOL-Library.Char_ord" "HOL-Library.List_Lexorder"
begin

text \<open>
  The application provisioner (\<open>pkg/provisioners/application\<close>): it resolves an application and a
  version, derives an identifier from the labels of the resource it works for, turns the version
  into a driver-agnostic application with the help of an optional generator, and hands it to the
  continuous deployment driver.
\<close>

section \<open>Generators (interfaces.go)\<close>

text \<open>
  A generator may implement any of the hook interfaces; a method it does not have is \<open>None\<close>.  The
  pure hooks return a result, the lifecycle hooks are processes.
\<close>

record ('c, 'v, 'y, 'w) generator =
  g_ReleaseName :: "('c \<Rightarrow> string) option"
  g_Parameters :: "('c \<Rightarrow> 'v \<Rightarrow> smap result) option"
  g_Values :: "('c \<Rightarrow> 'v \<Rightarrow> 'y option result) option"
  g_NamespaceMetadata :: "('c \<Rightarrow> 'v \<Rightarrow> (smap option \<times> smap option) result) option"
  g_Customize :: "('v \<Rightarrow> ignore_field list result) option"
  g_PostProvision :: "('c \<Rightarrow> ('w, unit) proc) option"
  g_PreDeprovision :: "('c \<Rightarrow> ('w, unit) proc) option"

text \<open>The semantic version library: equality, the message form and the original spelling.\<close>

record 'v semver =
  sv_equal :: "'v \<Rightarrow> 'v \<Rightarrow> bool"
  sv_show :: "'v \<Rightarrow> string"
  sv_original :: "'v \<Rightarrow> string"

text \<open>
  The provisioner: its explicit namespace, generator, tolerance for degraded applications, and the
  getter, which returns pointers to an application and to a version.
\<close>

record ('c, 'v, 'y, 'w) app_provisioner =
  ap_namespace :: string
  ap_generator :: "('c, 'v, 'y, 'w) generator option"
  ap_allowDegraded :: bool
  ap_getter :: "'c \<Rightarrow> ('w, 'v helm_application option \<times> 'v option) proc"

definition app_New ::
    "('c \<Rightarrow> ('w, 'v helm_application option \<times> 'v option) proc) \<Rightarrow> ('c, 'v, 'y, 'w) app_provisioner" where
  "app_New getter = \<lparr>ap_namespace = '''', ap_generator = None, ap_allowDegraded = False, ap_getter = getter\<rparr>"

definition InNamespace ::
    "string \<Rightarrow> ('c, 'v, 'y, 'w) app_provisioner \<Rightarrow> ('c, 'v, 'y, 'w) app_provisioner" where
  "InNamespace ns p = p\<lparr>ap_namespace := ns\<rparr>"

definition WithGenerator ::
    "('c, 'v, 'y, 'w) generator \<Rightarrow> ('c, 'v, 'y, 'w) app_provisioner \<Rightarrow> ('c, 'v, 'y, 'w) app_provisioner" where
  "WithGenerator g p = p\<lparr>ap_generator := Some g\<rparr>"

definition AllowDegraded :: "('c, 'v, 'y, 'w) app_provisioner \<Rightarrow> ('c, 'v, 'y, 'w) app_provisioner" where
  "AllowDegraded p = p\<lparr>ap_allowDegraded := True\<rparr>"

section \<open>Identifiers\<close>

definition Keys :: "(smap \<Rightarrow> (string \<times> string) list) \<Rightarrow> smap \<Rightarrow> string list" where
  "Keys walk m = map fst (walk m)"

definition getResourceID ::
    "(smap \<Rightarrow> (string \<times> string) list) \<Rightarrow> string \<Rightarrow> ('k, 'w, 'y) pcontext \<Rightarrow> rid result" where
  "getResourceID walk name c =
     bind_outcome (ResourceLabelsFromContext c) (\<lambda>l.
       Ok (if length (Keys walk l) > 0
           then \<lparr>rid_name = name, rid_labels = map (\<lambda>key. (key, str_at l key)) (sort (Keys walk l))\<rparr>
           else \<lparr>rid_name = name, rid_labels = []\<rparr>))"

section \<open>From a version to an application\<close>

definition hook :: "('g \<Rightarrow> 'h option) \<Rightarrow> 'g option \<Rightarrow> 'h option" where
  "hook sel g = Option.bind g sel"

definition getReleaseName ::
    "('c, 'v, 'y, 'w) app_provisioner \<Rightarrow> 'v app_version \<Rightarrow> 'c \<Rightarrow> string" where
  "getReleaseName p v c =
     (let name = (case v_release v of None \<Rightarrow> '''' | Some r \<Rightarrow> r)
      in case hook g_ReleaseName (ap_generator p) of
           None \<Rightarrow> name
         | Some releaseName \<Rightarrow> (let override = releaseName c in if override \<noteq> '''' then override else name))"

definition getParameters ::
    "(smap \<Rightarrow> (string \<times> string) list) \<Rightarrow> ('c, 'v, 'y, 'w) app_provisioner \<Rightarrow> 'v app_version \<Rightarrow> 'c \<Rightarrow> param list result" where
  "getParameters walk p v c =
     (case hook g_Parameters (ap_generator p) of
        None \<Rightarrow> Ok (v_parameters v)
      | Some f \<Rightarrow>
          bind_outcome (f c (v_version v)) (\<lambda>m.
            Ok (v_parameters v @ map (\<lambda>(name, value). \<lparr>p_name = name, p_value = value\<rparr>) (walk m))))"

definition getValues ::
    "('c, 'v, 'y, 'w) app_provisioner \<Rightarrow> 'v app_version \<Rightarrow> 'c \<Rightarrow> 'y option result" where
  "getValues p v c =
     (case hook g_Values (ap_generator p) of None \<Rightarrow> Ok None | Some f \<Rightarrow> f c (v_version v))"

definition getNamespaceMetadata ::
    "('c, 'v, 'y, 'w) app_provisioner \<Rightarrow> 'v app_version \<Rightarrow> 'c \<Rightarrow> (smap option \<times> smap option) result" where
  "getNamespaceMetadata p v c =
     (case hook g_NamespaceMetadata (ap_generator p) of None \<Rightarrow> Ok (None, None) | Some f \<Rightarrow> f c (v_version v))"

definition getClusterID :: "('k, 'w, 'y) pcontext \<Rightarrow> rid option result" where
  "getClusterID c = bind_outcome (ClusterFromContext c) (\<lambda>cc. Ok (cc_id cc))"

definition getNamespace :: "('c, 'v, 'y, 'w) app_provisioner \<Rightarrow> 'v app_version \<Rightarrow> string" where
  "getNamespace p v =
     (if ap_namespace p \<noteq> '''' then ap_namespace p
      else case v_namespace v of Some ns \<Rightarrow> ns | None \<Rightarrow> ''default'')"

definition deref :: "'a option \<Rightarrow> 'a result" where
  "deref x = (case x of None \<Rightarrow> Panic | Some y \<Rightarrow> Ok y)"

definition or_zero :: "'a \<Rightarrow> 'a option \<Rightarrow> 'a" where
  "or_zero z x = (case x of None \<Rightarrow> z | Some y \<Rightarrow> y)"

definition app_generateApplication ::
    "'v semver \<Rightarrow> (smap \<Rightarrow> (string \<times> string) list) \<Rightarrow>
     (('k, 'w, 'y) pcontext, 'v, 'y, 'w) app_provisioner \<Rightarrow> 'v app_version \<Rightarrow> ('k, 'w, 'y) pcontext \<Rightarrow>
     'y cd_application result" where
  "app_generateApplication sv walk p v c =
     bind_outcome (getParameters walk p v c) (\<lambda>parameters.
     bind_outcome (getValues p v c) (\<lambda>values.
     bind_outcome (getClusterID c) (\<lambda>clusterID.
     bind_outcome (deref (v_repo v)) (\<lambda>repo.
     bind_outcome (getNamespaceMetadata p v c) (\<lambda>(nsLabels, nsAnnotations).
     bind_outcome (case hook g_Customize (ap_generator p) of None \<Rightarrow> Ok [] | Some f \<Rightarrow> f (v_version v)) (\<lambda>ignored.
       Ok \<lparr>ca_repo = repo,
           ca_chart = or_zero '''' (v_chart v),
           ca_branch = or_zero '''' (v_branch v),
           ca_path = or_zero '''' (v_path v),
           ca_version = sv_original sv (v_version v),
           ca_release = getReleaseName p v c,
           ca_parameters = parameters,
           ca_values = values,
           ca_cluster = clusterID,
           ca_namespace = getNamespace p v,
           ca_createNamespace = or_zero False (v_createNamespace v),
           ca_nsLabels = nsLabels,
           ca_nsAnnotations = nsAnnotations,
           ca_ignoreDifferences = ignored,
           ca_serverSideApply = or_zero False (v_serverSideApply v),
           ca_allowDegraded = ap_allowDegraded p\<rparr>))))))"

section \<open>Provision and Deprovision\<close>

text \<open>
  \<open>initialize\<close> stores the name and the version in the provisioner; nothing else reads them before the
  next call, so it returns them here.
\<close>

definition initialize ::
    "'v semver \<Rightarrow> ('c, 'v, 'y, 'w) app_provisioner \<Rightarrow> 'c \<Rightarrow> ('w, string \<times> 'v app_version) proc" where
  "initialize sv p c =
     bindP (ap_getter p c) (\<lambda>(application, version).
     bindP (Ret (deref application)) (\<lambda>application.
     bindP (Ret (deref version)) (\<lambda>version.
     bindP (Ret (GetVersion (sv_equal sv) (sv_show sv) application version)) (\<lambda>applicationVersion.
     return (str_at (ha_labels application) NameLabel, applicationVersion)))))"

definition app_Provision ::
    "'v semver \<Rightarrow> (smap \<Rightarrow> (string \<times> string) list) \<Rightarrow>
     (('k, 'w, 'y) pcontext, 'v, 'y, 'w) app_provisioner \<Rightarrow> ('k, 'w, 'y) pcontext \<Rightarrow> ('w, unit) proc" where
  "app_Provision sv walk p c =
     bindP (initialize sv p c) (\<lambda>(name, v).
     bindP (Ret (getResourceID walk name c)) (\<lambda>i.
     bindP (Ret (app_generateApplication sv walk p v c)) (\<lambda>application.
     bindP (Ret (DriverFromContext c)) (\<lambda>d.
     bindP (drv_CreateOrUpdateHelmApplication d i application) (\<lambda>_.
     case hook g_PostProvision (ap_generator p) of None \<Rightarrow> return () | Some h \<Rightarrow> h c)))))"

definition app_Deprovision ::
    "'v semver \<Rightarrow> (smap \<Rightarrow> (string \<times> string) list) \<Rightarrow>
     (('k, 'w, 'y) pcontext, 'v, 'y, 'w) app_provisioner \<Rightarrow> ('k, 'w, 'y) pcontext \<Rightarrow> ('w, unit) proc" where
  "app_Deprovision sv walk p c =
     bindP (case hook g_PreDeprovision (ap_generator p) of None \<Rightarrow> return () | Some h \<Rightarrow> h c) (\<lambda>_.
     bindP (initialize sv p c) (\<lambda>(name, v).
     bindP (Ret (getResourceID walk name c)) (\<lambda>i.
     bindP (Ret (DriverFromContext c)) (\<lambda>d.
     drv_DeleteHelmApplication d i (BackgroundDeletionFromContext c)))))"

definition app_as_provisioner ::
    "'v semver \<Rightarrow> (smap \<Rightarrow> (string \<times> string) list) \<Rightarrow> string \<Rightarrow>
     (('k, 'w, 'y) pcontext, 'v, 'y, 'w) app_provisioner \<Rightarrow> (('k, 'w, 'y) pcontext, 'w) provisioner" where
  "app_as_provisioner sv walk name p =
     \<lparr>ProvisionerName = name, Provision = app_Provision sv walk p, Deprovision = app_Deprovision sv walk p\<rparr>"

section \<open>The identifier does not depend on map order\<close>

text \<open>
  The identifier of an application is a function of the application's name and the resource's
  labels: whatever order the label map is walked in, the labels come out sorted by key, each key
  once, with exactly the entries of the map, so that the selector built from it names the resource.
\<close>

theorem getResourceID_deterministic:
  assumes "\<forall>m. walk_of m (walk m)" and "\<forall>m. walk_of m (walk' m)"
    and "ResourceLabelsFromContext c = Ok l"
  shows "getResourceID walk name c = getResourceID walk' name c \<and>
     (\<exists>i. getResourceID walk name c = Ok i \<and> rid_name i = name \<and>
        sorted (map fst (rid_labels i)) \<and> distinct (map fst (rid_labels i)) \<and>
        (\<forall>k. map_of (rid_labels i) k = fmlookup l k))"
proof -
  have s: "sort (Keys walk l) = sort (Keys walk' l)"
    unfolding Keys_def using assms(1,2) by (blast intro: sorted_keys_walk)
  then have "Keys walk l = [] \<longleftrightarrow> Keys walk' l = []" by (metis length_sort length_0_conv)
  with s have eq: "getResourceID walk name c = getResourceID walk' name c"
    by (simp add: getResourceID_def assms(3))
  let ?ls = "map (\<lambda>key. (key, str_at l key)) (sort (Keys walk l))"
  have g: "getResourceID walk name c = Ok \<lparr>rid_name = name, rid_labels = ?ls\<rparr>"
    by (simp add: getResourceID_def assms(3))
  have keys: "set (Keys walk l) = fmdom' l" "distinct (Keys walk l)"
    using assms(1) walk_of_keys [of l "walk l"] by (auto simp: Keys_def walk_of_def)
  have fst: "map fst ?ls = sort (Keys walk l)" by (simp add: comp_def)
  have "map_of ?ls k = fmlookup l k" for k
  proof (cases "k \<in> fmdom' l")
    case True
    then have "map_of ?ls k = Some (str_at l k)"
      using keys by (simp add: map_of_map_restrict)
    with True show ?thesis by (auto simp: str_at_def fmlookup_dom'_iff)
  next
    case False
    then have "map_of ?ls k = None" using keys by (simp add: map_of_map_restrict)
    with False show ?thesis by (simp add: fmlookup_dom'_iff)
  qed
  then have "\<forall>k. map_of ?ls k = fmlookup l k" by blast
  with g fst keys have "\<exists>i. getResourceID walk name c = Ok i \<and> rid_name i = name \<and>
      sorted (map fst (rid_labels i)) \<and> distinct (map fst (rid_labels i)) \<and>
      (\<forall>k. map_of (rid_labels i) k = fmlookup l k)"
    by (intro exI [of _ "\<lparr>rid_name = name, rid_labels = ?ls\<rparr>"]) simp
  with eq show ?thesis by blast
qed

section \<open>Deprovisioning gates on the application being gone\<close>

context cd_driver
begin

lemma app_Deprovision_absent:
  assumes d: "DriverFromContext c = Ok d" "drv_DeleteHelmApplication d = delete_app"
    and fg: "\<not> BackgroundDeletionFromContext c"
    and ok: "run (app_Deprovision sv walk p c) w = (Ok (), w')"
  shows "\<exists>name i w1 e. getResourceID walk name c = Ok i \<and>
     run (lookup i) w1 = (Err e, w') \<and> errors_Is e CdErrNotFound"
proof -
  from ok d obtain name i w1 where i: "getResourceID walk name c = Ok i"
    and "run (delete_app i (BackgroundDeletionFromContext c)) w1 = (Ok (), w')"
    unfolding app_Deprovision_def by (auto elim!: run_bindP_OkD simp: split_beta)
  with fg have "run (delete_app i False) w1 = (Ok (), w')" by simp
  from delete_done [OF this] i show ?thesis by blast
qed

end

text \<open>
  Deprovisioning an application through the ArgoCD driver is gating: unless background deletion
  was asked for, it returns nil only when a listing for the application's identifier has just come
  back empty (or said not found), with nothing done after that listing.
\<close>

theorem app_Deprovision_gone:
  assumes "DriverFromContext c = Ok (argo_New cl yaml url_parse)"
    and "\<not> BackgroundDeletionFromContext c"
    and "run (app_Deprovision sv walk p c) w = (Ok (), w')"
  shows "\<exists>name i w1 e. getResourceID walk name c = Ok i \<and>
     run (GetHelmApplication cl i) w1 = (Err e, w') \<and> errors_Is e CdErrNotFound"
  by (rule argo.app_Deprovision_absent [OF assms(1) _ assms(2,3)]) (simp add: argo_New_def)

section \<open>Instances\<close>

definition demo_semver :: "nat semver" where
  "demo_semver = \<lparr>sv_equal = (=), sv_show = show_nat, sv_original = show_nat\<rparr>"

definition demo_version :: "nat app_version" where
  "demo_version =
     \<lparr>v_repo = Some ''repo'', v_chart = Some ''chart'', v_branch = None, v_path = None, v_version = 1,
      v_release = None, v_parameters = [], v_namespace = None, v_createNamespace = None,
      v_serverSideApply = None\<rparr>"

definition demo_provisioner :: "(('k, nat, unit) pcontext, nat, unit, nat) app_provisioner" where
  "demo_provisioner =
     app_New (\<lambda>_. return
       (Some \<lparr>ha_name = ''x'', ha_labels = fmupd NameLabel ''nginx'' fmempty, ha_versions = [demo_version]\<rparr>, Some 1))"

definition demo_context :: "(unit, nat, unit) pcontext" where
  "demo_context =
     \<lparr>cx_client = Some (), cx_cluster = None, cx_namespace = None,
      cx_driver = Some (argo_New (counting_client []) (\<lambda>_. Ok '''') (\<lambda>_. Err (OtherError ''url''))),
      cx_resourceLabels = Some (Ok (fmupd ''a'' ''1'' fmempty)), cx_backgroundDeletion = None\<rparr>"

theorem app_Deprovision_gone_witness:
  "\<exists>name i w1 e. getResourceID (\<lambda>m. []) name demo_context = Ok i \<and>
     run (GetHelmApplication (counting_client []) i) w1 = (Err e, 0) \<and> errors_Is e CdErrNotFound"
proof -
  have d: "DriverFromContext demo_context = Ok (argo_New (counting_client []) (\<lambda>_. Ok '''') (\<lambda>_. Err (OtherError ''url'')))"
    by (simp add: DriverFromContext_def demo_context_def)
  have f: "\<not> BackgroundDeletionFromContext demo_context"
    by (simp add: BackgroundDeletionFromContext_def demo_context_def)
  have l: "ResourceLabelsFromContext demo_context = Ok (fmupd ''a'' ''1'' fmempty)"
    by (simp add: ResourceLabelsFromContext_def demo_context_def)
  have "run (app_Deprovision demo_semver (\<lambda>m. []) demo_provisioner demo_context) 0 = (Ok (), 0)"
    by (simp add: app_Deprovision_def demo_provisioner_def app_New_def hook_def initialize_def deref_def
        GetVersion_def demo_semver_def demo_version_def d getResourceID_def l Keys_def argo_New_def
        DeleteHelmApplication_def run_bindR run_GetHelmApplication counting_client_def)
  from app_Deprovision_gone [OF d f this] show ?thesis .
qed

theorem getResourceID_deterministic_witness:
  "\<exists>walk. (\<forall>m. walk_of m (walk m)) \<and>
     (\<exists>i. getResourceID walk ''nginx'' demo_context = Ok i \<and> map_of (rid_labels i) ''a'' = Some ''1'')"
proof -
  obtain walk :: "smap \<Rightarrow> (string \<times> string) list" where w: "\<forall>m. walk_of m (walk m)"
    using walk_exists by metis
  have l: "ResourceLabelsFromContext demo_context = Ok (fmupd ''a'' ''1'' fmempty)"
    by (simp add: ResourceLabelsFromContext_def demo_context_def)
  obtain i where i: "getResourceID walk ''nginx'' demo_context = Ok i" "distinct (map fst (rid_labels i))"
    and m: "\<forall>k. map_of (rid_labels i) k = fmlookup (fmupd ''a'' ''1'' fmempty) k"
    using getResourceID_deterministic [OF w w l, of "''nginx''"] by blast
  from m have "map_of (rid_labels i) ''a'' = Some ''1''" by simp
  with w i show ?thesis by blast
qed

end
