(* ===== verification/Remote_Cluster.thy ===== *)
theory Remote_Cluster
  imports Contexts
begin

text \<open>
  Remote clusters (\<open>pkg/provisioners/remotecluster\<close>): provisioners that run a child on another
  cluster, and that register the cluster with the driver before the first of them and remove it
  after the last.  The two counters of a \<open>RemoteCluster\<close> are shared state: they live in the world,
  read by \<open>rm_get\<close> and written by \<open>rm_put\<close>.  A section under the mutex is one access: what other
  goroutines do meanwhile does not touch the counters, and is ordered before or after it.
\<close>

section \<open>State\<close>

text \<open>The counters are small, so Go's \<open>int\<close> is read as an integer.\<close>

record rcounters =
  refCount :: int
  currentCount :: int

text \<open>
  \<open>rm_connect\<close> stands for building a REST configuration and a client from a kubeconfig
  (\<open>clientcmd\<close>, \<open>controller-runtime\<close>).
\<close>

record ('k, 'w, 'y) remote_cluster =
  rm_ID :: rid
  rm_Config :: "('k, 'w, 'y) pcontext \<Rightarrow> ('w, kube_config) proc"
  rm_connect :: "kube_config \<Rightarrow> 'k result"
  rm_url_parse :: "string \<Rightarrow> gourl result"
  rm_controller :: bool
  rm_get :: "'w \<Rightarrow> rcounters"
  rm_put :: "rcounters \<Rightarrow> 'w \<Rightarrow> 'w"

record remote_options =
  ro_backgroundDeletion :: bool
  ro_prefix :: string

section \<open>Operations\<close>

definition getClient ::
    "('k, 'w, 'y) remote_cluster \<Rightarrow> ('k, 'w, 'y) pcontext \<Rightarrow> ('w, 'k \<times> kube_config) proc" where
  "getClient r c =
     bindP (rm_Config r c) (\<lambda>config.
     bindP (Ret (rm_connect r config)) (\<lambda>client. return (client, config)))"

text \<open>\<open>currentCount++\<close>, and the values the test that follows reads.\<close>

definition count_in :: "('k, 'w, 'y) remote_cluster \<Rightarrow> ('w, rcounters) proc" where
  "count_in r =
     call (\<lambda>w. let n = (rm_get r w)\<lparr>currentCount := currentCount (rm_get r w) + 1\<rparr> in (Ok n, rm_put r n w))"

definition provisionRemote ::
    "('k, 'w, 'y) remote_cluster \<Rightarrow> remote_options \<Rightarrow> ('k, 'w, 'y) pcontext \<Rightarrow> ('w, unit) proc" where
  "provisionRemote r opts c =
     locked
       (bindP (count_in r) (\<lambda>n.
        if rm_controller r \<and> currentCount n = 1
        then bindP (rm_Config r c) (\<lambda>config.
             bindP (Ret (DriverFromContext c)) (\<lambda>d.
             bindR (drv_CreateOrUpdateCluster d (rm_ID r) \<lparr>cl_config = Some config, cl_prefix = ro_prefix opts\<rparr>) (\<lambda>res.
               case res of
                 Ok _ \<Rightarrow> return ()
               | Err _ \<Rightarrow> throw (Sentinel ErrYield)
               | Panic \<Rightarrow> Ret Panic)))
        else return ()))"

definition getKuebernetesURL :: "(string \<Rightarrow> gourl result) \<Rightarrow> kube_config \<Rightarrow> gourl result" where
  "getKuebernetesURL url_parse config =
     (case fmlookup (cfg_contexts config) (cfg_currentContext config) of
        None \<Rightarrow> Err (Wrapf '''' (Sentinel ErrKubeconfig) '': unable to lookup context'')
      | Some configContext \<Rightarrow>
          (case fmlookup (cfg_clusters config) (kc_cluster configContext) of
             None \<Rightarrow> Err (Wrapf '''' (Sentinel ErrKubeconfig) '': unable to lookup cluster'')
           | Some cluster \<Rightarrow> url_parse (kl_server cluster)))"

definition getHostPort :: "gourl \<Rightarrow> string \<times> string" where
  "getHostPort url =
     (case SplitHostPort (u_host url) of
        Some hp \<Rightarrow> hp
      | None \<Rightarrow>
          (u_host url,
           if u_scheme url = ''http'' then ''80'' else if u_scheme url = ''https'' then ''443'' else ''''))"

text \<open>The part that \<open>Provision\<close> and \<open>Deprovision\<close> share: the context on the remote cluster.\<close>

definition remote_context ::
    "('k, 'w, 'y) remote_cluster \<Rightarrow> ('k, 'w, 'y) pcontext \<Rightarrow> 'k \<times> kube_config \<Rightarrow> ('k, 'w, 'y) pcontext result" where
  "remote_context r c cc =
     bind_outcome (getKuebernetesURL (rm_url_parse r) (snd cc)) (\<lambda>url.
       Ok (NewContextWithCluster c
         \<lparr>cc_client = fst cc, cc_id = Some (rm_ID r),
          cc_host = fst (getHostPort url), cc_port = snd (getHostPort url)\<rparr>))"

definition remote_Provision ::
    "('k, 'w, 'y) remote_cluster \<Rightarrow> remote_options \<Rightarrow> (('k, 'w, 'y) pcontext, 'w) provisioner \<Rightarrow>
     ('k, 'w, 'y) pcontext \<Rightarrow> ('w, unit) proc" where
  "remote_Provision r opts child c =
     bindP (provisionRemote r opts c) (\<lambda>_.
     bindP (getClient r c) (\<lambda>cc.
     bindP (Ret (remote_context r c cc)) (\<lambda>c'.
     Provision child c')))"

definition deprovision_child ::
    "('k, 'w, 'y) remote_cluster \<Rightarrow> remote_options \<Rightarrow> (('k, 'w, 'y) pcontext, 'w) provisioner \<Rightarrow>
     ('k, 'w, 'y) pcontext \<Rightarrow> ('w, unit) proc" where
  "deprovision_child r opts child c =
     bindP (bindR (getClient r c) (\<lambda>res.
              case res of
                Ok cc \<Rightarrow> return (Some cc)
              | Err e \<Rightarrow> if \<not> errors_Is e ErrYield then throw e else return None
              | Panic \<Rightarrow> Ret Panic)) (\<lambda>found.
     case found of
       None \<Rightarrow> return ()
     | Some cc \<Rightarrow>
         bindP (Ret (remote_context r c cc)) (\<lambda>c'.
         Deprovision child (if ro_backgroundDeletion opts then NewContextWithBackgroundDeletion c' True else c')))"

definition remote_Deprovision ::
    "('k, 'w, 'y) remote_cluster \<Rightarrow> remote_options \<Rightarrow> (('k, 'w, 'y) pcontext, 'w) provisioner \<Rightarrow>
     ('k, 'w, 'y) pcontext \<Rightarrow> ('w, unit) proc" where
  "remote_Deprovision r opts child c =
     bindP (deprovision_child r opts child c) (\<lambda>_.
     locked
       (bindP (count_in r) (\<lambda>n.
        if rm_controller r \<and> currentCount n = refCount n
        then bindP (Ret (DriverFromContext c)) (\<lambda>d. drv_DeleteCluster d (rm_ID r))
        else return ())))"

definition ProvisionOn ::
    "('k, 'w, 'y) remote_cluster \<Rightarrow> remote_options \<Rightarrow> (('k, 'w, 'y) pcontext, 'w) provisioner \<Rightarrow> 'w \<Rightarrow>
     (('k, 'w, 'y) pcontext, 'w) provisioner \<times> 'w" where
  "ProvisionOn r opts child w =
     (\<lparr>ProvisionerName = ''remote-cluster'',
       Provision = remote_Provision r opts child, Deprovision = remote_Deprovision r opts child\<rparr>,
      rm_put r ((rm_get r w)\<lparr>refCount := refCount (rm_get r w) + 1\<rparr>) w)"

section \<open>Endpoints\<close>

text \<open>
  The endpoint handed to the provisioners of a remote cluster is the host and the explicit port
  of the server's URL, and without a port the host with the default port of the scheme.
\<close>

theorem getHostPort_spec:
  assumes "host \<noteq> ''''" and "set host \<inter> {CHR '':'', CHR ''['', CHR '']''} = {}"
    and "set port \<inter> {CHR '':'', CHR ''['', CHR '']''} = {}"
  shows "getHostPort \<lparr>u_scheme = scheme, u_host = host @ '':'' @ port\<rparr> = (host, port) \<and>
     getHostPort \<lparr>u_scheme = ''https'', u_host = host\<rparr> = (host, ''443'') \<and>
     getHostPort \<lparr>u_scheme = ''http'', u_host = host\<rparr> = (host, ''80'')"
  using SplitHostPort_plain [OF assms] by (simp add: getHostPort_def)

section \<open>The last one turns off the light\<close>

text \<open>
  The counters can be read back after they are written, and a predicate \<open>deleted\<close> of the world (the
  cluster has been removed) does not depend on them.
\<close>

definition counters_ok :: "('k, 'w, 'y) remote_cluster \<Rightarrow> ('w \<Rightarrow> bool) \<Rightarrow> bool" where
  "counters_ok r deleted \<longleftrightarrow>
     (\<forall>n w. rm_get r (rm_put r n w) = n) \<and> (\<forall>n w. deleted (rm_put r n w) = deleted w)"

text \<open>What a process of somebody else leaves alone.\<close>

definition light_view :: "('k, 'w, 'y) remote_cluster \<Rightarrow> ('w \<Rightarrow> bool) \<Rightarrow> 'w \<Rightarrow> rcounters \<times> bool" where
  "light_view r deleted w = (rm_get r w, deleted w)"

text \<open>The cluster is gone only once every registered provisioner has been through.\<close>

definition light_off :: "('k, 'w, 'y) remote_cluster \<Rightarrow> ('w \<Rightarrow> bool) \<Rightarrow> 'w \<Rightarrow> bool" where
  "light_off r deleted w \<longleftrightarrow> (deleted w \<longrightarrow> refCount (rm_get r w) \<le> currentCount (rm_get r w))"

text \<open>
  A context to be called with: its driver changes the counters in neither cluster operation, and
  registering a cluster does not remove it.
\<close>

definition calm_context :: "('k, 'w, 'y) remote_cluster \<Rightarrow> ('w \<Rightarrow> bool) \<Rightarrow> ('k, 'w, 'y) pcontext \<Rightarrow> bool" where
  "calm_context r deleted c \<longleftrightarrow>
     leaves (light_view r deleted) (rm_Config r c) \<and>
     (\<forall>d. DriverFromContext c = Ok d \<longrightarrow>
        leaves (rm_get r) (drv_DeleteCluster d (rm_ID r)) \<and>
        (\<forall>cluster. leaves (light_view r deleted) (drv_CreateOrUpdateCluster d (rm_ID r) cluster)))"

lemma light_view_off: "light_view r deleted w = light_view r deleted w' \<Longrightarrow> light_off r deleted w = light_off r deleted w'"
  by (simp add: light_view_def light_off_def)

lemma leaves_light: "leaves (light_view r deleted) p \<Longrightarrow> preserves (light_off r deleted) p"
  by (erule leaves_preserves) (rule light_view_off)

lemma count_in_run:
  assumes "counters_ok r deleted" and "run (count_in r) w = (res, w1)"
  shows "\<exists>n. res = Ok n \<and> rm_get r w1 = n \<and> n = (rm_get r w)\<lparr>currentCount := currentCount (rm_get r w) + 1\<rparr> \<and>
    deleted w1 = deleted w"
  using assms by (auto simp: count_in_def counters_ok_def Let_def)

lemma provisionRemote_preserves:
  assumes "counters_ok r deleted" and "calm_context r deleted c"
  shows "preserves (light_off r deleted) (provisionRemote r opts c)"
  unfolding provisionRemote_def locked_def preserves_call
proof (intro allI impI)
  fix w res w'
  let ?rest = "\<lambda>n. if rm_controller r \<and> currentCount n = 1
        then bindP (rm_Config r c) (\<lambda>config.
             bindP (Ret (DriverFromContext c)) (\<lambda>d.
             bindR (drv_CreateOrUpdateCluster d (rm_ID r) \<lparr>cl_config = Some config, cl_prefix = ro_prefix opts\<rparr>) (\<lambda>res.
               case res of Ok _ \<Rightarrow> return () | Err _ \<Rightarrow> throw (Sentinel ErrYield) | Panic \<Rightarrow> Ret Panic)))
        else return ()"
  assume off: "light_off r deleted w" and run: "run (bindP (count_in r) ?rest) w = (res, w')"
  obtain res1 w1 where c1: "run (count_in r) w = (res1, w1)" by (cases "run (count_in r) w")
  from count_in_run [OF assms(1) c1] obtain n where n: "res1 = Ok n" "rm_get r w1 = n"
    "n = (rm_get r w)\<lparr>currentCount := currentCount (rm_get r w) + 1\<rparr>" "deleted w1 = deleted w"
    by blast
  with off have off1: "light_off r deleted w1" by (auto simp: light_off_def)
  have cfg: "preserves (light_off r deleted) (rm_Config r c)"
    and drv: "\<And>d cluster. DriverFromContext c = Ok d \<Longrightarrow>
      preserves (light_off r deleted) (drv_CreateOrUpdateCluster d (rm_ID r) cluster)"
    using assms(2) by (simp_all add: calm_context_def leaves_light)
  have "preserves (light_off r deleted) (?rest n)"
    by (cases "DriverFromContext c")
      (auto intro!: preserves_bindP preserves_bindR cfg drv split: outcome.splits)
  moreover have "run (?rest n) w1 = (res, w')"
    using run c1 n(1) by (simp add: run_bindP)
  ultimately show "light_off r deleted w'" using off1 by (blast dest: preserves_run)
qed

lemma count_out_preserves:
  assumes "counters_ok r deleted" and "calm_context r deleted c"
  shows "preserves (light_off r deleted)
    (locked (bindP (count_in r) (\<lambda>n.
        if rm_controller r \<and> currentCount n = refCount n
        then bindP (Ret (DriverFromContext c)) (\<lambda>d. drv_DeleteCluster d (rm_ID r))
        else return ())))"
  unfolding locked_def preserves_call
proof (intro allI impI)
  fix w res w'
  let ?rest = "\<lambda>n. if rm_controller r \<and> currentCount n = refCount n
        then bindP (Ret (DriverFromContext c)) (\<lambda>d. drv_DeleteCluster d (rm_ID r)) else return ()"
  assume off: "light_off r deleted w" and run: "run (bindP (count_in r) ?rest) w = (res, w')"
  obtain res1 w1 where c1: "run (count_in r) w = (res1, w1)" by (cases "run (count_in r) w")
  from count_in_run [OF assms(1) c1] obtain n where n: "res1 = Ok n" "rm_get r w1 = n"
    "n = (rm_get r w)\<lparr>currentCount := currentCount (rm_get r w) + 1\<rparr>" "deleted w1 = deleted w"
    by blast
  have rest: "run (?rest n) w1 = (res, w')" using run c1 n(1) by (simp add: run_bindP)
  show "light_off r deleted w'"
  proof (cases "rm_controller r \<and> currentCount n = refCount n \<and> (\<exists>d. DriverFromContext c = Ok d)")
    case True
    then obtain d where d: "DriverFromContext c = Ok d" by blast
    with True rest have "run (drv_DeleteCluster d (rm_ID r)) w1 = (res, w')" by simp
    moreover from assms(2) d have "leaves (rm_get r) (drv_DeleteCluster d (rm_ID r))"
      by (simp add: calm_context_def)
    ultimately have "rm_get r w' = n" using n(2) by (metis leaves_run)
    with True show ?thesis by (simp add: light_off_def)
  next
    case False
    with rest have "w' = w1" by (cases "DriverFromContext c") (auto split: if_splits)
    with off n show ?thesis by (auto simp: light_off_def)
  qed
qed

lemma remote_context_calm:
  assumes "remote_context r c cc = Ok c'"
  shows "DriverFromContext c' = DriverFromContext c"
  using assms by (auto simp: remote_context_def bind_outcome_Ok_iff)

lemma getClient_preserves:
  assumes "calm_context r deleted c"
  shows "preserves (light_off r deleted) (getClient r c)"
proof -
  have "preserves (light_off r deleted) (rm_Config r c)"
    using assms by (simp add: calm_context_def leaves_light)
  then show ?thesis unfolding getClient_def by (intro preserves_bindP) auto
qed


section \<open>Instances\<close>

text \<open>
  A world with the two counters and two flags, cluster registered and cluster deleted, a driver that
  sets the flags, and a child that does nothing.
\<close>

type_synonym demo_world = "rcounters \<times> bool \<times> bool"

definition demo_driver :: "(demo_world, unit) driver" where
  "demo_driver =
     \<lparr>drv_Kind = ''argocd'', drv_CreateOrUpdateHelmApplication = (\<lambda>_ _. return ()),
      drv_DeleteHelmApplication = (\<lambda>_ _. return ()),
      drv_CreateOrUpdateCluster = (\<lambda>_ _. call (\<lambda>(n, reg, del). (Ok (), (n, True, del)))),
      drv_DeleteCluster = (\<lambda>_. call (\<lambda>(n, reg, del). (Ok (), (n, reg, True))))\<rparr>"

definition demo_config :: kube_config where
  "demo_config =
     \<lparr>cfg_currentContext = ''x'', cfg_contexts = fmupd ''x'' \<lparr>kc_cluster = ''k'', kc_authInfo = ''u''\<rparr> fmempty,
      cfg_clusters = fmupd ''k'' \<lparr>kl_server = ''https://h:6443'', kl_caData = None\<rparr> fmempty,
      cfg_authInfos = fmempty\<rparr>"

definition demo_remote :: "(unit, demo_world, unit) remote_cluster" where
  "demo_remote =
     \<lparr>rm_ID = \<lparr>rid_name = ''remote'', rid_labels = []\<rparr>, rm_Config = (\<lambda>_. return demo_config),
      rm_connect = (\<lambda>_. Ok ()), rm_url_parse = (\<lambda>_. Ok \<lparr>u_scheme = ''https'', u_host = ''h:6443''\<rparr>),
      rm_controller = True, rm_get = fst, rm_put = (\<lambda>n w. (n, snd w))\<rparr>"

definition demo_child :: "((unit, demo_world, unit) pcontext, demo_world) provisioner" where
  "demo_child = \<lparr>ProvisionerName = ''child'', Provision = (\<lambda>_. return ()), Deprovision = (\<lambda>_. return ())\<rparr>"

definition demo_ctx :: "(unit, demo_world, unit) pcontext" where
  "demo_ctx =
     \<lparr>cx_client = Some (), cx_cluster = None, cx_namespace = None, cx_driver = Some demo_driver,
      cx_resourceLabels = None, cx_backgroundDeletion = None\<rparr>"

definition demo_opts :: remote_options where
  "demo_opts = \<lparr>ro_backgroundDeletion = False, ro_prefix = ''''\<rparr>"

lemma demo_counters: "counters_ok demo_remote (\<lambda>w. snd (snd w))"
  by (simp add: counters_ok_def demo_remote_def)

lemma demo_calm: "calm_context demo_remote (\<lambda>w. snd (snd w)) demo_ctx"
  by (auto simp: calm_context_def demo_remote_def demo_ctx_def DriverFromContext_def demo_driver_def
      leaves_call light_view_def)

definition demo_on :: "((unit, demo_world, unit) pcontext, demo_world) provisioner" where
  "demo_on = fst (ProvisionOn demo_remote demo_opts demo_child (\<lparr>refCount = 0, currentCount = 0\<rparr>, False, False))"


theorem getHostPort_spec_witness: "getHostPort \<lparr>u_scheme = ''https'', u_host = ''k8s.example:6443''\<rparr> = (''k8s.example'', ''6443'')"
  using getHostPort_spec [of "''k8s.example''" "''6443''" "''https''"] by simp

text \<open>
  The counters do not tell provisioning from deprovisioning.  When one of two provisioners on a remote
  cluster is behind a condition that is off, provisioning the pair counts the first in, counts the
  second out, reaches the number of registered provisioners and removes the cluster it has just
  registered, reporting success.
\<close>

lemma conditional_remote_removes_cluster:
  "run (Provision (serial_New ''s''
      [demo_on, conditional_New ''c'' False demo_on]) demo_ctx)
     (\<lparr>refCount = 2, currentCount = 0\<rparr>, False, False) =
   (Ok (), (\<lparr>refCount = 2, currentCount = 2\<rparr>, True, True))"
  by (simp add: serial_New_def conditional_New_def conditional_Provision_def demo_on_def ProvisionOn_def
      remote_Provision_def remote_Deprovision_def provisionRemote_def deprovision_child_def getClient_def
      remote_context_def getKuebernetesURL_def getHostPort_def count_in_def demo_remote_def demo_config_def
      demo_child_def demo_ctx_def demo_opts_def demo_driver_def DriverFromContext_def NewContextWithCluster_def
      run_bindP run_bindR Let_def)

end
