(* ===== verification/Refresh_Cache.thy ===== *)
theory Refresh_Cache
  imports Proc
begin

text \<open>
  The refresh-ahead cache (\<open>pkg/util/cache/refresh\_ahead.go\<close>), its operations.  An item is a value
  of type \<open>'t\<close>; its index and its notion of equality are arguments (\<open>Cacheable\<close>).  Epochs are 64-bit
  words.  A nil overlay and an empty one behave alike and are both the empty map; a nil cache is
  \<open>None\<close>.  How the operations of several callers interleave is the subject of \<open>Refresh_System\<close>.
\<close>

section \<open>State\<close>

type_synonym epoch = "64 word"

definition epoch_after :: "epoch \<Rightarrow> epoch \<Rightarrow> bool" where
  "epoch_after e other \<longleftrightarrow> other < e"

definition epoch_Valid :: "epoch \<Rightarrow> epoch \<Rightarrow> bool" where
  "epoch_Valid e previous \<longleftrightarrow> e = previous"

type_synonym 't cache_map = "(string, 't) fmap"
type_synonym 't overlay_map = "(string, 't \<times> epoch) fmap"

record 't rcache =
  rc_nextEpoch :: epoch
  rc_epoch :: epoch
  rc_cache :: "'t cache_map option"
  rc_overlay :: "'t overlay_map"

definition NewRefreshAheadCache :: "'t rcache" where
  "NewRefreshAheadCache = \<lparr>rc_nextEpoch = 0, rc_epoch = 0, rc_cache = None, rc_overlay = fmempty\<rparr>"

section \<open>Operations\<close>

definition cacheMap_Equal :: "('t \<Rightarrow> 't \<Rightarrow> bool) \<Rightarrow> 't cache_map \<Rightarrow> 't cache_map \<Rightarrow> bool" where
  "cacheMap_Equal eq m o' \<longleftrightarrow>
     fcard (fmdom m) = fcard (fmdom o') \<and>
     fBall (fmdom m) (\<lambda>k. case (fmlookup m k, fmlookup o' k) of (Some v, Some ov) \<Rightarrow> eq v ov | _ \<Rightarrow> False)"

definition newEpoch :: "'t rcache \<Rightarrow> epoch \<times> 't rcache" where
  "newEpoch c = (rc_nextEpoch c + 1, c\<lparr>rc_nextEpoch := rc_nextEpoch c + 1\<rparr>)"

text \<open>The part that \<open>InsertIfAbsent\<close> and \<open>Upsert\<close> share.\<close>

definition overlay_write :: "('t \<Rightarrow> string) \<Rightarrow> 't \<Rightarrow> 't cache_map \<Rightarrow> 't rcache \<Rightarrow> 't rcache" where
  "overlay_write index item cache c =
     (case newEpoch c of (writeEpoch, c1) \<Rightarrow>
        c1\<lparr>rc_overlay := fmupd (index item) (item, writeEpoch) (rc_overlay c1),
           rc_cache := Some (fmupd (index item) item cache), rc_epoch := writeEpoch\<rparr>)"

definition InsertIfAbsent :: "('t \<Rightarrow> string) \<Rightarrow> 't \<Rightarrow> 't rcache \<Rightarrow> unit result \<times> 't rcache" where
  "InsertIfAbsent index item c =
     (case rc_cache c of
        None \<Rightarrow> (Err (Sentinel CacheErrInvalid), c)
      | Some cache \<Rightarrow>
          if fmlookup cache (index item) \<noteq> None then (Ok (), c)
          else (Ok (), overlay_write index item cache c))"

definition Upsert :: "('t \<Rightarrow> string) \<Rightarrow> 't \<Rightarrow> 't rcache \<Rightarrow> unit result \<times> 't rcache" where
  "Upsert index item c =
     (case rc_cache c of
        None \<Rightarrow> (Err (Sentinel CacheErrInvalid), c)
      | Some cache \<Rightarrow> (Ok (), overlay_write index item cache c))"

definition mergeAndPruneOverlayLocked ::
    "'t cache_map \<Rightarrow> epoch \<Rightarrow> 't rcache \<Rightarrow> 't cache_map \<times> 't rcache" where
  "mergeAndPruneOverlayLocked cache refreshEpoch c =
     (if rc_overlay c = fmempty then (cache, c)
      else
        (let overlay = fmfilter (\<lambda>k. case fmlookup (rc_overlay c) k of
                          Some (item, e) \<Rightarrow> epoch_after e refreshEpoch | None \<Rightarrow> False) (rc_overlay c)
         in (cache ++\<^sub>f fmmap fst overlay, c\<lparr>rc_overlay := overlay\<rparr>)))"

fun index_data :: "('t \<Rightarrow> string) \<Rightarrow> 't list \<Rightarrow> 't cache_map \<Rightarrow> 't cache_map result" where
  "index_data index [] cache = Ok cache"
| "index_data index (d # data) cache =
     (if fmlookup cache (index d) \<noteq> None
      then Err (Wrapf '''' (Sentinel CacheErrConflict) ('': offending key '' @ index d))
      else index_data index data (fmupd (index d) d cache))"

text \<open>The locked half of a refresh, once the backend's data has arrived.\<close>

definition install :: "('t \<Rightarrow> 't \<Rightarrow> bool) \<Rightarrow> epoch \<Rightarrow> 't cache_map \<Rightarrow> 't rcache \<Rightarrow> 't rcache" where
  "install eq refreshEpoch cache c =
     (case mergeAndPruneOverlayLocked cache refreshEpoch c of (effective, c1) \<Rightarrow>
        if cacheMap_Equal eq effective (case rc_cache c1 of None \<Rightarrow> fmempty | Some m \<Rightarrow> m)
        then c1\<lparr>rc_cache := Some effective\<rparr>
        else if rc_overlay c1 = fmempty
        then c1\<lparr>rc_epoch := refreshEpoch, rc_cache := Some effective\<rparr>
        else (case newEpoch c1 of (e, c2) \<Rightarrow> c2\<lparr>rc_epoch := e, rc_cache := Some effective\<rparr>))"

text \<open>A deferred \<open>recover\<close> without a named result: the panic becomes a nil error.\<close>

definition recovered :: "('w, unit) proc \<Rightarrow> ('w, unit) proc" where
  "recovered p = bindR p (\<lambda>r. case r of Panic \<Rightarrow> return () | Ok x \<Rightarrow> return x | Err e \<Rightarrow> throw e)"

definition doRefresh ::
    "('t \<Rightarrow> string) \<Rightarrow> ('t \<Rightarrow> 't \<Rightarrow> bool) \<Rightarrow> ('t rcache \<times> 'b, 't list) proc \<Rightarrow> ('t rcache \<times> 'b, unit) proc" where
  "doRefresh index eq refresh =
     recovered
       (bindP (call (\<lambda>(c, b). case newEpoch c of (e, c') \<Rightarrow> (Ok e, (c', b)))) (\<lambda>refreshEpoch.
        bindP refresh (\<lambda>data.
        bindP (Ret (index_data index data fmempty)) (\<lambda>cache.
        call (\<lambda>(c, b). (Ok (), (install eq refreshEpoch cache c, b)))))))"

definition Get :: "string \<Rightarrow> 't rcache \<Rightarrow> (epoch \<times> 't) result" where
  "Get index c =
     (case rc_cache c of
        None \<Rightarrow> Err (Sentinel CacheErrInvalid)
      | Some cache \<Rightarrow>
          (case fmlookup cache index of
             None \<Rightarrow> Err (Wrapf '''' (Sentinel CacheErrNotFound) ('': requested index '' @ index))
           | Some item \<Rightarrow> Ok (rc_epoch c, item)))"

definition ListItems :: "('t cache_map \<Rightarrow> (string \<times> 't) list) \<Rightarrow> 't rcache \<Rightarrow> (epoch \<times> 't list) result" where
  "ListItems walk c =
     (case rc_cache c of
        None \<Rightarrow> Err (Sentinel CacheErrInvalid)
      | Some cache \<Rightarrow> Ok (rc_epoch c, map snd (walk cache)))"

section \<open>Equality of snapshots\<close>

lemma cacheMap_Equal_iff:
  "cacheMap_Equal eq m o' \<longleftrightarrow>
     fmdom m = fmdom o' \<and> (\<forall>k v ov. fmlookup m k = Some v \<longrightarrow> fmlookup o' k = Some ov \<longrightarrow> eq v ov)"
proof
  assume e: "cacheMap_Equal eq m o'"
  have at: "\<exists>ov. fmlookup o' k = Some ov \<and> eq v ov" if "fmlookup m k = Some v" for k v
    using e that fmdomI [OF that] by (fastforce simp: cacheMap_Equal_def split: option.splits)
  then have "fmdom m |\<subseteq>| fmdom o'"
    by (metis fmdomI fmlookup_dom_iff fsubsetI)
  moreover from e have "fcard (fmdom m) = fcard (fmdom o')" by (simp add: cacheMap_Equal_def)
  ultimately have "fmdom m = fmdom o'" by (metis fcard_seteq order_refl)
  with at show "fmdom m = fmdom o' \<and> (\<forall>k v ov. fmlookup m k = Some v \<longrightarrow> fmlookup o' k = Some ov \<longrightarrow> eq v ov)"
    by fastforce
next
  assume a: "fmdom m = fmdom o' \<and> (\<forall>k v ov. fmlookup m k = Some v \<longrightarrow> fmlookup o' k = Some ov \<longrightarrow> eq v ov)"
  have "case (fmlookup m k, fmlookup o' k) of (Some v, Some ov) \<Rightarrow> eq v ov | _ \<Rightarrow> False" if "k |\<in>| fmdom m" for k
  proof -
    from that a obtain v ov where "fmlookup m k = Some v" "fmlookup o' k = Some ov"
      by (metis fmlookup_dom_iff)
    with a show ?thesis by simp
  qed
  with a show "cacheMap_Equal eq m o'" by (simp add: cacheMap_Equal_def)
qed

lemma cacheMap_Equal_refl: "(\<And>v. eq v v) \<Longrightarrow> cacheMap_Equal eq m m"
  by (auto simp: cacheMap_Equal_iff)

lemma cacheMap_Equal_sym: "(\<And>a b. eq a b \<Longrightarrow> eq b a) \<Longrightarrow> cacheMap_Equal eq m o' \<Longrightarrow> cacheMap_Equal eq o' m"
  by (auto simp: cacheMap_Equal_iff)

lemma cacheMap_Equal_trans:
  assumes "\<And>a b c. eq a b \<Longrightarrow> eq b c \<Longrightarrow> eq a c" and "cacheMap_Equal eq x y" and "cacheMap_Equal eq y z"
  shows "cacheMap_Equal eq x z"
  using assms unfolding cacheMap_Equal_iff by (metis fmdomI fmdom_notI option.exhaust option.distinct(1))

section \<open>Indexing\<close>

text \<open>
  A refresh accepts the backend's answer exactly when no index occurs twice in it, and then the new
  snapshot maps every index to the item that has it and nothing else.
\<close>

theorem index_data_spec:
  "(\<exists>m. index_data index data fmempty = Ok m) = distinct (map index data) \<and>
   (\<forall>m. index_data index data fmempty = Ok m \<longrightarrow>
      (\<forall>k v. fmlookup m k = Some v \<longleftrightarrow> v \<in> set data \<and> index v = k))"
proof -
  have ok: "(\<exists>m. index_data index data m0 = Ok m) \<longleftrightarrow>
      distinct (map index data) \<and> set (map index data) \<inter> fmdom' m0 = {}" for m0
    by (induction index data m0 rule: index_data.induct) (auto simp: fmlookup_dom'_iff)
  have look: "index_data index data m0 = Ok m \<Longrightarrow>
      fmlookup m k = Some v \<longleftrightarrow> fmlookup m0 k = Some v \<or> (v \<in> set data \<and> index v = k)" for m m0 k v
    by (induction index data m0 rule: index_data.induct) (auto split: if_splits)
  from ok [of fmempty] look [of fmempty] show ?thesis by auto
qed

section \<open>Merging the overlay\<close>

lemma merge_overlay:
  "mergeAndPruneOverlayLocked cache r c = (effective, c1) \<Longrightarrow>
   fmlookup (rc_overlay c1) k =
     (case fmlookup (rc_overlay c) k of
        Some (item, e) \<Rightarrow> if r < e then Some (item, e) else None | None \<Rightarrow> None)"
  by (auto simp: mergeAndPruneOverlayLocked_def Let_def epoch_after_def split: if_splits option.splits)

lemma merge_effective:
  "mergeAndPruneOverlayLocked cache r c = (effective, c1) \<Longrightarrow>
   fmlookup effective k =
     (case fmlookup (rc_overlay c) k of
        Some (item, e) \<Rightarrow> if r < e then Some item else fmlookup cache k | None \<Rightarrow> fmlookup cache k)"
  by (auto simp: mergeAndPruneOverlayLocked_def Let_def epoch_after_def fmdom_notD dest: fmdomI split: if_splits option.splits)

lemma merge_frame:
  "mergeAndPruneOverlayLocked cache r c = (effective, c1) \<Longrightarrow>
   rc_cache c1 = rc_cache c \<and> rc_epoch c1 = rc_epoch c \<and> rc_nextEpoch c1 = rc_nextEpoch c"
  by (auto simp: mergeAndPruneOverlayLocked_def Let_def split: if_splits)

lemma install_overlay:
  "fmlookup (rc_overlay (install eq r cache c)) k =
     (case fmlookup (rc_overlay c) k of
        Some (item, e) \<Rightarrow> if r < e then Some (item, e) else None | None \<Rightarrow> None)"
  by (cases "mergeAndPruneOverlayLocked cache r c")
    (auto simp: install_def newEpoch_def Let_def dest: merge_overlay split: if_splits)

lemma install_cache:
  "\<exists>effective. rc_cache (install eq r cache c) = Some effective \<and>
     (\<forall>k. fmlookup effective k =
       (case fmlookup (rc_overlay c) k of
          Some (item, e) \<Rightarrow> if r < e then Some item else fmlookup cache k | None \<Rightarrow> fmlookup cache k))"
proof -
  obtain effective c1 where m: "mergeAndPruneOverlayLocked cache r c = (effective, c1)"
    by (cases "mergeAndPruneOverlayLocked cache r c")
  then have "rc_cache (install eq r cache c) = Some effective"
    by (auto simp: install_def newEpoch_def Let_def)
  with merge_effective [OF m] show ?thesis by auto
qed

text \<open>
  A worker that panics is reported as a success: the recovered panic leaves the error nil, and
  nothing of the cache has changed but the epoch counter.
\<close>

lemma doRefresh_panic_is_success:
  assumes "run refresh (c\<lparr>rc_nextEpoch := rc_nextEpoch c + 1\<rparr>, b) = (Panic, w')"
  shows "run (doRefresh index eq refresh) (c, b) = (Ok (), w')"
  using assms by (simp add: doRefresh_def recovered_def run_bindR run_bindP newEpoch_def)

theorem index_data_spec_witness:
  "\<exists>m. index_data fst [(''a'', 1 :: nat), (''b'', 2)] fmempty = Ok m \<and> fmlookup m ''b'' = Some (''b'', 2)"
proof -
  have "distinct (map fst [(''a'', 1 :: nat), (''b'', 2)])" by simp
  then obtain m where "index_data fst [(''a'', 1 :: nat), (''b'', 2)] fmempty = Ok m"
    using index_data_spec [of fst "[(''a'', 1 :: nat), (''b'', 2)]"] by blast
  then show ?thesis using index_data_spec [of fst "[(''a'', 1 :: nat), (''b'', 2)]"] by auto
qed

end
