(* ===== verification/Refresh_System.thy ===== *)
theory Refresh_System
  imports Refresh_Cache
begin

text \<open>
  The refresh-ahead cache at work: writers commit to the backend and then write through the cache,
  other processes change the backend behind its back, and one refresh at a time reads the backend
  while all this goes on.  The backend is a history of values per index, so that what the cache shows
  can be dated: \<open>sy_ver\<close> is the version it shows, \<open>sy_floor\<close> the version of the last local write
  that was acknowledged.  A refresh may read different indices at different times; all that is asked
  of it is that each value was current at some time since the refresh started, which is what the
  documentation of the cache assumes.
\<close>

section \<open>The system\<close>

record 't sys =
  sy_cache :: "'t rcache"
  sy_hist :: "string \<Rightarrow> 't option list"
  sy_ver :: "string \<Rightarrow> nat"
  sy_floor :: "string \<Rightarrow> nat"
  sy_flight :: "(epoch \<times> (string \<Rightarrow> nat)) option"

text \<open>
  The local write of version \<open>i\<close>, which has been committed, and which is not older than a write of
  that index that was acknowledged before.
\<close>

definition committed :: "('t \<Rightarrow> string) \<Rightarrow> nat \<Rightarrow> 't \<Rightarrow> 't sys \<Rightarrow> bool" where
  "committed index i item s \<longleftrightarrow>
     i < length (sy_hist s (index item)) \<and> sy_hist s (index item) ! i = Some item \<and> sy_floor s (index item) \<le> i"

definition acknowledge :: "('t \<Rightarrow> string) \<Rightarrow> nat \<Rightarrow> 't \<Rightarrow> 't rcache \<Rightarrow> 't sys \<Rightarrow> 't sys" where
  "acknowledge index i item c s =
     s\<lparr>sy_cache := c, sy_ver := (sy_ver s)(index item := i), sy_floor := (sy_floor s)(index item := i)\<rparr>"

definition survives :: "'t rcache \<Rightarrow> epoch \<Rightarrow> string \<Rightarrow> bool" where
  "survives c r k \<longleftrightarrow> (\<exists>item e. fmlookup (rc_overlay c) k = Some (item, e) \<and> r < e)"

text \<open>The version each index has right now.\<close>

definition now :: "'t sys \<Rightarrow> string \<Rightarrow> nat" where
  "now s k = length (sy_hist s k) - 1"

inductive rstep :: "('t \<Rightarrow> string) \<Rightarrow> ('t \<Rightarrow> 't \<Rightarrow> bool) \<Rightarrow> 't sys \<Rightarrow> 't sys \<Rightarrow> bool"
  for index eq where
  commit: "rstep index eq s (s\<lparr>sy_hist := (sy_hist s)(k := sy_hist s k @ [v])\<rparr>)"
| upsert: "committed index i item s \<Longrightarrow> Upsert index item (sy_cache s) = (Ok (), c) \<Longrightarrow>
     rstep index eq s (acknowledge index i item c s)"
| insert: "committed index i item s \<Longrightarrow> InsertIfAbsent index item (sy_cache s) = (Ok (), c) \<Longrightarrow>
     c \<noteq> sy_cache s \<Longrightarrow> rstep index eq s (acknowledge index i item c s)"
| begin_refresh: "sy_flight s = None \<Longrightarrow> newEpoch (sy_cache s) = (r, c) \<Longrightarrow>
     rstep index eq s (s\<lparr>sy_cache := c, sy_flight := Some (r, now s)\<rparr>)"
| finish_refresh: "sy_flight s = Some (r, low) \<Longrightarrow> index_data index data fmempty = Ok m \<Longrightarrow>
     (\<And>k. low k \<le> at k \<and> at k \<le> now s k \<and> sy_hist s k ! at k = fmlookup m k) \<Longrightarrow>
     rstep index eq s
       (s\<lparr>sy_cache := install eq r m (sy_cache s), sy_flight := None,
          sy_ver := (\<lambda>k. if survives (sy_cache s) r k then sy_ver s k else at k)\<rparr>)"
| fail_refresh: "sy_flight s = Some f \<Longrightarrow> rstep index eq s (s\<lparr>sy_flight := None\<rparr>)"

inductive sys_run :: "('t \<Rightarrow> string) \<Rightarrow> ('t \<Rightarrow> 't \<Rightarrow> bool) \<Rightarrow> nat \<Rightarrow> 't sys \<Rightarrow> 't sys \<Rightarrow> bool"
  for index eq where
  run_nil: "sys_run index eq 0 s s"
| run_step: "sys_run index eq n s s' \<Longrightarrow> rstep index eq s' s'' \<Longrightarrow> sys_run index eq (Suc n) s s''"

definition start :: "'t sys \<Rightarrow> bool" where
  "start s \<longleftrightarrow>
     sy_cache s = NewRefreshAheadCache \<and> (\<forall>k. sy_hist s k \<noteq> []) \<and> sy_floor s = (\<lambda>_. 0) \<and> sy_flight s = None"

section \<open>The invariant\<close>

definition visible :: "'t rcache \<Rightarrow> 't cache_map" where
  "visible c = (case rc_cache c of None \<Rightarrow> fmempty | Some m \<Rightarrow> m)"

definition dated :: "'t sys \<Rightarrow> bool" where
  "dated s \<longleftrightarrow>
     (case rc_cache (sy_cache s) of
        None \<Rightarrow> sy_floor s = (\<lambda>_. 0) \<and> rc_overlay (sy_cache s) = fmempty
      | Some m \<Rightarrow>
          (\<forall>k. sy_ver s k < length (sy_hist s k) \<and> fmlookup m k = sy_hist s k ! sy_ver s k \<and>
             sy_floor s k \<le> sy_ver s k))"

definition overlaid :: "'t sys \<Rightarrow> bool" where
  "overlaid s \<longleftrightarrow>
     (\<forall>k item e. fmlookup (rc_overlay (sy_cache s)) k = Some (item, e) \<longrightarrow>
        e \<le> rc_nextEpoch (sy_cache s) \<and> fmlookup (visible (sy_cache s)) k = Some item)"

definition in_flight :: "'t sys \<Rightarrow> bool" where
  "in_flight s \<longleftrightarrow>
     (\<forall>r low. sy_flight s = Some (r, low) \<longrightarrow>
        r \<le> rc_nextEpoch (sy_cache s) \<and>
        (\<forall>k. low k < length (sy_hist s k) \<and> (sy_floor s k \<le> low k \<or> survives (sy_cache s) r k)) \<and>
        (rc_epoch (sy_cache s) < r \<or> (\<exists>k. survives (sy_cache s) r k)))"

definition coherent :: "nat \<Rightarrow> 't sys \<Rightarrow> bool" where
  "coherent n s \<longleftrightarrow>
     (\<forall>k. sy_hist s k \<noteq> []) \<and> dated s \<and> overlaid s \<and> in_flight s \<and>
     (\<forall>k. sy_floor s k < length (sy_hist s k)) \<and>
     rc_epoch (sy_cache s) \<le> rc_nextEpoch (sy_cache s) \<and> unat (rc_nextEpoch (sy_cache s)) \<le> 2 * n"

lemma start_coherent: "start s \<Longrightarrow> coherent 0 s"
  by (simp add: start_def coherent_def dated_def overlaid_def in_flight_def NewRefreshAheadCache_def)

text \<open>As long as the counter has room, an epoch that is allocated is newer than all before it.\<close>

lemma next_epoch:
  fixes e :: epoch
  assumes "unat e \<le> 2 * n" and "2 * n + 2 < 2 ^ 64"
  shows "e < e + 1" and "unat (e + 1) = unat e + 1" and "e + 1 < e + 2" and "unat (e + 2) = unat e + 2"
proof -
  have "unat e + unat (1 :: epoch) < 2 ^ LENGTH(64)" "unat e + unat (2 :: epoch) < 2 ^ LENGTH(64)"
    using assms by simp_all
  then have one: "unat (e + 1) = unat e + 1" and two: "unat (e + 2) = unat e + 2"
    unfolding unat_add_lem by simp_all
  show "unat (e + 1) = unat e + 1" "unat (e + 2) = unat e + 2" by (fact one two)+
  show "e < e + 1" "e + 1 < e + 2" by (simp_all add: word_less_nat_alt one two)
qed

section \<open>Every step keeps it\<close>

lemma Upsert_Ok:
  assumes "Upsert index item c = (Ok (), c')"
  obtains m where "rc_cache c = Some m" and "c' = overlay_write index item m c"
  using assms by (auto simp: Upsert_def split: option.splits)

lemma InsertIfAbsent_Ok:
  assumes "InsertIfAbsent index item c = (Ok (), c')" and "c' \<noteq> c"
  obtains m where "rc_cache c = Some m" and "c' = overlay_write index item m c"
  using assms by (auto simp: InsertIfAbsent_def split: option.splits if_splits)

lemma overlay_write_simps:
  "rc_nextEpoch (overlay_write index item m c) = rc_nextEpoch c + 1"
  "rc_epoch (overlay_write index item m c) = rc_nextEpoch c + 1"
  "rc_cache (overlay_write index item m c) = Some (fmupd (index item) item m)"
  "fmlookup (rc_overlay (overlay_write index item m c)) k =
     (if k = index item then Some (item, rc_nextEpoch c + 1) else fmlookup (rc_overlay c) k)"
  by (simp_all add: overlay_write_def newEpoch_def)

lemma survives_write:
  assumes "r \<le> rc_nextEpoch c" and "rc_nextEpoch c < rc_nextEpoch c + 1"
  shows "survives (overlay_write index item m c) r k \<longleftrightarrow> k = index item \<or> survives c r k"
  using assms by (auto simp: survives_def overlay_write_simps)

lemma coherent_write:
  assumes co: "coherent n s" and room: "2 * n + 2 < 2 ^ 64" and cm: "committed index i item s"
    and m: "rc_cache (sy_cache s) = Some m"
  shows "coherent (Suc n) (acknowledge index i item (overlay_write index item m (sy_cache s)) s)"
proof -
  let ?c = "sy_cache s" and ?s = "acknowledge index i item (overlay_write index item m (sy_cache s)) s"
  have lt: "rc_nextEpoch ?c < rc_nextEpoch ?c + 1" and un: "unat (rc_nextEpoch ?c + 1) = unat (rc_nextEpoch ?c) + 1"
    using co room next_epoch [of "rc_nextEpoch ?c" n] by (auto simp: coherent_def)
  have "dated ?s"
    using co cm m by (auto simp: coherent_def dated_def acknowledge_def overlay_write_simps committed_def)
  moreover have "overlaid ?s"
    using co m lt
    by (auto simp: coherent_def overlaid_def acknowledge_def overlay_write_simps visible_def split: if_splits)
      (meson order.trans less_imp_le)
  moreover have "in_flight ?s"
    unfolding in_flight_def
  proof (intro allI impI)
    fix r low
    assume f: "sy_flight ?s = Some (r, low)"
    then have f': "sy_flight s = Some (r, low)" by (simp add: acknowledge_def)
    with co have r: "r \<le> rc_nextEpoch ?c"
      and low: "\<And>k. low k < length (sy_hist s k) \<and> (sy_floor s k \<le> low k \<or> survives ?c r k)"
      by (auto simp: coherent_def in_flight_def)
    note sw = survives_write [OF r lt, of index item m]
    from low sw have "\<forall>k. low k < length (sy_hist ?s k) \<and>
        (sy_floor ?s k \<le> low k \<or> survives (sy_cache ?s) r k)"
      by (auto simp: acknowledge_def)
    moreover from sw have "survives (sy_cache ?s) r (index item)" by (simp add: acknowledge_def)
    moreover from r lt have "r \<le> rc_nextEpoch (sy_cache ?s)"
      by (simp add: acknowledge_def overlay_write_simps)
    ultimately show "r \<le> rc_nextEpoch (sy_cache ?s) \<and>
        (\<forall>k. low k < length (sy_hist ?s k) \<and> (sy_floor ?s k \<le> low k \<or> survives (sy_cache ?s) r k)) \<and>
        (rc_epoch (sy_cache ?s) < r \<or> (\<exists>k. survives (sy_cache ?s) r k))"
      by blast
  qed
  ultimately show ?thesis
    using co cm un by (auto simp: coherent_def acknowledge_def overlay_write_simps committed_def)
qed

lemma coherent_commit:
  assumes "coherent n s"
  shows "coherent (Suc n) (s\<lparr>sy_hist := (sy_hist s)(k := sy_hist s k @ [v])\<rparr>)"
proof -
  let ?s = "s\<lparr>sy_hist := (sy_hist s)(k := sy_hist s k @ [v])\<rparr>"
  have "dated ?s"
    using assms by (auto simp: coherent_def dated_def nth_append less_SucI split: option.splits)
  moreover have "overlaid ?s" using assms by (simp add: coherent_def overlaid_def)
  moreover have "in_flight ?s"
    using assms by (auto simp: coherent_def in_flight_def less_SucI)
  moreover have "\<forall>j. sy_floor ?s j < length (sy_hist ?s j)"
    using assms by (auto simp: coherent_def less_SucI)
  ultimately show ?thesis using assms by (auto simp: coherent_def)
qed

lemma coherent_begin:
  assumes co: "coherent n s" and room: "2 * n + 2 < 2 ^ 64" and idle: "sy_flight s = None"
    and e: "newEpoch (sy_cache s) = (r, c)"
  shows "coherent (Suc n) (s\<lparr>sy_cache := c, sy_flight := Some (r, now s)\<rparr>)"
proof -
  let ?s = "s\<lparr>sy_cache := c, sy_flight := Some (r, now s)\<rparr>"
  have c: "r = rc_nextEpoch (sy_cache s) + 1" "c = (sy_cache s)\<lparr>rc_nextEpoch := rc_nextEpoch (sy_cache s) + 1\<rparr>"
    using e by (auto simp: newEpoch_def)
  have lt: "rc_nextEpoch (sy_cache s) < rc_nextEpoch (sy_cache s) + 1"
    and un: "unat (rc_nextEpoch (sy_cache s) + 1) = unat (rc_nextEpoch (sy_cache s)) + 1"
    using co room next_epoch [of "rc_nextEpoch (sy_cache s)" n] by (auto simp: coherent_def)
  have "dated ?s" "overlaid ?s"
    using co c lt
    by (auto simp: coherent_def dated_def overlaid_def visible_def split: option.splits) (meson order.trans less_imp_le)+
  moreover have "in_flight ?s"
  proof -
    from co have ne: "\<forall>k. sy_hist s k \<noteq> []" "\<forall>k. sy_floor s k < length (sy_hist s k)"
      "rc_epoch (sy_cache s) \<le> rc_nextEpoch (sy_cache s)" by (auto simp: coherent_def)
    have "rc_epoch (sy_cache s) < r" using ne(3) lt c(1) by simp
    moreover have "now s k < length (sy_hist s k)" "sy_floor s k \<le> now s k" for k
      using ne(1,2) by (auto simp: now_def) (metis Suc_leI Suc_le_mono Suc_pred length_greater_0_conv)
    ultimately show ?thesis using c by (simp add: in_flight_def)
  qed
  ultimately show ?thesis using co c un lt by (auto simp: coherent_def)
qed

lemma install_next:
  "rc_nextEpoch (install eq r m c) = rc_nextEpoch c \<or> rc_nextEpoch (install eq r m c) = rc_nextEpoch c + 1"
  by (cases "mergeAndPruneOverlayLocked m r c")
    (auto simp: install_def newEpoch_def Let_def dest: merge_frame)

text \<open>What a refresh does to the epoch: nothing if the view is the same, else a newer one.\<close>

lemma install_epoch:
  "(rc_epoch (install eq r m c) = rc_epoch c \<and> cacheMap_Equal eq (visible (install eq r m c)) (visible c)) \<or>
   (rc_epoch (install eq r m c) = r \<and> (\<forall>k. \<not> survives c r k) \<and> rc_nextEpoch (install eq r m c) = rc_nextEpoch c) \<or>
   (rc_epoch (install eq r m c) = rc_nextEpoch c + 1 \<and> rc_nextEpoch (install eq r m c) = rc_nextEpoch c + 1)"
proof -
  obtain effective c1 where mg: "mergeAndPruneOverlayLocked m r c = (effective, c1)"
    by (cases "mergeAndPruneOverlayLocked m r c")
  note fr = merge_frame [OF mg]
  have vis: "visible (install eq r m c) = effective"
    using mg by (auto simp: install_def visible_def newEpoch_def)
  have none: "\<not> survives c r k" if "rc_overlay c1 = fmempty" for k
    using merge_overlay [OF mg, of k] that by (auto simp: survives_def split: option.splits if_splits)
  show ?thesis
  proof (cases "cacheMap_Equal eq effective (visible c)")
    case True
    with mg fr vis show ?thesis by (auto simp: install_def visible_def)
  next
    case False
    with mg fr none show ?thesis by (auto simp: install_def visible_def newEpoch_def)
  qed
qed

lemma coherent_finish:
  assumes co: "coherent n s" and room: "2 * n + 2 < 2 ^ 64"
    and f: "sy_flight s = Some (r, low)"
    and at: "\<And>k. low k \<le> at k \<and> at k \<le> now s k \<and> sy_hist s k ! at k = fmlookup m k"
  shows "coherent (Suc n)
     (s\<lparr>sy_cache := install eq r m (sy_cache s), sy_flight := None,
        sy_ver := (\<lambda>k. if survives (sy_cache s) r k then sy_ver s k else at k)\<rparr>)"
proof -
  let ?c = "sy_cache s" and ?i = "install eq r m (sy_cache s)"
  let ?s = "s\<lparr>sy_cache := ?i, sy_flight := None,
        sy_ver := (\<lambda>k. if survives ?c r k then sy_ver s k else at k)\<rparr>"
  have ne: "\<And>k. sy_hist s k \<noteq> []" "\<And>k. sy_floor s k < length (sy_hist s k)"
    and ep: "rc_epoch ?c \<le> rc_nextEpoch ?c" "unat (rc_nextEpoch ?c) \<le> 2 * n"
    and fl: "r \<le> rc_nextEpoch ?c" "\<And>k. sy_floor s k \<le> low k \<or> survives ?c r k"
    using co f by (auto simp: coherent_def in_flight_def)
  have lt: "rc_nextEpoch ?c < rc_nextEpoch ?c + 1" and un: "unat (rc_nextEpoch ?c + 1) = unat (rc_nextEpoch ?c) + 1"
    using next_epoch [OF ep(2) room] by auto
  obtain effective where eff: "rc_cache ?i = Some effective"
    and look: "\<And>k. fmlookup effective k =
       (case fmlookup (rc_overlay ?c) k of
          Some (item, e) \<Rightarrow> if r < e then Some item else fmlookup m k | None \<Rightarrow> fmlookup m k)"
    using install_cache [of eq r m ?c] by blast
  have keep: "\<exists>item e. fmlookup (rc_overlay ?c) k = Some (item, e) \<and> r < e \<and> fmlookup effective k = Some item \<and>
      sy_hist s k ! sy_ver s k = Some item \<and> sy_ver s k < length (sy_hist s k) \<and> sy_floor s k \<le> sy_ver s k"
    if sv: "survives ?c r k" for k
  proof -
    from sv obtain item e where oe: "fmlookup (rc_overlay ?c) k = Some (item, e)" "r < e"
      by (auto simp: survives_def)
    with co have "fmlookup (visible ?c) k = Some item" by (auto simp: coherent_def overlaid_def)
    then obtain m0 where "rc_cache ?c = Some m0" "fmlookup m0 k = Some item"
      by (auto simp: visible_def split: option.splits)
    with co have "sy_hist s k ! sy_ver s k = Some item \<and> sy_ver s k < length (sy_hist s k) \<and> sy_floor s k \<le> sy_ver s k"
      by (auto simp: coherent_def dated_def)
    with oe look [of k] show ?thesis by auto
  qed
  have fresh: "fmlookup effective k = sy_hist s k ! at k \<and> at k < length (sy_hist s k) \<and> sy_floor s k \<le> at k"
    if "\<not> survives ?c r k" for k
  proof -
    from that look [of k] at [of k] have "fmlookup effective k = sy_hist s k ! at k"
      by (auto simp: survives_def split: option.splits if_splits)
    moreover have "at k < length (sy_hist s k)" using at [of k] ne(1) [of k] by (cases "sy_hist s k") (auto simp: now_def)
    moreover have "sy_floor s k \<le> at k" using that fl(2) [of k] at [of k] by auto
    ultimately show ?thesis by blast
  qed
  have "dated ?s"
    using keep fresh by (fastforce simp: dated_def eff)
  moreover have "overlaid ?s"
  proof -
    have "e \<le> rc_nextEpoch ?c" if "fmlookup (rc_overlay ?c) k = Some (item, e)" for k item e
      using co that by (auto simp: coherent_def overlaid_def)
    then have "e \<le> rc_nextEpoch ?i" if "fmlookup (rc_overlay ?c) k = Some (item, e)" for k item e
      using that install_next [of eq r m ?c] lt by (metis order.trans less_imp_le)
    then show ?thesis
      using look by (auto simp: overlaid_def visible_def eff install_overlay split: option.splits if_splits)
  qed
  moreover have "in_flight ?s" by (simp add: in_flight_def)
  moreover have "rc_epoch ?i \<le> rc_nextEpoch ?i"
    using install_epoch [of eq r m ?c] install_next [of eq r m ?c] ep(1) fl(1) lt by auto
  moreover have "unat (rc_nextEpoch ?i) \<le> 2 * Suc n"
    using install_next [of eq r m ?c] un ep(2) by auto
  ultimately show ?thesis using ne by (simp add: coherent_def)
qed

lemma coherent_step:
  assumes "rstep index eq s s'" and "coherent n s" and "2 * n + 2 < 2 ^ 64"
  shows "coherent (Suc n) s'"
  using assms
proof (cases rule: rstep.cases)
  case (commit k v)
  then show ?thesis using assms(2) by (simp add: coherent_commit)
next
  case (upsert i item c)
  from upsert(3) obtain m where "rc_cache (sy_cache s) = Some m" "c = overlay_write index item m (sy_cache s)"
    by (rule Upsert_Ok)
  with upsert assms(2,3) show ?thesis by (simp add: coherent_write)
next
  case (insert i item c)
  from insert(3,4) obtain m where "rc_cache (sy_cache s) = Some m" "c = overlay_write index item m (sy_cache s)"
    by (rule InsertIfAbsent_Ok)
  with insert assms(2,3) show ?thesis by (simp add: coherent_write)
next
  case (begin_refresh r c)
  with assms(2,3) show ?thesis by (simp add: coherent_begin)
next
  case (finish_refresh r low data m at)
  with assms(2,3) show ?thesis using coherent_finish [of n s r low at m eq] by simp
next
  case (fail_refresh f)
  with assms(2) show ?thesis
    by (auto simp: coherent_def dated_def overlaid_def in_flight_def split: option.splits)
qed

lemma coherent_run:
  assumes "sys_run index eq n s s'" and "coherent k s" and "2 * (k + n) < 2 ^ 64"
  shows "coherent (k + n) s'"
  using assms
proof (induction rule: sys_run.induct)
  case (run_step n s s' s'')
  then have "coherent (k + n) s'" by simp
  with run_step.hyps(2) run_step.prems(2) show ?case
    using coherent_step [of index eq s' s'' "k + n"] by simp
qed simp

lemma floor_step: "rstep index eq s s' \<Longrightarrow> sy_floor s k \<le> sy_floor s' k"
  by (cases rule: rstep.cases) (auto simp: acknowledge_def committed_def)

lemma floor_run: "sys_run index eq n s s' \<Longrightarrow> sy_floor s k \<le> sy_floor s' k"
  by (induction rule: sys_run.induct) (auto intro: order.trans floor_step)

section \<open>Read your writes\<close>

lemma coherent_Get:
  assumes "coherent n s" and "rc_cache (sy_cache s) \<noteq> None"
  shows "\<exists>j \<ge> sy_floor s k. j < length (sy_hist s k) \<and>
     (case sy_hist s k ! j of
        Some v \<Rightarrow> Get k (sy_cache s) = Ok (rc_epoch (sy_cache s), v)
      | None \<Rightarrow> \<exists>e. Get k (sy_cache s) = Err e \<and> errors_Is e CacheErrNotFound)"
proof -
  from assms(2) obtain m where m: "rc_cache (sy_cache s) = Some m" by blast
  with assms(1) have "sy_ver s k < length (sy_hist s k)" "fmlookup m k = sy_hist s k ! sy_ver s k"
    "sy_floor s k \<le> sy_ver s k"
    by (auto simp: coherent_def dated_def)
  with m show ?thesis
    by (intro exI [of _ "sy_ver s k"]) (auto simp: Get_def split: option.splits)
qed

lemma cache_stays_step:
  assumes "rstep index eq s s'" and "rc_cache (sy_cache s) \<noteq> None"
  shows "rc_cache (sy_cache s') \<noteq> None"
  using assms(1)
proof (cases rule: rstep.cases)
  case (finish_refresh r low data m at)
  then show ?thesis using install_cache [of eq r m "sy_cache s"] by auto
next
  case (upsert i item c)
  then show ?thesis by (auto simp: acknowledge_def overlay_write_simps elim!: Upsert_Ok)
next
  case (insert i item c)
  then show ?thesis by (auto simp: acknowledge_def overlay_write_simps elim!: InsertIfAbsent_Ok)
next
  case (begin_refresh r c)
  with assms(2) show ?thesis by (auto simp: newEpoch_def)
qed (use assms(2) in auto)

lemma cache_stays:
  "sys_run index eq n s s' \<Longrightarrow> rc_cache (sy_cache s) \<noteq> None \<Longrightarrow> rc_cache (sy_cache s') \<noteq> None"
  by (induction rule: sys_run.induct) (auto dest: cache_stays_step)

text \<open>
  C20: read your writes: after a local write of a committed version has been acknowledged, whatever
  other writers, backend changes and refreshes (started before or after, successful or not) follow,
  a read of that index never shows an older version: it shows the written value, or one the backend
  held later, and says not found only if the item was later deleted.
\<close>

theorem read_your_writes:
  assumes "start s0" and "sys_run index eq n s0 s" and "committed index i item s"
    and "Upsert index item (sy_cache s) = (Ok (), c)"
    and "sys_run index eq m (acknowledge index i item c s) s2" and "2 * (n + 1 + m) < 2 ^ 64"
  shows "\<exists>j \<ge> i. j < length (sy_hist s2 (index item)) \<and>
     (case sy_hist s2 (index item) ! j of
        Some v \<Rightarrow> Get (index item) (sy_cache s2) = Ok (rc_epoch (sy_cache s2), v)
      | None \<Rightarrow> \<exists>e. Get (index item) (sy_cache s2) = Err e \<and> errors_Is e CacheErrNotFound)"
proof -
  let ?s1 = "acknowledge index i item c s"
  have "sys_run index eq (Suc n) s0 ?s1"
    using assms(2-4) by (blast intro: run_step rstep.upsert)
  with start_coherent [OF assms(1)] assms(6) have "coherent (Suc n) ?s1"
    using coherent_run [of index eq "Suc n" s0 ?s1 0] by simp
  with assms(5,6) have co: "coherent (Suc n + m) s2"
    using coherent_run [of index eq m ?s1 s2 "Suc n"] by simp
  from assms(4) have "rc_cache (sy_cache ?s1) \<noteq> None"
    by (auto simp: acknowledge_def overlay_write_simps elim!: Upsert_Ok)
  with assms(5) have "rc_cache (sy_cache s2) \<noteq> None" by (blast dest: cache_stays)
  from coherent_Get [OF co this, of "index item"] obtain j where
    "sy_floor s2 (index item) \<le> j" "j < length (sy_hist s2 (index item))"
    "case sy_hist s2 (index item) ! j of
        Some v \<Rightarrow> Get (index item) (sy_cache s2) = Ok (rc_epoch (sy_cache s2), v)
      | None \<Rightarrow> \<exists>e. Get (index item) (sy_cache s2) = Err e \<and> errors_Is e CacheErrNotFound"
    by blast
  moreover have "i \<le> sy_floor s2 (index item)"
    using floor_run [OF assms(5), of "index item"] by (simp add: acknowledge_def)
  ultimately show ?thesis by (meson order.trans)
qed

section \<open>Epochs identify snapshots\<close>

lemma epoch_step:
  assumes st: "rstep index eq s s'" and co: "coherent n s" and room: "2 * n + 2 < 2 ^ 64"
    and refl: "\<And>v. eq v v"
  shows "rc_epoch (sy_cache s) \<le> rc_epoch (sy_cache s') \<and>
    (rc_epoch (sy_cache s) = rc_epoch (sy_cache s') \<longrightarrow>
       cacheMap_Equal eq (visible (sy_cache s')) (visible (sy_cache s)))"
proof -
  let ?c = "sy_cache s"
  have ep: "rc_epoch ?c \<le> rc_nextEpoch ?c" and lt: "rc_nextEpoch ?c < rc_nextEpoch ?c + 1"
    using co room next_epoch [of "rc_nextEpoch ?c" n] by (auto simp: coherent_def)
  then have new: "rc_epoch ?c < rc_nextEpoch ?c + 1" by simp
  note same = cacheMap_Equal_refl [of eq, OF refl]
  show ?thesis
    using st
  proof (cases rule: rstep.cases)
    case (upsert i item c)
    then obtain m where "c = overlay_write index item m ?c" by (auto elim!: Upsert_Ok)
    with upsert new show ?thesis by (auto simp: acknowledge_def overlay_write_simps)
  next
    case (insert i item c)
    then obtain m where "c = overlay_write index item m ?c" by (auto elim!: InsertIfAbsent_Ok)
    with insert new show ?thesis by (auto simp: acknowledge_def overlay_write_simps)
  next
    case (finish_refresh r low data m at)
    then have "rc_epoch ?c < r \<or> (\<exists>k. survives ?c r k)"
      using co by (auto simp: coherent_def in_flight_def)
    with install_epoch [of eq r m ?c] new finish_refresh(1) show ?thesis by auto
  qed (auto simp: same newEpoch_def visible_def)
qed

text \<open>
  C21: an epoch identifies what is visible: along any run, epochs never go back, and if two snapshots
  carry the same epoch then they hold the same indices with equal items, so that work memoized
  against an epoch may be reused as long as the epoch is the same.
\<close>

theorem epoch_identifies_snapshot:
  assumes "start s0" and "sys_run index eq n s0 s" and "sys_run index eq m s s'" and "2 * (n + m) < 2 ^ 64"
    and "\<And>v. eq v v" and "\<And>a b c. eq a b \<Longrightarrow> eq b c \<Longrightarrow> eq a c"
  shows "rc_epoch (sy_cache s) \<le> rc_epoch (sy_cache s') \<and>
    (epoch_Valid (rc_epoch (sy_cache s')) (rc_epoch (sy_cache s)) \<longrightarrow>
       cacheMap_Equal eq (visible (sy_cache s')) (visible (sy_cache s)))"
proof -
  have co: "coherent n s"
    using coherent_run [OF assms(2) start_coherent [OF assms(1)]] assms(4) by simp
  from assms(3) co assms(4) show ?thesis
  proof (induction rule: sys_run.induct)
    case (run_nil s)
    then show ?case by (simp add: cacheMap_Equal_refl assms(5))
  next
    case (run_step m s s' s'')
    then have IH: "rc_epoch (sy_cache s) \<le> rc_epoch (sy_cache s') \<and>
      (epoch_Valid (rc_epoch (sy_cache s')) (rc_epoch (sy_cache s)) \<longrightarrow>
         cacheMap_Equal eq (visible (sy_cache s')) (visible (sy_cache s)))" by simp
    have "coherent (n + m) s'"
      using coherent_run [OF run_step.hyps(1) run_step.prems(1)] run_step.prems(2) by simp
    from epoch_step [OF run_step.hyps(2) this _ assms(5)] run_step.prems(2)
    have "rc_epoch (sy_cache s') \<le> rc_epoch (sy_cache s'') \<and>
      (rc_epoch (sy_cache s') = rc_epoch (sy_cache s'') \<longrightarrow>
         cacheMap_Equal eq (visible (sy_cache s'')) (visible (sy_cache s')))" by simp
    then have mono: "rc_epoch (sy_cache s') \<le> rc_epoch (sy_cache s'')"
      and step: "rc_epoch (sy_cache s') = rc_epoch (sy_cache s'') \<Longrightarrow>
        cacheMap_Equal eq (visible (sy_cache s'')) (visible (sy_cache s'))" by blast+
    have "cacheMap_Equal eq (visible (sy_cache s'')) (visible (sy_cache s))"
      if "rc_epoch (sy_cache s'') = rc_epoch (sy_cache s)"
    proof -
      from that mono IH have e: "rc_epoch (sy_cache s') = rc_epoch (sy_cache s'')"
        "rc_epoch (sy_cache s') = rc_epoch (sy_cache s)" by auto
      from IH e(2) have "cacheMap_Equal eq (visible (sy_cache s')) (visible (sy_cache s))"
        by (simp add: epoch_Valid_def)
      with step [OF e(1)] show ?thesis by (rule cacheMap_Equal_trans [rotated]) (rule assms(6))
    qed
    with IH mono show ?case by (auto simp: epoch_Valid_def)
  qed
qed

section \<open>Convergence\<close>

text \<open>
  C22: a refresh during which nothing is written makes the cache the backend: the overlay is empty
  afterwards and every index shows the backend's current value.
\<close>

theorem quiet_refresh_converges:
  assumes "start s0" and "sys_run index eq n s0 s" and "2 * n + 2 < 2 ^ 64"
    and "newEpoch (sy_cache s) = (r, c)" and "index_data index data fmempty = Ok m"
    and "\<forall>k. fmlookup m k = last (sy_hist s k)"
  shows "rc_overlay (install eq r m c) = fmempty \<and>
     (\<forall>k. fmlookup (visible (install eq r m c)) k = last (sy_hist s k))"
proof -
  have co: "coherent n s"
    using coherent_run [OF assms(2) start_coherent [OF assms(1)]] assms(3) by simp
  have c: "r = rc_nextEpoch (sy_cache s) + 1" "rc_overlay c = rc_overlay (sy_cache s)"
    using assms(4) by (auto simp: newEpoch_def)
  have "rc_nextEpoch (sy_cache s) < r"
    using co assms(3) next_epoch [of "rc_nextEpoch (sy_cache s)" n] c(1) by (auto simp: coherent_def)
  then have old: "\<not> r < e" if "fmlookup (rc_overlay c) k = Some (item, e)" for k item e
    using co that c(2) by (force simp: coherent_def overlaid_def)
  have "fmlookup (rc_overlay (install eq r m c)) k = fmlookup fmempty k" for k
    using old by (auto simp: install_overlay split: option.splits)
  moreover obtain effective where eff: "rc_cache (install eq r m c) = Some effective"
    "\<forall>k. fmlookup effective k = (case fmlookup (rc_overlay c) k of
        Some (item, e) \<Rightarrow> if r < e then Some item else fmlookup m k | None \<Rightarrow> fmlookup m k)"
    using install_cache [of eq r m c] by blast
  moreover have "fmlookup effective k = last (sy_hist s k)" for k
    using eff(2) old assms(6) by (auto split: option.splits)
  ultimately show ?thesis by (auto simp: visible_def intro: fmap_ext)
qed

section \<open>Instances\<close>

text \<open>
  A cache of numbered items, started on an empty backend: it is refreshed once, then an item is
  committed and written through.
\<close>

definition demo0 :: "(string \<times> nat) sys" where
  "demo0 = \<lparr>sy_cache = NewRefreshAheadCache, sy_hist = (\<lambda>_. [None]), sy_ver = (\<lambda>_. 0), sy_floor = (\<lambda>_. 0),
            sy_flight = None\<rparr>"

definition demo1 :: "(string \<times> nat) sys" where
  "demo1 = demo0\<lparr>sy_cache := (sy_cache demo0)\<lparr>rc_nextEpoch := 1\<rparr>, sy_flight := Some (1, now demo0)\<rparr>"

definition demo2 :: "(string \<times> nat) sys" where
  "demo2 = demo1\<lparr>sy_cache := install (=) 1 fmempty (sy_cache demo1), sy_flight := None,
             sy_ver := (\<lambda>k. if survives (sy_cache demo1) 1 k then sy_ver demo1 k else 0)\<rparr>"

definition demo3 :: "(string \<times> nat) sys" where
  "demo3 = demo2\<lparr>sy_hist := (sy_hist demo2)(''a'' := sy_hist demo2 ''a'' @ [Some (''a'', 7)])\<rparr>"

lemma demo_start: "start demo0"
  by (simp add: start_def demo0_def)

lemma demo_run: "sys_run fst (=) 3 demo0 demo3"
proof -
  have "rstep fst (=) demo0 demo1"
    unfolding demo1_def by (rule begin_refresh) (simp_all add: demo0_def newEpoch_def NewRefreshAheadCache_def)
  moreover have "rstep fst (=) demo1 demo2"
    unfolding demo2_def
    by (rule finish_refresh [where low = "now demo0" and data = "[]" and at = "\<lambda>_. 0"])
      (simp_all add: demo1_def demo0_def now_def)
  moreover have "rstep fst (=) demo2 demo3"
    unfolding demo3_def by (rule commit)
  ultimately have "sys_run fst (=) (Suc (Suc (Suc 0))) demo0 demo3"
    by (blast intro: run_nil run_step)
  then show ?thesis by (simp add: numeral_3_eq_3)
qed

lemma demo_committed: "committed fst 1 (''a'', 7) demo3"
  by (simp add: committed_def demo3_def demo2_def demo1_def demo0_def)

lemma demo_Upsert: "\<exists>c. Upsert fst (''a'', 7) (sy_cache demo3) = (Ok (), c)"
proof -
  obtain m where "rc_cache (sy_cache demo3) = Some m"
    using install_cache [of "(=)" 1 fmempty "sy_cache demo1"] by (auto simp: demo3_def demo2_def)
  then show ?thesis by (simp add: Upsert_def)
qed

theorem read_your_writes_witness:
  "\<exists>c. Upsert fst (''a'', 7) (sy_cache demo3) = (Ok (), c) \<and> Get ''a'' c = Ok (rc_epoch c, (''a'', 7))"
proof -
  obtain c where c: "Upsert fst (''a'', 7) (sy_cache demo3) = (Ok (), c)" using demo_Upsert by blast
  let ?s = "acknowledge fst 1 (''a'', 7) c demo3"
  have "sy_hist ?s ''a'' = [None, Some (''a'', 7)]" "sy_cache ?s = c"
    by (simp_all add: acknowledge_def demo3_def demo2_def demo1_def demo0_def)
  with read_your_writes [OF demo_start demo_run demo_committed c run_nil] c show ?thesis
    by (auto simp: less_Suc_eq)
qed

theorem epoch_identifies_snapshot_witness:
  "cacheMap_Equal (=) (visible (sy_cache demo3)) (visible (sy_cache demo3))"
  using epoch_identifies_snapshot [OF demo_start demo_run run_nil] by (simp add: epoch_Valid_def)

theorem quiet_refresh_converges_witness:
  "\<exists>r c m. newEpoch (sy_cache demo3) = (r, c) \<and> index_data fst [(''a'', 7 :: nat)] fmempty = Ok m \<and>
     fmlookup (visible (install (=) r m c)) ''a'' = Some (''a'', 7)"
proof -
  obtain r c where e: "newEpoch (sy_cache demo3) = (r, c)" by (cases "newEpoch (sy_cache demo3)")
  have d: "index_data fst [(''a'', 7 :: nat)] fmempty = Ok (fmupd ''a'' (''a'', 7) fmempty)" by simp
  have "\<forall>k. fmlookup (fmupd ''a'' (''a'', 7 :: nat) fmempty) k = last (sy_hist demo3 k)"
    by (simp add: demo3_def demo2_def demo1_def demo0_def)
  from quiet_refresh_converges [OF demo_start demo_run _ e d this] e d
  show ?thesis by (simp add: demo3_def demo2_def demo1_def demo0_def)
qed

end
