(* ===== verification/Invalidation.thy ===== *)
theory Invalidation
  imports Refresh_Cache
begin

text \<open>
  The invalidation protocol of the refresh-ahead cache: \<open>Run\<close>, \<open>Invalidate\<close> and
  \<open>sendInvalidation\<close> of \<open>pkg/util/cache/refresh\_ahead.go\<close>.  Callers and the refresher goroutine
  interleave at the granularity of channel operations and critical sections.  Requests are pointers,
  here indices into \<open>iv_reqs\<close>; \<open>iv_runs\<close> records the refreshes in the order in which they were
  started, each with its result once it has returned.  A refresh itself (\<open>doRefresh\<close>) is one interval
  between two steps; what it does to the cache is the subject of \<open>Refresh_System\<close>.
\<close>

section \<open>State\<close>

text \<open>
  A send evaluates the channel once: a goroutine that found it nil blocks for ever, whatever is
  assigned to the field later.
\<close>

datatype chan = NilChan | OpenChan | ClosedChan

record inv_request =
  rq_done :: bool
  rq_err :: "gerror option"

text \<open>
  Where a call of \<open>Invalidate\<close> is: about to evaluate the channel, blocked in the send, blocked on a
  nil channel, in the deferred handler before and after it has cleared \<open>pending\<close>, waiting for
  \<open>done\<close>, or returned.
\<close>

datatype pc =
    AtSend nat | Sending nat | SendingNil nat | Recovering nat | Recovered nat
  | Waiting nat | Returned "gerror option"

text \<open>
  The refresher: \<open>Run\<close> not called yet, in its first refresh, in the select, having received a request,
  having cleared \<open>pending\<close>, refreshing for a request, refreshing on a tick, stopped.  The last
  argument is the number of the refresh.
\<close>

datatype worker =
    NotRunning | Preloading nat | Selecting | Received nat | Cleared nat
  | Serving nat nat | Ticking nat | Stopped

record inv_state =
  iv_pending :: "nat option"
  iv_chan :: chan
  iv_reqs :: "inv_request list"
  iv_calls :: "(nat \<times> pc) list"
  iv_worker :: worker
  iv_runs :: "gerror option option list"
  iv_panicked :: bool

definition inv_start :: inv_state where
  "inv_start =
     \<lparr>iv_pending = None, iv_chan = NilChan, iv_reqs = [], iv_calls = [], iv_worker = NotRunning,
      iv_runs = [], iv_panicked = False\<rparr>"

section \<open>Steps\<close>

text \<open>Closing a channel that is closed already is a panic outside any handler.\<close>

definition close_done :: "nat \<Rightarrow> inv_state \<Rightarrow> inv_state" where
  "close_done r s =
     s\<lparr>iv_reqs := (iv_reqs s)[r := (iv_reqs s ! r)\<lparr>rq_done := True\<rparr>],
       iv_panicked := (iv_panicked s \<or> rq_done (iv_reqs s ! r))\<rparr>"

definition set_err :: "nat \<Rightarrow> gerror option \<Rightarrow> inv_state \<Rightarrow> inv_state" where
  "set_err r e s = s\<lparr>iv_reqs := (iv_reqs s)[r := (iv_reqs s ! r)\<lparr>rq_err := e\<rparr>]\<rparr>"

definition goto :: "nat \<Rightarrow> pc \<Rightarrow> inv_state \<Rightarrow> inv_state" where
  "goto i p s = s\<lparr>iv_calls := (iv_calls s)[i := (fst (iv_calls s ! i), p)]\<rparr>"

text \<open>The critical section at the start of \<open>Invalidate\<close>.  The time of the call is kept with it.\<close>

definition Invalidate_enter :: "inv_state \<Rightarrow> inv_state" where
  "Invalidate_enter s =
     (let now = length (iv_runs s) in
      case iv_pending s of
        Some r \<Rightarrow> s\<lparr>iv_calls := iv_calls s @ [(now, Waiting r)]\<rparr>
      | None \<Rightarrow>
          (let r = length (iv_reqs s)
           in s\<lparr>iv_reqs := iv_reqs s @ [\<lparr>rq_done = False, rq_err = None\<rparr>], iv_pending := Some r,
                iv_calls := iv_calls s @ [(now, AtSend r)]\<rparr>))"

text \<open>The steps of call \<open>i\<close> after that.\<close>

definition Invalidate_step :: "nat \<Rightarrow> inv_state \<Rightarrow> inv_state option" where
  "Invalidate_step i s =
     (if length (iv_calls s) \<le> i then None
      else case snd (iv_calls s ! i) of
        AtSend r \<Rightarrow> Some (goto i (if iv_chan s = NilChan then SendingNil r else Sending r) s)
      | Sending r \<Rightarrow>
          (case iv_chan s of
             ClosedChan \<Rightarrow> Some (goto i (Recovering r) (set_err r (Some (Sentinel CacheErrInvalid)) s))
           | _ \<Rightarrow> if iv_worker s = Selecting
                  then Some (goto i (Waiting r) (s\<lparr>iv_worker := Received r\<rparr>)) else None)
      | SendingNil r \<Rightarrow> None
      | Recovering r \<Rightarrow> Some (goto i (Recovered r) (s\<lparr>iv_pending := None\<rparr>))
      | Recovered r \<Rightarrow> Some (goto i (Returned (Some (Sentinel CacheErrInvalid))) (close_done r s))
      | Waiting r \<Rightarrow>
          if rq_done (iv_reqs s ! r) then Some (goto i (Returned (rq_err (iv_reqs s ! r))) s) else None
      | Returned e \<Rightarrow> None)"

definition begin_run :: "inv_state \<Rightarrow> inv_state" where
  "begin_run s = s\<lparr>iv_runs := iv_runs s @ [None]\<rparr>"

definition end_run :: "nat \<Rightarrow> gerror option \<Rightarrow> inv_state \<Rightarrow> inv_state" where
  "end_run n e s = s\<lparr>iv_runs := (iv_runs s)[n := Some e]\<rparr>"

text \<open>
  The steps of \<open>Run\<close> and of the goroutine it starts; \<open>e\<close> is the result of a refresh that
  returns in this step.
\<close>

definition Run_step :: "gerror option \<Rightarrow> inv_state \<Rightarrow> inv_state option" where
  "Run_step e s =
     (case iv_worker s of
        NotRunning \<Rightarrow> Some ((begin_run s)\<lparr>iv_worker := Preloading (length (iv_runs s))\<rparr>)
      | Preloading n \<Rightarrow>
          (if e \<noteq> None then Some ((end_run n e s)\<lparr>iv_worker := NotRunning\<rparr>)
           else Some ((end_run n e s)\<lparr>iv_worker := Selecting, iv_chan := OpenChan\<rparr>))
      | Selecting \<Rightarrow> None
      | Received r \<Rightarrow> Some (s\<lparr>iv_pending := None, iv_worker := Cleared r\<rparr>)
      | Cleared r \<Rightarrow> Some ((begin_run s)\<lparr>iv_worker := Serving r (length (iv_runs s))\<rparr>)
      | Serving r n \<Rightarrow> Some ((close_done r (set_err r e (end_run n e s)))\<lparr>iv_worker := Selecting\<rparr>)
      | Ticking n \<Rightarrow> Some ((end_run n e s)\<lparr>iv_worker := Selecting\<rparr>)
      | Stopped \<Rightarrow> None)"

text \<open>The other two branches of the select.\<close>

definition Run_tick :: "inv_state \<Rightarrow> inv_state option" where
  "Run_tick s =
     (if iv_worker s = Selecting then Some ((begin_run s)\<lparr>iv_worker := Ticking (length (iv_runs s))\<rparr>) else None)"

definition Run_done :: "inv_state \<Rightarrow> inv_state option" where
  "Run_done s =
     (if iv_worker s = Selecting then Some (s\<lparr>iv_chan := ClosedChan, iv_worker := Stopped\<rparr>) else None)"

datatype inv_label = Call | CallStep nat | Work "gerror option" | Tick | ContextDone

fun inv_step :: "inv_label \<Rightarrow> inv_state \<Rightarrow> inv_state option" where
  "inv_step Call s = Some (Invalidate_enter s)"
| "inv_step (CallStep i) s = Invalidate_step i s"
| "inv_step (Work e) s = Run_step e s"
| "inv_step Tick s = Run_tick s"
| "inv_step ContextDone s = Run_done s"

fun inv_run :: "inv_label list \<Rightarrow> inv_state \<Rightarrow> inv_state option" where
  "inv_run [] s = Some s"
| "inv_run (l # ls) s = (case inv_step l s of None \<Rightarrow> None | Some s' \<Rightarrow> inv_run ls s')"

lemma inv_run_append:
  "inv_run (ls @ ls') s = (case inv_run ls s of None \<Rightarrow> None | Some s' \<Rightarrow> inv_run ls' s')"
  by (induction ls arbitrary: s) (auto split: option.splits)

section \<open>Who finishes a request\<close>

text \<open>
  Every open request has exactly one party that will close it: the call that is about to send it or
  is recovering from a closed channel, or the refresher that has received it.  While that party has not
  cleared \<open>pending\<close> yet, later callers join the request.
\<close>

fun pc_req :: "pc \<Rightarrow> nat option" where
  "pc_req (AtSend r) = Some r" | "pc_req (Sending r) = Some r" | "pc_req (SendingNil r) = Some r"
| "pc_req (Recovering r) = Some r" | "pc_req (Recovered r) = Some r" | "pc_req (Waiting r) = Some r"
| "pc_req (Returned e) = None"

definition sender :: "nat \<Rightarrow> nat \<times> pc \<Rightarrow> bool" where
  "sender r c \<longleftrightarrow> snd c = AtSend r \<or> snd c = Sending r \<or> snd c = SendingNil r \<or> snd c = Recovering r"

definition closer :: "nat \<Rightarrow> nat \<times> pc \<Rightarrow> bool" where
  "closer r c \<longleftrightarrow> snd c = Recovered r"

definition sends :: "inv_state \<Rightarrow> nat \<Rightarrow> nat" where
  "sends s r = length (filter (sender r) (iv_calls s)) + (if iv_worker s = Received r then 1 else 0)"

definition closes :: "inv_state \<Rightarrow> nat \<Rightarrow> nat" where
  "closes s r =
     length (filter (closer r) (iv_calls s)) +
     (case iv_worker s of Cleared r' \<Rightarrow> if r' = r then 1 else 0 | Serving r' n \<Rightarrow> if r' = r then 1 else 0 | _ \<Rightarrow> 0)"

definition owned :: "inv_state \<Rightarrow> bool" where
  "owned s \<longleftrightarrow>
     (\<forall>r. sends s r = (if iv_pending s = Some r then 1 else 0)) \<and>
     (\<forall>r. closes s r =
        (if r < length (iv_reqs s) \<and> \<not> rq_done (iv_reqs s ! r) \<and> iv_pending s \<noteq> Some r then 1 else 0)) \<and>
     (\<forall>r. iv_pending s = Some r \<longrightarrow> r < length (iv_reqs s) \<and> \<not> rq_done (iv_reqs s ! r)) \<and>
     (\<forall>c \<in> set (iv_calls s). \<forall>r. pc_req (snd c) = Some r \<longrightarrow> r < length (iv_reqs s)) \<and>
     \<not> iv_panicked s"

definition chan_ok :: "inv_state \<Rightarrow> bool" where
  "chan_ok s \<longleftrightarrow>
     (case iv_worker s of
        NotRunning \<Rightarrow> iv_chan s = NilChan
      | Preloading n \<Rightarrow> iv_chan s = NilChan \<and> n < length (iv_runs s) \<and> iv_runs s ! n = None
      | Stopped \<Rightarrow> iv_chan s = ClosedChan
      | Serving r n \<Rightarrow> iv_chan s = OpenChan \<and> n < length (iv_runs s) \<and> iv_runs s ! n = None
      | Ticking n \<Rightarrow> iv_chan s = OpenChan \<and> n < length (iv_runs s) \<and> iv_runs s ! n = None
      | _ \<Rightarrow> iv_chan s = OpenChan)"

lemma length_filter_update:
  assumes "i < length xs"
  shows "length (filter P (xs[i := y])) + (if P (xs ! i) then 1 else 0) =
     length (filter P xs) + (if P y then 1 else 0)"
  using assms
proof (induction xs arbitrary: i)
  case Nil
  then show ?case by simp
next
  case (Cons x xs)
  then show ?case by (cases i) auto
qed

lemma sends_pos: "i < length (iv_calls s) \<Longrightarrow> sender r (iv_calls s ! i) \<Longrightarrow> 0 < sends s r"
  by (auto simp: sends_def filter_empty_conv intro!: nth_mem)

lemma closes_pos: "i < length (iv_calls s) \<Longrightarrow> closer r (iv_calls s ! i) \<Longrightarrow> 0 < closes s r"
  by (auto simp: closes_def filter_empty_conv intro!: nth_mem)

lemma owned_start: "owned inv_start"
  by (simp add: owned_def inv_start_def sends_def closes_def)

lemma ownedD:
  assumes "owned s"
  shows "sends s r = (if iv_pending s = Some r then 1 else 0)"
    and "closes s r =
      (if r < length (iv_reqs s) \<and> \<not> rq_done (iv_reqs s ! r) \<and> iv_pending s \<noteq> Some r then 1 else 0)"
    and "iv_pending s = Some r \<Longrightarrow> r < length (iv_reqs s)"
    and "iv_pending s = Some r \<Longrightarrow> \<not> rq_done (iv_reqs s ! r)"
    and "c \<in> set (iv_calls s) \<Longrightarrow> pc_req (snd c) = Some r \<Longrightarrow> r < length (iv_reqs s)"
    and "\<not> iv_panicked s"
  using assms unfolding owned_def by auto

lemma ownedI:
  assumes "\<And>r. sends s r = (if iv_pending s = Some r then 1 else 0)"
    and "\<And>r. closes s r =
      (if r < length (iv_reqs s) \<and> \<not> rq_done (iv_reqs s ! r) \<and> iv_pending s \<noteq> Some r then 1 else 0)"
    and "\<And>r. iv_pending s = Some r \<Longrightarrow> r < length (iv_reqs s) \<and> \<not> rq_done (iv_reqs s ! r)"
    and "\<And>c r. c \<in> set (iv_calls s) \<Longrightarrow> pc_req (snd c) = Some r \<Longrightarrow> r < length (iv_reqs s)"
    and "\<not> iv_panicked s"
  shows "owned s"
  using assms unfolding owned_def by auto

lemma owned_enter:
  assumes own: "owned s"
  shows "owned (Invalidate_enter s)"
proof (cases "iv_pending s")
  case None
  let ?n = "length (iv_reqs s)"
  have cnt: "sends (Invalidate_enter s) r = sends s r + (if r = ?n then 1 else 0)"
    "closes (Invalidate_enter s) r = closes s r" for r
    using None by (auto simp: Invalidate_enter_def sends_def closes_def sender_def closer_def Let_def)
  show ?thesis
    by (rule ownedI)
      (use None cnt ownedD [OF own] in
       \<open>auto simp: Invalidate_enter_def Let_def nth_append less_Suc_eq dest: ownedD(5) [OF own]\<close>)
next
  case (Some r0)
  have cnt: "sends (Invalidate_enter s) r = sends s r" "closes (Invalidate_enter s) r = closes s r" for r
    using Some by (auto simp: Invalidate_enter_def sends_def closes_def sender_def closer_def Let_def)
  show ?thesis
    by (rule ownedI)
      (use Some cnt ownedD [OF own] in \<open>auto simp: Invalidate_enter_def Let_def dest: ownedD(5) [OF own]\<close>)
qed

lemma sends_goto:
  "i < length (iv_calls s) \<Longrightarrow>
   sends (goto i p s) r + (if sender r (iv_calls s ! i) then 1 else 0) =
     sends s r + (if sender r (0, p) then 1 else 0)"
  using length_filter_update [of i "iv_calls s" "sender r" "(fst (iv_calls s ! i), p)"]
  by (simp add: sends_def goto_def sender_def)

lemma closes_goto:
  "i < length (iv_calls s) \<Longrightarrow>
   closes (goto i p s) r + (if closer r (iv_calls s ! i) then 1 else 0) =
     closes s r + (if closer r (0, p) then 1 else 0)"
  using length_filter_update [of i "iv_calls s" "closer r" "(fst (iv_calls s ! i), p)"]
  by (simp add: closes_def goto_def closer_def)

text \<open>A call that moves on without changing hands.\<close>

lemma owned_goto:
  assumes own: "owned s" and i: "i < length (iv_calls s)"
    and same: "\<And>r. sender r (iv_calls s ! i) = sender r (0, p)" "\<And>r. closer r (iv_calls s ! i) = closer r (0, p)"
    and req: "pc_req p = None \<or> pc_req p = pc_req (snd (iv_calls s ! i))"
  shows "owned (goto i p s)"
proof -
  have "sends (goto i p s) r = sends s r" "closes (goto i p s) r = closes s r" for r
    using sends_goto [OF i, of p r] closes_goto [OF i, of p r] same [of r] by auto
  moreover have "r < length (iv_reqs s)" if "c \<in> set ((iv_calls s)[i := (fst (iv_calls s ! i), p)])" "pc_req (snd c) = Some r" for c r
  proof -
    from that(1) have "c \<in> set (iv_calls s) \<or> c = (fst (iv_calls s ! i), p)"
      by (auto dest: set_update_subset_insert [THEN subsetD])
    with that(2) req have "\<exists>c' \<in> set (iv_calls s). pc_req (snd c') = Some r"
      using nth_mem [OF i] by force
    with own show ?thesis unfolding owned_def by blast
  qed
  ultimately show ?thesis
    using ownedD [OF own] by (intro ownedI) (auto simp: goto_def)
qed

lemma set_updateD: "c \<in> set (xs[i := y]) \<Longrightarrow> c \<in> set xs \<or> c = y"
  by (auto dest: set_update_subset_insert [THEN subsetD])

lemma rq_done_set_err [simp]:
  "rq_done (xs[r := (xs ! r)\<lparr>rq_err := e\<rparr>] ! k) = rq_done (xs ! k)"
  by (cases "r < length xs") (simp_all add: nth_list_update not_less list_update_beyond)

lemma owned_set_err:
  assumes own: "owned s"
  shows "owned (set_err r e s)"
proof -
  have "sends (set_err r e s) = sends s" "closes (set_err r e s) = closes s"
    by (auto simp: set_err_def sends_def closes_def fun_eq_iff)
  then show ?thesis
    using ownedD [OF own] by (intro ownedI) (auto simp: set_err_def nth_list_update)
qed

lemma sender_pending:
  assumes "owned s" and "i < length (iv_calls s)" and "sender r (iv_calls s ! i)"
  shows "iv_pending s = Some r"
  using sends_pos [OF assms(2,3)] ownedD(1) [OF assms(1), of r] by (auto split: if_splits)

lemma closer_open:
  assumes "owned s" and "i < length (iv_calls s)" and "closer r (iv_calls s ! i)"
  shows "r < length (iv_reqs s)" and "\<not> rq_done (iv_reqs s ! r)" and "iv_pending s \<noteq> Some r"
  using closes_pos [OF assms(2,3)] ownedD(2) [OF assms(1), of r] by (auto split: if_splits)

text \<open>The rendezvous: the refresher takes over from the sender.\<close>

lemma owned_rendezvous:
  assumes own: "owned s" and i: "i < length (iv_calls s)" "snd (iv_calls s ! i) = Sending r"
    and w: "iv_worker s = Selecting"
  shows "owned (goto i (Waiting r) (s\<lparr>iv_worker := Received r\<rparr>))"
proof -
  let ?t = "s\<lparr>iv_worker := Received r\<rparr>"
  have "sends ?t r' = sends s r' + (if r' = r then 1 else 0)" "closes ?t r' = closes s r'" for r'
    using w by (auto simp: sends_def closes_def)
  moreover have "sender r' (iv_calls ?t ! i) = (r' = r)" "\<not> closer r' (iv_calls ?t ! i)" for r'
    using i by (auto simp: sender_def closer_def)
  ultimately have cnt: "sends (goto i (Waiting r) ?t) r' = sends s r'" "closes (goto i (Waiting r) ?t) r' = closes s r'" for r'
    using sends_goto [of i ?t "Waiting r" r'] closes_goto [of i ?t "Waiting r" r'] i
    by (auto simp: sender_def closer_def split: if_splits)
  have req: "r < length (iv_reqs s)"
    using ownedD(5) [OF own nth_mem [OF i(1)]] i(2) by simp
  show ?thesis
    by (rule ownedI)
      (use cnt ownedD [OF own] req in \<open>auto simp: goto_def dest: ownedD(5) [OF own] dest!: set_updateD\<close>)
qed

lemma owned_clear:
  assumes own: "owned s" and i: "i < length (iv_calls s)" "snd (iv_calls s ! i) = Recovering r"
  shows "owned (goto i (Recovered r) (s\<lparr>iv_pending := None\<rparr>))"
proof -
  let ?t = "s\<lparr>iv_pending := None\<rparr>"
  have p: "iv_pending s = Some r" using sender_pending [OF own i(1)] i(2) by (simp add: sender_def)
  have "sends ?t r' = sends s r'" "closes ?t r' = closes s r'" for r' by (simp_all add: sends_def closes_def)
  moreover have "sender r' (iv_calls ?t ! i) = (r' = r)" "\<not> closer r' (iv_calls ?t ! i)" for r'
    using i by (auto simp: sender_def closer_def)
  ultimately have cnt: "sends (goto i (Recovered r) ?t) r' = 0"
    "closes (goto i (Recovered r) ?t) r' = closes s r' + (if r' = r then 1 else 0)" for r'
    using sends_goto [of i ?t "Recovered r" r'] closes_goto [of i ?t "Recovered r" r'] i ownedD(1) [OF own, of r'] p
    by (auto simp: sender_def closer_def split: if_splits)
  show ?thesis
    by (rule ownedI)
      (use cnt ownedD [OF own] p in \<open>auto simp: goto_def dest: ownedD(5) [OF own] dest!: set_updateD\<close>)
qed

lemma owned_close:
  assumes own: "owned s" and i: "i < length (iv_calls s)" "snd (iv_calls s ! i) = Recovered r"
  shows "owned (goto i (Returned e) (close_done r s))"
proof -
  let ?t = "close_done r s"
  have r: "r < length (iv_reqs s)" "\<not> rq_done (iv_reqs s ! r)" "iv_pending s \<noteq> Some r"
    using closer_open [OF own i(1)] i(2) by (simp_all add: closer_def)
  have "sends ?t r' = sends s r'" "closes ?t r' = closes s r'" for r'
    by (simp_all add: sends_def closes_def close_done_def)
  moreover have "closer r' (iv_calls ?t ! i) = (r' = r)" "\<not> sender r' (iv_calls ?t ! i)" for r'
    using i by (auto simp: sender_def closer_def close_done_def)
  ultimately have cnt: "sends (goto i (Returned e) ?t) r' = sends s r'"
    "closes (goto i (Returned e) ?t) r' = (if r' = r then 0 else closes s r')" for r'
    using sends_goto [of i ?t "Returned e" r'] closes_goto [of i ?t "Returned e" r'] i ownedD(2) [OF own, of r'] r
    by (auto simp: sender_def closer_def close_done_def split: if_splits)
  show ?thesis
    by (rule ownedI)
      (use cnt ownedD [OF own] r in
       \<open>auto simp: goto_def close_done_def nth_list_update dest: ownedD(5) [OF own] dest!: set_updateD\<close>)
qed

lemma owned_Invalidate_step:
  assumes own: "owned s" and st: "Invalidate_step i s = Some s'"
  shows "owned s'"
proof -
  have i: "i < length (iv_calls s)" using st by (auto simp: Invalidate_step_def split: if_splits)
  show ?thesis
  proof (cases "snd (iv_calls s ! i)")
    case (AtSend r)
    with st i have "s' = goto i (Sending r) s \<or> s' = goto i (SendingNil r) s"
      by (auto simp: Invalidate_step_def split: if_splits)
    with AtSend own i show ?thesis by (auto intro!: owned_goto simp: sender_def closer_def)
  next
    case (Sending r)
    have "owned (goto i (Recovering r) (set_err r e s))" for e
      by (rule owned_goto) (use Sending own i in \<open>auto simp: set_err_def sender_def closer_def owned_set_err [unfolded set_err_def]\<close>)
    with Sending st i owned_rendezvous [OF own i Sending] show ?thesis
      by (auto simp: Invalidate_step_def split: if_splits chan.splits)
  next
    case (Waiting r)
    with st i have "s' = goto i (Returned (rq_err (iv_reqs s ! r))) s"
      by (auto simp: Invalidate_step_def split: if_splits)
    with Waiting own i show ?thesis by (auto intro!: owned_goto simp: sender_def closer_def)
  qed (use st i owned_clear [OF own i] owned_close [OF own i] in \<open>auto simp: Invalidate_step_def\<close>)
qed

lemma owned_Run_step:
  assumes own: "owned s" and st: "Run_step e s = Some s'"
  shows "owned s'"
proof (cases "iv_worker s")
  case (Received r)
  have p: "iv_pending s = Some r"
    using ownedD(1) [OF own, of r] Received by (auto simp: sends_def split: if_splits)
  have "sends s' r' = 0" "closes s' r' = closes s r' + (if r' = r then 1 else 0)" for r'
    using Received st ownedD(1) [OF own, of r'] p by (auto simp: Run_step_def sends_def closes_def split: if_splits)
  with Received st p show ?thesis
    by (intro ownedI) (use ownedD [OF own] in \<open>auto simp: Run_step_def dest: ownedD(5) [OF own]\<close>)
next
  case (Serving r n)
  have r: "r < length (iv_reqs s)" "\<not> rq_done (iv_reqs s ! r)" "iv_pending s \<noteq> Some r"
    using ownedD(2) [OF own, of r] Serving by (auto simp: closes_def split: if_splits)
  have "sends s' r' = sends s r'" "closes s' r' = (if r' = r then 0 else closes s r')" for r'
    using Serving st ownedD(2) [OF own, of r'] r
    by (auto simp: Run_step_def sends_def closes_def close_done_def set_err_def end_run_def split: if_splits)
  with Serving st r show ?thesis
    by (intro ownedI) (use ownedD [OF own] in
        \<open>auto simp: Run_step_def close_done_def set_err_def end_run_def nth_list_update dest: ownedD(5) [OF own]\<close>)
qed (use own st in \<open>auto simp: owned_def Run_step_def sends_def closes_def begin_run_def end_run_def split: if_splits\<close>)

lemma owned_select:
  assumes own: "owned s" and w: "iv_worker s = Selecting"
  shows "owned (s\<lparr>iv_runs := rs, iv_worker := Ticking n\<rparr>)" and "owned (s\<lparr>iv_chan := c, iv_worker := Stopped\<rparr>)"
  using ownedD [OF own] w by (auto intro!: ownedI simp: sends_def closes_def)

lemma owned_step:
  assumes own: "owned s" and st: "inv_step l s = Some s'"
  shows "owned s'"
proof (cases l)
  case Call
  with st owned_enter [OF own] show ?thesis by simp
next
  case (CallStep i)
  with st owned_Invalidate_step [OF own] show ?thesis by simp
next
  case (Work e)
  with st owned_Run_step [OF own] show ?thesis by simp
qed (use st in \<open>auto simp: Run_tick_def Run_done_def begin_run_def intro: owned_select [OF own] split: if_splits\<close>)

section \<open>When a refresh was started\<close>

text \<open>
  \<open>served s e\<close>: a refresh that was started when at least \<open>e\<close> had been started before has returned
  without an error.  A call is in order if it will only learn of success from such a refresh.
\<close>

definition served :: "inv_state \<Rightarrow> nat \<Rightarrow> bool" where
  "served s e \<longleftrightarrow> (\<exists>n \<ge> e. n < length (iv_runs s) \<and> iv_runs s ! n = Some None)"

definition in_order :: "inv_state \<Rightarrow> nat \<times> pc \<Rightarrow> bool" where
  "in_order s c \<longleftrightarrow>
     fst c \<le> length (iv_runs s) \<and>
     (\<forall>r n. pc_req (snd c) = Some r \<longrightarrow> iv_worker s = Serving r n \<longrightarrow> fst c \<le> n) \<and>
     (\<forall>r. snd c = Waiting r \<longrightarrow> rq_done (iv_reqs s ! r) \<longrightarrow> rq_err (iv_reqs s ! r) = None \<longrightarrow> served s (fst c)) \<and>
     (\<forall>r. snd c = Recovering r \<or> snd c = Recovered r \<longrightarrow> rq_err (iv_reqs s ! r) \<noteq> None) \<and>
     (snd c = Returned None \<longrightarrow> served s (fst c))"

definition ordered :: "inv_state \<Rightarrow> bool" where
  "ordered s \<longleftrightarrow> (\<forall>c \<in> set (iv_calls s). in_order s c)"

lemma chan_ok_frame:
  "chan_ok s \<Longrightarrow> iv_worker s' = iv_worker s \<Longrightarrow> iv_chan s' = iv_chan s \<Longrightarrow> iv_runs s' = iv_runs s \<Longrightarrow> chan_ok s'"
  by (cases "iv_worker s") (simp_all add: chan_ok_def)

lemma Invalidate_step_frame:
  assumes "Invalidate_step i s = Some s'"
  shows "iv_chan s' = iv_chan s" and "iv_runs s' = iv_runs s"
    and "iv_worker s' = iv_worker s \<or> (iv_worker s = Selecting \<and> (\<exists>r. iv_worker s' = Received r))"
  using assms
  by (auto simp: Invalidate_step_def goto_def set_err_def close_done_def split: if_splits pc.splits chan.splits)

lemma chan_ok_step:
  assumes ok: "chan_ok s" and st: "inv_step l s = Some s'"
  shows "chan_ok s'"
proof (cases l)
  case Call
  with st show ?thesis
    by (auto intro: chan_ok_frame [OF ok] simp: Invalidate_enter_def Let_def split: option.splits)
next
  case (CallStep i)
  with st have "Invalidate_step i s = Some s'" by simp
  from Invalidate_step_frame [OF this] chan_ok_frame [OF ok, of s'] ok show ?thesis
    by (auto simp: chan_ok_def)
next
  case (Work e)
  with st ok show ?thesis
    by (cases "iv_worker s")
      (auto simp: Run_step_def chan_ok_def begin_run_def end_run_def set_err_def close_done_def split: if_splits)
qed (use st ok in \<open>auto simp: Run_tick_def Run_done_def begin_run_def chan_ok_def split: if_splits\<close>)

lemma served_frame [simp]:
  "served (s\<lparr>iv_calls := a\<rparr>) e = served s e" "served (s\<lparr>iv_reqs := b\<rparr>) e = served s e"
  "served (s\<lparr>iv_pending := c\<rparr>) e = served s e" "served (s\<lparr>iv_worker := d\<rparr>) e = served s e"
  "served (s\<lparr>iv_chan := f\<rparr>) e = served s e" "served (s\<lparr>iv_panicked := g\<rparr>) e = served s e"
  by (simp_all add: served_def)

lemma served_begin: "served s e \<Longrightarrow> served (begin_run s) e"
  unfolding served_def begin_run_def by (auto simp: nth_append intro: less_SucI)

lemma served_end:
  assumes "served s e" and "iv_runs s ! n = None"
  shows "served (end_run n x s) e"
proof -
  from assms obtain k where "e \<le> k" "k < length (iv_runs s)" "iv_runs s ! k = Some None" "k \<noteq> n"
    unfolding served_def by force
  then show ?thesis unfolding served_def end_run_def by (intro exI [of _ k]) (auto simp: nth_list_update)
qed

lemma served_now: "e \<le> n \<Longrightarrow> n < length (iv_runs s) \<Longrightarrow> served (end_run n None s) e"
  unfolding served_def end_run_def by (intro exI [of _ n]) auto

text \<open>The refreshes that were started and the requests change behind the back of a waiting call.\<close>

lemma in_order_frame:
  assumes "in_order s c" and "fst c \<le> length (iv_runs s')" and "\<And>e. served s e \<Longrightarrow> served s' e"
    and "\<And>r n. pc_req (snd c) = Some r \<Longrightarrow> iv_worker s' = Serving r n \<Longrightarrow> fst c \<le> n"
    and "\<And>r. pc_req (snd c) = Some r \<Longrightarrow> rq_done (iv_reqs s' ! r) \<Longrightarrow> rq_err (iv_reqs s' ! r) = None \<Longrightarrow>
      rq_done (iv_reqs s ! r) \<and> rq_err (iv_reqs s ! r) = None \<or> served s' (fst c)"
    and "\<And>r. snd c = Recovering r \<or> snd c = Recovered r \<Longrightarrow> rq_err (iv_reqs s ! r) \<noteq> None \<Longrightarrow>
      rq_err (iv_reqs s' ! r) \<noteq> None"
  shows "in_order s' c"
  using assms unfolding in_order_def by (cases "snd c") auto

lemma ordered_enter:
  assumes "ordered s" and own: "owned s" and "chan_ok s"
  shows "ordered (Invalidate_enter s)"
proof -
  let ?s = "Invalidate_enter s"
  have old: "in_order ?s c" if c: "c \<in> set (iv_calls s)" for c
  proof (rule in_order_frame)
    show "in_order s c" using assms(1) c by (simp add: ordered_def)
    then show "fst c \<le> length (iv_runs ?s)" by (simp add: in_order_def Invalidate_enter_def Let_def split: option.splits)
    show "served s e \<Longrightarrow> served ?s e" for e by (simp add: Invalidate_enter_def Let_def split: option.splits)
    show "fst c \<le> n" if "pc_req (snd c) = Some r" "iv_worker ?s = Serving r n" for r n
      using \<open>in_order s c\<close> that by (simp add: in_order_def Invalidate_enter_def Let_def split: option.splits)
    have same: "iv_reqs ?s ! r = iv_reqs s ! r" if "pc_req (snd c) = Some r" for r
      using ownedD(5) [OF own c that] by (simp add: Invalidate_enter_def Let_def nth_append split: option.splits)
    show "rq_done (iv_reqs s ! r) \<and> rq_err (iv_reqs s ! r) = None \<or> served ?s (fst c)"
      if "pc_req (snd c) = Some r" "rq_done (iv_reqs ?s ! r)" "rq_err (iv_reqs ?s ! r) = None" for r
      using that same [OF that(1)] by simp
    show "rq_err (iv_reqs ?s ! r) \<noteq> None" if "snd c = Recovering r \<or> snd c = Recovered r" "rq_err (iv_reqs s ! r) \<noteq> None" for r
      using that same [of r] by auto
  qed
  have "in_order ?s c" if "c \<in> set (iv_calls ?s)" "c \<notin> set (iv_calls s)" for c
  proof (cases "iv_pending s")
    case None
    have "closes s (length (iv_reqs s)) = 0" using ownedD(2) [OF own] by simp
    with None that show ?thesis
      by (auto simp: Invalidate_enter_def Let_def in_order_def closes_def)
  next
    case (Some r)
    have "\<not> rq_done (iv_reqs s ! r)" "closes s r = 0"
      using ownedD(4) [OF own Some] ownedD(2) [OF own] Some by simp_all
    with Some that show ?thesis
      by (auto simp: Invalidate_enter_def Let_def in_order_def closes_def)
  qed
  with old show ?thesis unfolding ordered_def by blast
qed

text \<open>A step of a call: the others are not disturbed, and the one that moves stays in order.\<close>

lemma nth_update_if: "k < length xs \<Longrightarrow> xs[r := y] ! k = (if r = k then y else xs ! k)"
  by (cases "r = k") auto

lemma Invalidate_step_others:
  assumes own: "owned s" and "ordered s" and st: "Invalidate_step i s = Some s'" and c: "c \<in> set (iv_calls s)"
  shows "in_order s' c"
proof -
  have i: "i < length (iv_calls s)" using st by (auto simp: Invalidate_step_def split: if_splits)
  note frame = Invalidate_step_frame [OF st]
  have ord: "in_order s c" "in_order s (iv_calls s ! i)" using assms(2) c i by (auto simp: ordered_def)
  have pend: "\<not> rq_done (iv_reqs s ! r)" if "snd (iv_calls s ! i) = Sending r" for r
    using that sender_pending [OF own i] ownedD(4) [OF own] by (simp add: sender_def)
  have err: "rq_err (iv_reqs s ! r) \<noteq> None" if "snd (iv_calls s ! i) = Recovered r" for r
    using that ord(2) by (simp add: in_order_def)
  have "rq_done (iv_reqs s ! r) \<and> rq_err (iv_reqs s ! r) = None"
    if "rq_done (iv_reqs s' ! r)" "rq_err (iv_reqs s' ! r) = None" "r < length (iv_reqs s)" for r
    using that st i pend err
    by (auto simp: Invalidate_step_def goto_def set_err_def close_done_def nth_update_if
        split: if_splits pc.splits chan.splits)
  moreover have "rq_err (iv_reqs s' ! r) \<noteq> None" if "rq_err (iv_reqs s ! r) \<noteq> None" "r < length (iv_reqs s)" for r
    using that st i
    by (auto simp: Invalidate_step_def goto_def set_err_def close_done_def nth_update_if
        split: if_splits pc.splits chan.splits)
  ultimately show ?thesis
    using ord(1) frame ownedD(5) [OF own c]
    by (intro in_order_frame [OF ord(1)]) (auto simp: in_order_def served_def)
qed

lemma Invalidate_step_self:
  assumes own: "owned s" and "ordered s" and st: "Invalidate_step i s = Some s'"
  shows "in_order s' (iv_calls s' ! i)"
proof -
  have i: "i < length (iv_calls s)" using st by (auto simp: Invalidate_step_def split: if_splits)
  have ord: "in_order s (iv_calls s ! i)" using assms(2) i by (auto simp: ordered_def)
  have "r < length (iv_reqs s)" if "pc_req (snd (iv_calls s ! i)) = Some r" for r
    using ownedD(5) [OF own nth_mem [OF i] that] .
  moreover have "\<not> rq_done (iv_reqs s ! r)" if "snd (iv_calls s ! i) = Sending r" for r
    using that sender_pending [OF own i] ownedD(4) [OF own] by (simp add: sender_def)
  ultimately show ?thesis
    using st i ord
    by (cases "snd (iv_calls s ! i)")
      (auto simp: Invalidate_step_def goto_def set_err_def close_done_def in_order_def
        split: if_splits chan.splits)
qed

lemma Invalidate_step_calls:
  assumes "Invalidate_step i s = Some s'"
  shows "i < length (iv_calls s)" and "length (iv_calls s') = length (iv_calls s)"
    and "k \<noteq> i \<Longrightarrow> iv_calls s' ! k = iv_calls s ! k" and "fst (iv_calls s' ! i) = fst (iv_calls s ! i)"
  using assms
  by (auto simp: Invalidate_step_def goto_def set_err_def close_done_def split: if_splits pc.splits chan.splits)

lemma ordered_Invalidate_step:
  assumes "owned s" and "ordered s" and st: "Invalidate_step i s = Some s'"
  shows "ordered s'"
  unfolding ordered_def
proof
  fix c assume "c \<in> set (iv_calls s')"
  then obtain k where k: "k < length (iv_calls s')" "c = iv_calls s' ! k" by (auto simp: in_set_conv_nth)
  show "in_order s' c"
    using k Invalidate_step_calls [OF st] Invalidate_step_self [OF assms] Invalidate_step_others [OF assms]
    by (cases "k = i") auto
qed

lemma serving_alone:
  assumes own: "owned s" and w: "iv_worker s = Serving r n" and c: "c \<in> set (iv_calls s)"
  shows "snd c \<noteq> Recovering r" and "snd c \<noteq> Recovered r" and "r < length (iv_reqs s)"
proof -
  have cl: "closes s r \<le> 1" "sends s r = 0" "r < length (iv_reqs s)"
    using ownedD(1,2) [OF own, of r] w by (auto simp: closes_def split: if_splits)
  then have "filter (closer r) (iv_calls s) = []" "filter (sender r) (iv_calls s) = []"
    using w by (auto simp: closes_def sends_def)
  with c show "snd c \<noteq> Recovering r" "snd c \<noteq> Recovered r"
    by (auto simp: filter_empty_conv sender_def closer_def)
  show "r < length (iv_reqs s)" by (fact cl(3))
qed

lemma ordered_Run_step:
  assumes own: "owned s" and ok: "chan_ok s" and "ordered s" and st: "Run_step e s = Some s'"
  shows "ordered s'"
  unfolding ordered_def
proof
  fix c assume "c \<in> set (iv_calls s')"
  with st have c: "c \<in> set (iv_calls s)"
    by (auto simp: Run_step_def begin_run_def end_run_def set_err_def close_done_def split: worker.splits if_splits)
  with assms(3) have ord: "in_order s c" by (simp add: ordered_def)
  have le: "fst c \<le> length (iv_runs s)" using ord by (simp add: in_order_def)
  have run: "iv_runs s ! n = None \<Longrightarrow> served s x \<Longrightarrow> served (end_run n e s) x" for n x
    using served_end by blast
  show "in_order s' c"
  proof (cases "iv_worker s")
    case (Serving r n)
    have n: "n < length (iv_runs s)" "iv_runs s ! n = None" using ok Serving by (simp_all add: chan_ok_def)
    note alone = serving_alone [OF own Serving c]
    have s': "s' = (close_done r (set_err r e (end_run n e s)))\<lparr>iv_worker := Selecting\<rparr>"
      using st Serving by (simp add: Run_step_def)
    have srv: "served s' x = served (end_run n e s) x" for x
      unfolding s' close_done_def set_err_def by simp
    have here: "served s' (fst c)" if "pc_req (snd c) = Some r" "e = None"
      using that ord Serving n served_now [of "fst c" n s] by (auto simp: srv in_order_def)
    show ?thesis
    proof (rule in_order_frame [OF ord])
      show "fst c \<le> length (iv_runs s')"
        using le by (simp add: s' close_done_def set_err_def end_run_def)
    qed (use run [OF n(2)] srv alone here in
        \<open>auto simp: s' close_done_def set_err_def end_run_def nth_list_update split: if_splits\<close>)
  qed (use st ok ord le run served_begin [of s] in
      \<open>auto simp: Run_step_def chan_ok_def begin_run_def end_run_def in_order_def split: if_splits\<close>)
qed

section \<open>All reachable states\<close>

definition inv_ok :: "inv_state \<Rightarrow> bool" where
  "inv_ok s \<longleftrightarrow> owned s \<and> chan_ok s \<and> ordered s"

lemma inv_ok_step:
  assumes "inv_ok s" and st: "inv_step l s = Some s'"
  shows "inv_ok s'"
proof -
  have ok: "owned s" "chan_ok s" "ordered s" using assms(1) by (simp_all add: inv_ok_def)
  have "ordered s'"
  proof (cases l)
    case Call
    with st ordered_enter [OF ok(3,1,2)] show ?thesis by simp
  next
    case (CallStep i)
    with st ordered_Invalidate_step ok show ?thesis by simp
  next
    case (Work e)
    with st ordered_Run_step ok show ?thesis by simp
  next
    case Tick
    with st have s': "s' = (begin_run s)\<lparr>iv_worker := Ticking (length (iv_runs s))\<rparr>"
      by (simp add: Run_tick_def split: if_splits)
    have "in_order s' c" if "c \<in> set (iv_calls s)" for c
    proof (rule in_order_frame)
      show ord: "in_order s c" using ok(3) that by (simp add: ordered_def)
      then show "fst c \<le> length (iv_runs s')" by (simp add: s' begin_run_def in_order_def)
      show "served s e \<Longrightarrow> served s' e" for e using served_begin [of s e] by (simp add: s')
    qed (simp_all add: s' begin_run_def)
    then show ?thesis by (simp add: ordered_def s' begin_run_def)
  next
    case ContextDone
    with st have s': "s' = s\<lparr>iv_chan := ClosedChan, iv_worker := Stopped\<rparr>"
      by (simp add: Run_done_def split: if_splits)
    with ok(3) show ?thesis unfolding ordered_def in_order_def by simp
  qed
  with owned_step [OF ok(1) st] chan_ok_step [OF ok(2) st] show ?thesis by (simp add: inv_ok_def)
qed

lemma inv_ok_run: "inv_run ls s = Some s' \<Longrightarrow> inv_ok s \<Longrightarrow> inv_ok s'"
  by (induction ls arbitrary: s) (auto split: option.splits dest: inv_ok_step)

lemma inv_ok_start: "inv_ok inv_start"
  using owned_start by (simp add: inv_ok_def chan_ok_def ordered_def inv_start_def)

lemmas inv_ok_reachable = inv_ok_run [OF _ inv_ok_start]

text \<open>A call keeps its number, the time it was made and, until it returns, its request.\<close>

definition follows :: "nat \<times> pc \<Rightarrow> nat \<times> pc \<Rightarrow> bool" where
  "follows c c' \<longleftrightarrow> fst c' = fst c \<and> (pc_req (snd c') = pc_req (snd c) \<or> pc_req (snd c') = None)"

lemma calls_step:
  assumes "inv_step l s = Some s'" and "i < length (iv_calls s)"
  shows "i < length (iv_calls s') \<and> follows (iv_calls s ! i) (iv_calls s' ! i)"
proof (cases l)
  case (CallStep k)
  with assms(1) have st: "Invalidate_step k s = Some s'" by simp
  have "follows (iv_calls s ! k) (iv_calls s' ! k)"
    using st
    by (auto simp: Invalidate_step_def follows_def goto_def set_err_def close_done_def
        split: if_splits pc.splits chan.splits)
  with Invalidate_step_calls [OF st] assms(2) show ?thesis by (cases "i = k") (auto simp: follows_def)
next
  case (Work e)
  with assms show ?thesis
    by (auto simp: Run_step_def follows_def begin_run_def end_run_def set_err_def close_done_def
        split: worker.splits if_splits)
qed (use assms in \<open>auto simp: Invalidate_enter_def Run_tick_def Run_done_def begin_run_def follows_def Let_def
    nth_append split: option.splits if_splits\<close>)

lemma calls_run:
  "inv_run ls s = Some s' \<Longrightarrow> i < length (iv_calls s) \<Longrightarrow>
   i < length (iv_calls s') \<and> follows (iv_calls s ! i) (iv_calls s' ! i)"
proof (induction ls arbitrary: s)
  case Nil
  then show ?case by (simp add: follows_def)
next
  case (Cons l ls)
  then obtain s1 where "inv_step l s = Some s1" "inv_run ls s1 = Some s'" by (auto split: option.splits)
  with calls_step [OF this(1) Cons.prems(2)] Cons.IH show ?case by (fastforce simp: follows_def)
qed

section \<open>What a caller may rely on\<close>

text \<open>
  C23: an \<open>Invalidate\<close> that returns nil has waited for a refresh that was started after the call was
  made and that has returned without an error, however the callers and the refresher interleave and
  whichever request the call was coalesced with.
\<close>

theorem Invalidate_fresh:
  assumes "inv_run ls inv_start = Some s1" and "inv_run (Call # ls') s1 = Some s2"
    and "snd (iv_calls s2 ! length (iv_calls s1)) = Returned None"
  shows "\<exists>n. length (iv_runs s1) \<le> n \<and> n < length (iv_runs s2) \<and> iv_runs s2 ! n = Some None"
proof -
  let ?i = "length (iv_calls s1)" and ?s = "Invalidate_enter s1"
  have run: "inv_run ls' ?s = Some s2" using assms(2) by simp
  have "?i < length (iv_calls ?s)" "fst (iv_calls ?s ! ?i) = length (iv_runs s1)"
    by (auto simp: Invalidate_enter_def Let_def split: option.splits)
  with calls_run [OF run] have i: "?i < length (iv_calls s2)" "fst (iv_calls s2 ! ?i) = length (iv_runs s1)"
    by (auto simp: follows_def)
  have "inv_ok s2"
    using inv_ok_run [OF assms(2) inv_ok_reachable [OF assms(1)]] .
  with i assms(3) have "served s2 (length (iv_runs s1))"
    by (auto simp: inv_ok_def ordered_def in_order_def dest: nth_mem)
  then show ?thesis by (auto simp: served_def)
qed

text \<open>Bringing a request to its end.\<close>

definition completes :: "nat \<Rightarrow> inv_state \<Rightarrow> bool" where
  "completes r s \<longleftrightarrow> (\<exists>ls s'. inv_run ls s = Some s' \<and> rq_done (iv_reqs s' ! r))"

lemma completes_now: "rq_done (iv_reqs s ! r) \<Longrightarrow> completes r s"
  unfolding completes_def by (intro exI [of _ "[]"]) auto

lemma completes_step: "inv_step l s = Some s' \<Longrightarrow> completes r s' \<Longrightarrow> completes r s"
proof -
  assume st: "inv_step l s = Some s'" and "completes r s'"
  then obtain ls t where "inv_run ls s' = Some t" "rq_done (iv_reqs t ! r)" by (auto simp: completes_def)
  with st show "completes r s" unfolding completes_def by (intro exI [of _ "l # ls"]) auto
qed

lemma completes_Serving:
  assumes "r < length (iv_reqs s)" and "iv_worker s = Serving r n"
  shows "completes r s"
  by (rule completes_step [where l = "Work None"], use assms in \<open>simp add: Run_step_def\<close>, rule completes_now)
    (use assms in \<open>simp add: close_done_def set_err_def end_run_def\<close>)

lemma completes_Cleared:
  assumes "r < length (iv_reqs s)" and "iv_worker s = Cleared r"
  shows "completes r s"
  by (rule completes_step [where l = "Work None"], use assms in \<open>simp add: Run_step_def\<close>, rule completes_Serving)
    (use assms in \<open>simp_all add: begin_run_def\<close>)

lemma completes_Received:
  assumes "r < length (iv_reqs s)" and "iv_worker s = Received r"
  shows "completes r s"
  by (rule completes_step [where l = "Work None"], use assms in \<open>simp add: Run_step_def\<close>, rule completes_Cleared)
    (use assms in simp_all)

lemma completes_handler:
  assumes "i < length (iv_calls s)" and "r < length (iv_reqs s)"
    and "snd (iv_calls s ! i) = Recovering r \<or> snd (iv_calls s ! i) = Recovered r"
  shows "completes r s"
proof -
  have last: "completes r t"
    if "i < length (iv_calls t)" "r < length (iv_reqs t)" "snd (iv_calls t ! i) = Recovered r" for t
    by (rule completes_step [where l = "CallStep i"], use that in \<open>simp add: Invalidate_step_def\<close>, rule completes_now)
      (use that in \<open>simp add: goto_def close_done_def\<close>)
  have "completes r s" if "snd (iv_calls s ! i) = Recovering r"
    by (rule completes_step [where l = "CallStep i"], use that assms in \<open>simp add: Invalidate_step_def\<close>, rule last)
      (use that assms in \<open>simp_all add: goto_def\<close>)
  with last assms show ?thesis by blast
qed

text \<open>The refresher comes back to its select without touching the calls.\<close>

lemma back_to_select:
  assumes "chan_ok s" and "iv_chan s = OpenChan"
  shows "\<exists>ls s'. inv_run ls s = Some s' \<and> iv_worker s' = Selecting \<and> iv_chan s' = OpenChan \<and>
    iv_calls s' = iv_calls s \<and> length (iv_reqs s') = length (iv_reqs s)"
proof -
  have serving: "\<exists>s'. inv_run [Work None] t = Some s' \<and> iv_worker s' = Selecting \<and> iv_chan s' = OpenChan \<and>
      iv_calls s' = iv_calls t \<and> length (iv_reqs s') = length (iv_reqs t)"
    if "iv_worker t = Serving r n \<or> iv_worker t = Ticking n" "iv_chan t = OpenChan" for t r n
    using that by (auto simp: Run_step_def close_done_def set_err_def end_run_def)
  have cleared: "\<exists>s'. inv_run [Work None, Work None] t = Some s' \<and> iv_worker s' = Selecting \<and> iv_chan s' = OpenChan \<and>
      iv_calls s' = iv_calls t \<and> length (iv_reqs s') = length (iv_reqs t)"
    if "iv_worker t = Cleared r" "iv_chan t = OpenChan" for t r
    using that by (auto simp: Run_step_def begin_run_def close_done_def set_err_def end_run_def)
  have received: "\<exists>s'. inv_run [Work None, Work None, Work None] t = Some s' \<and> iv_worker s' = Selecting \<and> iv_chan s' = OpenChan \<and>
      iv_calls s' = iv_calls t \<and> length (iv_reqs s') = length (iv_reqs t)"
    if "iv_worker t = Received r" "iv_chan t = OpenChan" for t r
    using that by (auto simp: Run_step_def begin_run_def close_done_def set_err_def end_run_def)
  have "\<exists>s'. inv_run [] s = Some s' \<and> iv_worker s' = Selecting \<and> iv_chan s' = OpenChan \<and>
      iv_calls s' = iv_calls s \<and> length (iv_reqs s') = length (iv_reqs s)" if "iv_worker s = Selecting"
    using that assms by simp
  with assms serving cleared received show ?thesis
    by (cases "iv_worker s") (blast | simp add: chan_ok_def)+
qed

lemma completes_Sending:
  assumes ok: "chan_ok s" and i: "i < length (iv_calls s)" and r: "r < length (iv_reqs s)"
    and s: "snd (iv_calls s ! i) = Sending r" and "iv_chan s \<noteq> NilChan"
  shows "completes r s"
proof (cases "iv_chan s")
  case ClosedChan
  show ?thesis
    by (rule completes_step [where l = "CallStep i"], use i s ClosedChan in \<open>simp add: Invalidate_step_def\<close>,
        rule completes_handler [where i = i])
      (use i r in \<open>simp_all add: goto_def set_err_def\<close>)
next
  case OpenChan
  from back_to_select [OF ok OpenChan] obtain ls t where t: "inv_run ls s = Some t" "iv_worker t = Selecting"
    "iv_chan t = OpenChan" "iv_calls t = iv_calls s" "length (iv_reqs t) = length (iv_reqs s)" by blast
  have "completes r t"
    by (rule completes_step [where l = "CallStep i"], use i s t in \<open>simp add: Invalidate_step_def\<close>,
        rule completes_Received)
      (use r t in \<open>simp_all add: goto_def\<close>)
  then obtain ls' t' where "inv_run ls' t = Some t'" "rq_done (iv_reqs t' ! r)" by (auto simp: completes_def)
  with t(1) show ?thesis
    unfolding completes_def by (intro exI [of _ "ls @ ls'"]) (auto simp: inv_run_append)
qed (use assms in simp)

text \<open>
  An open request of a cache that runs or has been shut down can be brought to its end, unless its
  sender found no channel.
\<close>

lemma completes_open:
  assumes "inv_ok s" and "iv_chan s \<noteq> NilChan" and nil: "\<And>c. c \<in> set (iv_calls s) \<Longrightarrow> snd c \<noteq> SendingNil r"
    and r: "r < length (iv_reqs s)"
  shows "completes r s"
proof -
  have own: "owned s" and ok: "chan_ok s" using assms(1) by (simp_all add: inv_ok_def)
  consider "rq_done (iv_reqs s ! r)" | "0 < sends s r" | "0 < closes s r"
    using ownedD(1,2) [OF own, of r] r by (auto split: if_splits)
  then show ?thesis
  proof cases
    case 1
    then show ?thesis by (rule completes_now)
  next
    case 2
    then consider "iv_worker s = Received r" | i where "i < length (iv_calls s)" "sender r (iv_calls s ! i)"
      by (auto simp: sends_def filter_empty_conv in_set_conv_nth split: if_splits)
    then show ?thesis
    proof cases
      case 1
      then show ?thesis by (rule completes_Received [OF r])
    next
      case 2
      then have "snd (iv_calls s ! i) \<noteq> SendingNil r" using nil nth_mem by blast
      moreover have "completes r s" if "snd (iv_calls s ! i) = AtSend r"
        by (rule completes_step [where l = "CallStep i"], use that 2 in \<open>simp add: Invalidate_step_def\<close>,
            rule completes_Sending [where i = i])
          (use that 2 r ok assms(2) in \<open>auto simp: goto_def intro: chan_ok_frame [OF ok]\<close>)
      ultimately show ?thesis
        using 2 completes_Sending [OF ok 2(1) r _ assms(2)] completes_handler [OF 2(1) r]
        by (auto simp: sender_def)
    qed
  next
    case 3
    then consider n where "iv_worker s = Cleared r \<or> iv_worker s = Serving r n"
      | i where "i < length (iv_calls s)" "closer r (iv_calls s ! i)"
      by (auto simp: closes_def filter_empty_conv in_set_conv_nth split: if_splits worker.splits)
    then show ?thesis
    proof cases
      case (1 n)
      with completes_Cleared [OF r] completes_Serving [OF r] show ?thesis by blast
    next
      case 2
      then show ?thesis using completes_handler [OF 2(1) r] by (simp add: closer_def)
    qed
  qed
qed

text \<open>
  C24: whatever has happened, a call that is under way can still return, as long as \<open>Run\<close> has made the
  channel and no caller has run into the missing one: while the cache runs the refresher serves it, and
  after a shutdown the recovered panic of the sender does.  No channel is ever closed twice.
\<close>

theorem Invalidate_can_return:
  assumes "inv_run ls inv_start = Some s" and "i < length (iv_calls s)" and "iv_chan s \<noteq> NilChan"
    and "\<forall>c \<in> set (iv_calls s). \<forall>r. snd c \<noteq> SendingNil r"
  shows "\<not> iv_panicked s \<and> (\<exists>ls' s' e. inv_run ls' s = Some s' \<and> snd (iv_calls s' ! i) = Returned e)"
proof -
  have ok: "inv_ok s" by (rule inv_ok_reachable [OF assms(1)])
  then have own: "owned s" by (simp add: inv_ok_def)
  have "\<exists>ls' s' e. inv_run ls' s = Some s' \<and> snd (iv_calls s' ! i) = Returned e"
  proof (cases "pc_req (snd (iv_calls s ! i))")
    case None
    then obtain e where "snd (iv_calls s ! i) = Returned e" by (cases "snd (iv_calls s ! i)") auto
    then show ?thesis by (intro exI [of _ "[]"]) auto
  next
    case (Some r)
    have r: "r < length (iv_reqs s)" using ownedD(5) [OF own nth_mem [OF assms(2)] Some] .
    have "completes r s" using completes_open [OF ok assms(3) _ r] assms(4) by blast
    then obtain ls1 t where t: "inv_run ls1 s = Some t" "rq_done (iv_reqs t ! r)" by (auto simp: completes_def)
    have ownt: "owned t" using inv_ok_run [OF t(1) ok] by (simp add: inv_ok_def)
    have it: "i < length (iv_calls t)" "follows (iv_calls s ! i) (iv_calls t ! i)"
      using calls_run [OF t(1) assms(2)] by auto
    have "\<not> sender r (iv_calls t ! i)" "\<not> closer r (iv_calls t ! i)"
      using sender_pending [OF ownt it(1)] ownedD(4) [OF ownt] closer_open(2) [OF ownt it(1)] t(2) by blast+
    with it(2) Some have "snd (iv_calls t ! i) = Waiting r \<or> (\<exists>e. snd (iv_calls t ! i) = Returned e)"
      by (cases "snd (iv_calls t ! i)") (auto simp: follows_def sender_def closer_def)
    then show ?thesis
    proof (elim disjE exE)
      assume "snd (iv_calls t ! i) = Waiting r"
      with t(2) it(1) have "inv_run [CallStep i] t = Some (goto i (Returned (rq_err (iv_reqs t ! r))) t)"
        by (simp add: Invalidate_step_def)
      with t(1) it(1) show ?thesis
        by (intro exI [of _ "ls1 @ [CallStep i]"] exI) (auto simp: inv_run_append goto_def)
    qed (use t(1) in blast)
  qed
  with ownedD(6) [OF own] show ?thesis by simp
qed

text \<open>
  The comment in \<open>sendInvalidation\<close> says that callers block until \<open>Run\<close> initialises the channel.
  They block for ever, and every later caller joins the request that is never sent.
\<close>

lemma nil_channel_hangs:
  assumes "inv_run ls inv_start = Some s" and "c \<in> set (iv_calls s)" and "snd c = SendingNil r"
    and "inv_run ls' s = Some s'"
  shows "iv_pending s' = Some r \<and> \<not> rq_done (iv_reqs s' ! r) \<and>
    (\<forall>j. length (iv_calls s) \<le> j \<longrightarrow> j < length (iv_calls s') \<longrightarrow> snd (iv_calls s' ! j) = Waiting r)"
proof -
  let ?k = "length (iv_calls s)"
  let ?hung = "\<lambda>t. (\<exists>i < length (iv_calls t). snd (iv_calls t ! i) = SendingNil r) \<and>
      (\<forall>j. ?k \<le> j \<longrightarrow> j < length (iv_calls t) \<longrightarrow> snd (iv_calls t ! j) = Waiting r)"
  have pend: "iv_pending t = Some r" "\<not> rq_done (iv_reqs t ! r)" if "owned t" "?hung t" for t
    using that sender_pending ownedD(4) by (auto simp: sender_def)
  have step: "?hung t'" if t: "owned t" "?hung t" and st: "inv_step l t = Some t'" for l t t'
  proof (cases l)
    case Call
    with st pend [OF t] t(2) show ?thesis
      by (auto simp: Invalidate_enter_def Let_def nth_append less_Suc_eq split: option.splits)
  next
    case (CallStep i)
    with st have sti: "Invalidate_step i t = Some t'" by simp
    then have no: "snd (iv_calls t ! i) \<noteq> SendingNil r" "snd (iv_calls t ! i) \<noteq> Waiting r"
      using pend [OF t] by (auto simp: Invalidate_step_def split: if_splits)
    note calls = Invalidate_step_calls [OF sti]
    from t(2) obtain n where "n < length (iv_calls t)" "snd (iv_calls t ! n) = SendingNil r" by blast
    with calls no have "n < length (iv_calls t') \<and> snd (iv_calls t' ! n) = SendingNil r" by metis
    moreover have "snd (iv_calls t' ! j) = Waiting r" if "?k \<le> j" "j < length (iv_calls t')" for j
      using that t(2) calls no by metis
    ultimately show ?thesis by blast
  next
    case (Work e)
    with st t(2) show ?thesis
      by (auto simp: Run_step_def begin_run_def end_run_def set_err_def close_done_def split: worker.splits if_splits)
  qed (use st t(2) in \<open>auto simp: Run_tick_def Run_done_def begin_run_def split: if_splits\<close>)
  have "owned t' \<and> ?hung t'" if "inv_run ms t = Some t'" "owned t" "?hung t" for ms t t'
    using that
  proof (induction ms arbitrary: t)
    case (Cons l ms)
    then obtain t1 where t1: "inv_step l t = Some t1" "inv_run ms t1 = Some t'" by (auto split: option.splits)
    from Cons.IH [OF t1(2) owned_step [OF Cons.prems(2) t1(1)] step [OF Cons.prems(2,3) t1(1)]] show ?case .
  qed simp
  moreover have "owned s" using inv_ok_reachable [OF assms(1)] by (simp add: inv_ok_def)
  moreover have "?hung s" using assms(2,3) by (auto simp: in_set_conv_nth)
  ultimately have "owned s'" "?hung s'" using assms(4) by blast+
  with pend show ?thesis by blast
qed

section \<open>Runs\<close>

lemmas inv_eval = inv_start_def Invalidate_enter_def Invalidate_step_def Run_step_def Run_done_def Run_tick_def
  begin_run_def end_run_def set_err_def close_done_def goto_def Let_def

theorem Invalidate_fresh_witness:
  "\<exists>s1 s2 n. inv_run [Work None, Work None] inv_start = Some s1 \<and>
     inv_run [Call, CallStep 0, CallStep 0, Work None, Work None, Work None, CallStep 0] s1 = Some s2 \<and>
     length (iv_runs s1) \<le> n \<and> n < length (iv_runs s2) \<and> iv_runs s2 ! n = Some None"
proof -
  obtain s1 where s1: "inv_run [Work None, Work None] inv_start = Some s1" "length (iv_calls s1) = 0"
    by (simp add: inv_eval)
  from s1(1) obtain s2 where
    s2: "inv_run [Call, CallStep 0, CallStep 0, Work None, Work None, Work None, CallStep 0] s1 = Some s2"
      "snd (iv_calls s2 ! 0) = Returned None"
    by (fastforce simp: inv_eval)
  from Invalidate_fresh [OF s1(1) s2(1)] s1 s2 show ?thesis by auto
qed

theorem Invalidate_can_return_witness:
  "\<exists>s ls' s' e. inv_run [Work None, Work None, Call, CallStep 0, ContextDone] inv_start = Some s \<and>
     \<not> iv_panicked s \<and> inv_run ls' s = Some s' \<and> snd (iv_calls s' ! 0) = Returned e"
proof -
  obtain s where s: "inv_run [Work None, Work None, Call, CallStep 0, ContextDone] inv_start = Some s"
    "0 < length (iv_calls s)" "iv_chan s \<noteq> NilChan" "\<forall>c \<in> set (iv_calls s). \<forall>r. snd c \<noteq> SendingNil r"
    by (simp add: inv_eval)
  from Invalidate_can_return [OF this] s(1) show ?thesis by blast
qed

end
