(* ===== verification/Http.thy ===== *)
theory Http
  imports Go_Errors Go_Stdlib "HOL-Library.Char_ord" "HOL-Library.List_Lexorder"
begin

text \<open>
  What the servers and middlewares use of \<open>net/http\<close>, \<open>fmt\<close> and \<open>strconv\<close>: headers with canonical
  keys, the response writer, the formatting of operands and the reading of numbers.  Strings are ordered byte by byte, as Go orders
  them.
\<close>

section \<open>Headers\<close>

type_synonym header = "(string, string list) fmap"

definition is_upper :: "char \<Rightarrow> bool" where "is_upper c \<longleftrightarrow> CHR ''A'' \<le> c \<and> c \<le> CHR ''Z''"
definition is_lower :: "char \<Rightarrow> bool" where "is_lower c \<longleftrightarrow> CHR ''a'' \<le> c \<and> c \<le> CHR ''z''"

definition to_lower :: "char \<Rightarrow> char" where
  "to_lower c = (if is_upper c then char_of (of_char c + 32 :: nat) else c)"
definition to_upper :: "char \<Rightarrow> char" where
  "to_upper c = (if is_lower c then char_of (of_char c - 32 :: nat) else c)"

text \<open>The characters of a header field name.\<close>

definition token_char :: "char \<Rightarrow> bool" where
  "token_char c \<longleftrightarrow>
     is_upper c \<or> is_lower c \<or> (CHR ''0'' \<le> c \<and> c \<le> CHR ''9'') \<or>
     c \<in> set [CHR ''!'', CHR ''#'', CHR ''$'', CHR ''%'', CHR ''&'', CHR 0x27, CHR ''*'', CHR ''+'', CHR ''-'',
       CHR ''.'', CHR ''^'', CHR ''_'', CHR 0x60, CHR ''|'', CHR ''~'']"

fun canonical_from :: "bool \<Rightarrow> string \<Rightarrow> string" where
  "canonical_from up [] = []"
| "canonical_from up (c # cs) =
     (if up then to_upper c else to_lower c) # canonical_from (c = CHR ''-'') cs"

definition CanonicalHeaderKey :: "string \<Rightarrow> string" where
  "CanonicalHeaderKey k = (if list_all token_char k then canonical_from True k else k)"

definition header_values :: "header \<Rightarrow> string \<Rightarrow> string list" where
  "header_values h k = (case fmlookup h (CanonicalHeaderKey k) of None \<Rightarrow> [] | Some vs \<Rightarrow> vs)"

definition header_Get :: "header \<Rightarrow> string \<Rightarrow> string" where
  "header_Get h k = (case header_values h k of [] \<Rightarrow> '''' | v # _ \<Rightarrow> v)"

definition header_Set :: "string \<Rightarrow> string \<Rightarrow> header \<Rightarrow> header" where
  "header_Set k v h = fmupd (CanonicalHeaderKey k) [v] h"

definition header_Add :: "string \<Rightarrow> string \<Rightarrow> header \<Rightarrow> header" where
  "header_Add k v h = fmupd (CanonicalHeaderKey k) (header_values h k @ [v]) h"

lemma header_values_Add [hdr_simps]:
  "header_values (header_Add k v h) k' =
     (if CanonicalHeaderKey k' = CanonicalHeaderKey k then header_values h k @ [v] else header_values h k')"
  by (auto simp: header_values_def header_Add_def)

lemma header_Get_Set [hdr_simps]:
  "header_Get (header_Set k v h) k' =
     (if CanonicalHeaderKey k' = CanonicalHeaderKey k then v else header_Get h k')"
  by (auto simp: header_Get_def header_values_def header_Set_def)

section \<open>The response writer\<close>

text \<open>
  The status line and the headers go out with the first \<open>WriteHeader\<close>, or with the first write of
  the body; what is added to the header after that is not sent.
\<close>

record 'b response =
  rs_header :: header
  rs_sent :: "(nat \<times> header) option"
  rs_body :: "'b list"

definition fresh_response :: "'b response" where
  "fresh_response = \<lparr>rs_header = fmempty, rs_sent = None, rs_body = []\<rparr>"

definition WriteHeader :: "nat \<Rightarrow> 'b response \<Rightarrow> 'b response" where
  "WriteHeader status rs = (if rs_sent rs = None then rs\<lparr>rs_sent := Some (status, rs_header rs)\<rparr> else rs)"

definition WriteBody :: "'b \<Rightarrow> 'b response \<Rightarrow> 'b response" where
  "WriteBody b rs = (let rs = WriteHeader 200 rs in rs\<lparr>rs_body := rs_body rs @ [b]\<rparr>)"

definition AddHeader :: "string \<Rightarrow> string \<Rightarrow> 'b response \<Rightarrow> 'b response" where
  "AddHeader k v rs = rs\<lparr>rs_header := header_Add k v (rs_header rs)\<rparr>"

section \<open>Formatting\<close>

text \<open>
  An operand of \<open>fmt.Sprint\<close> and its kin: a string, or something else with its rendering.
  \<open>Sprintln\<close> always separates operands by spaces, \<open>Sprint\<close> only where neither is a string.
\<close>

datatype operand = Text string | Value string

fun operand_text :: "operand \<Rightarrow> string" where
  "operand_text (Text s) = s"
| "operand_text (Value s) = s"

definition Sprintln :: "operand list \<Rightarrow> string" where
  "Sprintln a = str_join '' '' (map operand_text a) @ [CHR 0x0A]"

fun Sprint :: "operand list \<Rightarrow> string" where
  "Sprint [] = ''''"
| "Sprint [a] = operand_text a"
| "Sprint (Value s # Value t # as) = s @ '' '' @ Sprint (Value t # as)"
| "Sprint (Text s # a # as) = s @ Sprint (a # as)"
| "Sprint (Value s # Text t # as) = s @ Sprint (Text t # as)"

definition TrimSuffix :: "string \<Rightarrow> string \<Rightarrow> string" where
  "TrimSuffix s suf =
     (if length suf \<le> length s \<and> drop (length s - length suf) s = suf then take (length s - length suf) s else s)"

lemma TrimSuffix_append [simp]: "TrimSuffix (s @ suf) suf = s"
  by (simp add: TrimSuffix_def)

section \<open>Reading numbers\<close>

text \<open>\<open>strconv.Atoi\<close>: an optional sign and decimal digits, in the range of a 64-bit integer.\<close>

fun digits_value :: "nat \<Rightarrow> string \<Rightarrow> nat option" where
  "digits_value n [] = Some n"
| "digits_value n (c # cs) =
     (if CHR ''0'' \<le> c \<and> c \<le> CHR ''9'' then digits_value (10 * n + (of_char c - 48)) cs else None)"

definition unsigned_value :: "string \<Rightarrow> nat option" where
  "unsigned_value s = (if s = '''' then None else digits_value 0 s)"

definition Atoi :: "string \<Rightarrow> int option" where
  "Atoi s =
     (let v = (case s of
                 CHR ''-'' # ds \<Rightarrow> map_option (\<lambda>n. - int n) (unsigned_value ds)
               | CHR ''+'' # ds \<Rightarrow> map_option int (unsigned_value ds)
               | _ \<Rightarrow> map_option int (unsigned_value s))
      in case v of None \<Rightarrow> None | Some i \<Rightarrow> if - (2 ^ 63) \<le> i \<and> i < 2 ^ 63 then Some i else None)"

end
