(* ===== verification/Server_Errors.thy ===== *)
theory Server_Errors
  imports Http
begin

text \<open>
  The HTTP errors of the servers (\<open>pkg/server/errors/errors.go\<close>): their constructors and tests, how one
  is written to a client and logged, the \<open>WWW-Authenticate\<close> header, and how an error of another service
  is propagated.  The error value itself is the constructor \<open>HTTPError\<close> of \<open>Go_Errors\<close>.  The body of a
  response is kept as the structure that is marshalled.
\<close>

section \<open>Codes (pkg/openapi/types.go)\<close>

definition CodeAccessDenied :: string where "CodeAccessDenied = ''access_denied''"
definition CodeConflict :: string where "CodeConflict = ''conflict''"
definition CodeForbidden :: string where "CodeForbidden = ''forbidden''"
definition CodeInvalidRequest :: string where "CodeInvalidRequest = ''invalid_request''"
definition CodeMethodNotAllowed :: string where "CodeMethodNotAllowed = ''method_not_allowed''"
definition CodeNotFound :: string where "CodeNotFound = ''not_found''"
definition CodeRequestEntityTooLarge :: string where "CodeRequestEntityTooLarge = ''request_entity_too_large''"
definition CodeServerError :: string where "CodeServerError = ''server_error''"
definition CodeUnprocessableContent :: string where "CodeUnprocessableContent = ''unprocessable_content''"

text \<open>\<open>openapi.Error\<close>; the trace identifier is a pointer.\<close>

record api_error =
  ae_error :: string
  ae_description :: string
  ae_traceId :: "string option"

text \<open>What is written to a body: such an error, or the bytes of a handler.\<close>

datatype body_part = ErrorBody api_error | Payload string

section \<open>Making errors\<close>

definition AuthenticateHeader :: string where "AuthenticateHeader = ''WWW-Authenticate''"

definition http_newError :: "nat \<Rightarrow> string \<Rightarrow> operand list \<Rightarrow> gerror" where
  "http_newError status code a =
     HTTPError status code (TrimSuffix (Sprintln a) [CHR 0x0A]) fmempty None []"

text \<open>The setters are methods of \<open>*Error\<close>: other errors have no such fields.\<close>

fun WithError :: "gerror \<Rightarrow> gerror option \<Rightarrow> gerror" where
  "WithError (HTTPError st c d h eo vs) err = HTTPError st c d h err vs"
| "WithError e err = e"

fun WithValues :: "gerror \<Rightarrow> string list \<Rightarrow> gerror" where
  "WithValues (HTTPError st c d h eo vs) values = HTTPError st c d h eo values"
| "WithValues e values = e"

fun withHeader :: "gerror \<Rightarrow> string \<Rightarrow> string \<Rightarrow> gerror" where
  "withHeader (HTTPError st c d h eo vs) key v = HTTPError st c d (header_Set key v h) eo vs"
| "withHeader e key v = e"

definition FromOpenAPIError :: "nat \<Rightarrow> header \<Rightarrow> api_error \<Rightarrow> gerror" where
  "FromOpenAPIError code header err = http_newError code (ae_error err) [Text (ae_description err)]"

definition HTTPForbidden :: "operand list \<Rightarrow> gerror" where
  "HTTPForbidden a = http_newError 403 CodeForbidden a"
definition HTTPNotFound :: gerror where
  "HTTPNotFound = http_newError 404 CodeNotFound [Text ''resource not found'']"
definition HTTPMethodNotAllowed :: gerror where
  "HTTPMethodNotAllowed = http_newError 405 CodeMethodNotAllowed [Text ''the requested method was not allowed'']"
definition HTTPConflict :: gerror where
  "HTTPConflict = http_newError 409 CodeConflict [Text ''the requested resource already exists'']"
definition HTTPRequestEntityTooLarge :: "operand list \<Rightarrow> gerror" where
  "HTTPRequestEntityTooLarge a = http_newError 413 CodeRequestEntityTooLarge a"
definition HTTPUnprocessableContent :: "operand list \<Rightarrow> gerror" where
  "HTTPUnprocessableContent a = http_newError 422 CodeUnprocessableContent a"
definition OAuth2InvalidRequest :: "operand list \<Rightarrow> gerror" where
  "OAuth2InvalidRequest a = http_newError 400 CodeInvalidRequest a"
definition OAuth2AccessDenied :: "operand list \<Rightarrow> gerror" where
  "OAuth2AccessDenied a = http_newError 401 CodeAccessDenied a"

section \<open>Testing errors\<close>

definition asError :: "gerror \<Rightarrow> gerror option" where
  "asError err = errors_As_http err"

definition isErrorType :: "gerror \<Rightarrow> nat \<Rightarrow> bool" where
  "isErrorType err code =
     (case asError err of Some (HTTPError st c d h eo vs) \<Rightarrow> st = code | _ \<Rightarrow> False)"

definition IsForbidden :: "gerror \<Rightarrow> bool" where "IsForbidden err = isErrorType err 403"
definition IsHTTPNotFound :: "gerror \<Rightarrow> bool" where "IsHTTPNotFound err = isErrorType err 404"
definition IsMethodNotAllowed :: "gerror \<Rightarrow> bool" where "IsMethodNotAllowed err = isErrorType err 405"
definition IsHTTPConflict :: "gerror \<Rightarrow> bool" where "IsHTTPConflict err = isErrorType err 409"
definition IsRequestEntityTooLarge :: "gerror \<Rightarrow> bool" where "IsRequestEntityTooLarge err = isErrorType err 413"
definition IsUnprocessableContent :: "gerror \<Rightarrow> bool" where "IsUnprocessableContent err = isErrorType err 422"
definition IsBadRequest :: "gerror \<Rightarrow> bool" where "IsBadRequest err = isErrorType err 400"
definition IsAccessDenied :: "gerror \<Rightarrow> bool" where "IsAccessDenied err = isErrorType err 401"

section \<open>The authentication header\<close>

type_synonym challenges = "(string, smap) fmap"

definition NewWWWAuthenticateHeader :: challenges where "NewWWWAuthenticateHeader = fmempty"

definition AddField :: "string \<Rightarrow> string \<Rightarrow> string \<Rightarrow> challenges \<Rightarrow> challenges" where
  "AddField challenge key v w =
     fmupd challenge (fmupd key v (case fmlookup w challenge of None \<Rightarrow> fmempty | Some m \<Rightarrow> m)) w"

text \<open>
  \<open>maps.Keys\<close> yields the keys in the order of some walk; \<open>walk\<close> and \<open>walks\<close> are the orders for the
  challenges and for the fields of one.
\<close>

definition encode_fields :: "(smap \<Rightarrow> (string \<times> string) list) \<Rightarrow> smap \<Rightarrow> string" where
  "encode_fields walks fs =
     str_join '','' (map (\<lambda>key. key @ ''='' @ [CHR 0x22] @ str_at fs key @ [CHR 0x22])
       (sort (map fst (walks fs))))"

definition Encode ::
    "(challenges \<Rightarrow> (string \<times> smap) list) \<Rightarrow> (smap \<Rightarrow> (string \<times> string) list) \<Rightarrow> challenges \<Rightarrow> string" where
  "Encode walk walks w =
     str_join '', '' (map (\<lambda>challenge. challenge @ '' '' @
         encode_fields walks (case fmlookup w challenge of None \<Rightarrow> fmempty | Some m \<Rightarrow> m))
       (sort (map fst (walk w))))"

definition AccessDenied ::
    "(challenges \<Rightarrow> (string \<times> smap) list) \<Rightarrow> (smap \<Rightarrow> (string \<times> string) list) \<Rightarrow> string \<Rightarrow> operand list \<Rightarrow> gerror" where
  "AccessDenied walk walks host a =
     (let header = AddField ''Bearer'' ''error'' CodeAccessDenied NewWWWAuthenticateHeader;
          header = AddField ''Bearer'' ''error_description'' (Sprint a) header;
          header = AddField ''Bearer'' ''resource_metadata''
                     (''https://'' @ host @ ''/.well-known/openid-protected-resource'') header
      in withHeader (http_newError 401 CodeAccessDenied a) AuthenticateHeader (Encode walk walks header))"

section \<open>Writing an error\<close>

text \<open>
  The log line carries the detail that is not for the client.  \<open>walk\<close> is the order in which the
  propagated headers are visited, \<open>trace\<close> the trace identifier of the request.  The fields marshal
  without an error; an error of the connection is only logged.
\<close>

definition propagate :: "(string \<times> string list) list \<Rightarrow> 'b response \<Rightarrow> 'b response" where
  "propagate kvs rs = foldl (\<lambda>rs kv. foldl (\<lambda>rs v. AddHeader (fst kv) v rs) rs (snd kv)) rs kvs"

definition error_log :: "string \<Rightarrow> gerror option \<Rightarrow> string list \<Rightarrow> string list" where
  "error_log description err values =
     (if description \<noteq> '''' then [''detail'', description] else []) @
     (case err of None \<Rightarrow> [] | Some e \<Rightarrow> [''error'', error_text e]) @ values"

definition Error_Write ::
    "(header \<Rightarrow> (string \<times> string list) list) \<Rightarrow> string \<Rightarrow> nat \<Rightarrow> string \<Rightarrow> string \<Rightarrow> header \<Rightarrow> gerror option \<Rightarrow>
     string list \<Rightarrow> body_part response \<Rightarrow> string list \<times> body_part response" where
  "Error_Write walk trace status code description header err values rs =
     (error_log description err values,
      WriteBody (ErrorBody \<lparr>ae_error = code, ae_description = description,
                            ae_traceId = (if trace \<noteq> '''' then Some trace else None)\<rparr>)
        (WriteHeader status
          (propagate (walk header)
            (AddHeader ''Content-Type'' ''application/json'' (AddHeader ''Cache-Control'' ''no-cache'' rs)))))"

definition HandleError ::
    "(header \<Rightarrow> (string \<times> string list) list) \<Rightarrow> string \<Rightarrow> gerror \<Rightarrow> body_part response \<Rightarrow>
     string list \<times> body_part response" where
  "HandleError walk trace err rs =
     (case asError err of
        Some (HTTPError st c d h eo vs) \<Rightarrow> Error_Write walk trace st c d h eo vs rs
      | _ \<Rightarrow>
          (case WithError (http_newError 500 CodeServerError
                  [Text ''an internal error has occurred, please contact support'']) (Some err) of
             HTTPError st c d h eo vs \<Rightarrow> Error_Write walk trace st c d h eo vs rs
           | _ \<Rightarrow> ([], rs)))"

section \<open>Propagating an error\<close>

text \<open>
  What reflection sees of a generated response: a struct with named fields, a pointer, or something
  else.  A field is a pointer to an \<open>openapi.Error\<close>, or of another type, zero or not; it may have been
  reached through something unexported.
\<close>

datatype rfield = ErrorField "api_error option" | OpaqueField bool | HiddenField bool

datatype rvalue = RStruct "(string, rfield) fmap" | RPointer "rvalue option" | ROther

definition conversion_error :: "string \<Rightarrow> gerror" where
  "conversion_error s = Wrapf '''' (Sentinel ErrTypeConversion) ('': '' @ s)"

definition error_field :: "nat \<Rightarrow> header \<Rightarrow> string \<Rightarrow> rfield option \<Rightarrow> gerror" where
  "error_field status header name f =
     (case f of
        None \<Rightarrow> conversion_error (''error field '' @ name @ '' not defined'')
      | Some (ErrorField None) \<Rightarrow> conversion_error (''error field '' @ name @ '' not populated'')
      | Some (OpaqueField True) \<Rightarrow> conversion_error (''error field '' @ name @ '' not populated'')
      | Some (HiddenField True) \<Rightarrow> conversion_error (''error field '' @ name @ '' not populated'')
      | Some (HiddenField False) \<Rightarrow> conversion_error (''error field '' @ name @ '' not interfaceable'')
      | Some (OpaqueField False) \<Rightarrow> conversion_error ''unable to assert error''
      | Some (ErrorField (Some e)) \<Rightarrow> FromOpenAPIError status header e)"

definition deref_once :: "rvalue \<Rightarrow> rvalue" where
  "deref_once v = (case v of RPointer (Some u) \<Rightarrow> u | RPointer None \<Rightarrow> ROther | _ \<Rightarrow> v)"

definition PropagateError :: "nat \<Rightarrow> header \<Rightarrow> rvalue \<Rightarrow> gerror" where
  "PropagateError status header response =
     (if status < 400
      then Wrapf '''' (Sentinel ErrAPIStatus) ('': status code '' @ show_nat status @ '' not valid'')
      else (case deref_once response of
              RStruct fs \<Rightarrow>
                error_field status header (''JSON'' @ show_nat status) (fmlookup fs (''JSON'' @ show_nat status))
            | _ \<Rightarrow> conversion_error ''error response is not a struct''))"

section \<open>Constructors and tests agree\<close>

lemma http_newError_simp [simp]:
  "http_newError st c a = HTTPError st c (str_join '' '' (map operand_text a)) fmempty None []"
  by (simp add: http_newError_def Sprintln_def)

lemmas http_constructors [err_simps] =
  HTTPForbidden_def HTTPNotFound_def HTTPMethodNotAllowed_def HTTPConflict_def HTTPRequestEntityTooLarge_def
  HTTPUnprocessableContent_def OAuth2InvalidRequest_def OAuth2AccessDenied_def AccessDenied_def Let_def

lemmas http_tests [err_simps] =
  IsForbidden_def IsHTTPNotFound_def IsMethodNotAllowed_def IsHTTPConflict_def IsRequestEntityTooLarge_def
  IsUnprocessableContent_def IsBadRequest_def IsAccessDenied_def isErrorType_def asError_def

text \<open>
  Through any layers of wrapping, each test recognises the errors of its own constructor and no
  others: the status a caller branches on is the status that was raised.
\<close>

theorem error_tests_exact:
  "(isErrorType (wraps layers (http_newError status code a)) n \<longleftrightarrow> n = status) \<and>
   IsForbidden (wraps layers (HTTPForbidden a)) \<and> IsHTTPNotFound (wraps layers HTTPNotFound) \<and>
   IsMethodNotAllowed (wraps layers HTTPMethodNotAllowed) \<and> IsHTTPConflict (wraps layers HTTPConflict) \<and>
   IsRequestEntityTooLarge (wraps layers (HTTPRequestEntityTooLarge a)) \<and>
   IsUnprocessableContent (wraps layers (HTTPUnprocessableContent a)) \<and>
   IsBadRequest (wraps layers (OAuth2InvalidRequest a)) \<and>
   IsAccessDenied (wraps layers (OAuth2AccessDenied a)) \<and>
   IsAccessDenied (wraps layers (AccessDenied walk walks host a))"
  by (auto simp: err_simps)

section \<open>The header is deterministic\<close>

text \<open>
  The encoding of a \<open>WWW-Authenticate\<close> header does not depend on the order in which the maps are
  walked, so the same error always goes out with the same header.
\<close>

theorem Encode_deterministic:
  assumes "walk_of w (walk w)" and "walk_of w (walk' w)"
    and "\<forall>c fs. fmlookup w c = Some fs \<longrightarrow> walk_of fs (walks fs) \<and> walk_of fs (walks' fs)"
  shows "Encode walk walks w = Encode walk' walks' w"
proof -
  have fs: "encode_fields walks fs = encode_fields walks' fs" if "fmlookup w c = Some fs" for c fs
    using assms(3) that sorted_keys_walk [of fs "walks fs" "walks' fs"] by (simp add: encode_fields_def)
  have "encode_fields walks (case fmlookup w c of None \<Rightarrow> fmempty | Some m \<Rightarrow> m) =
      encode_fields walks' (case fmlookup w c of None \<Rightarrow> fmempty | Some m \<Rightarrow> m)"
    if c: "c \<in> set (sort (map fst (walk w)))" for c
  proof -
    from c walk_of_keys [OF assms(1)] obtain m where "fmlookup w c = Some m" by (metis fmlookup_dom'_iff set_sort)
    with fs show ?thesis by simp
  qed
  then have "Encode walk walks w = Encode walk walks' w"
    by (auto simp: Encode_def intro!: arg_cong [where f = "str_join _"] map_cong)
  with sorted_keys_walk [OF assms(1,2)] show ?thesis by (simp add: Encode_def)
qed

section \<open>What reaches a client\<close>

text \<open>
  C29: the text of an error that is not an HTTP error, and the library error and the values attached to
  one, never reach the client: the response is a function of status, code, description and headers alone,
  and for any other error a fixed answer with status 500.  The log line does carry the error.
\<close>

theorem HandleError_no_leak:
  "(asError err = None \<longrightarrow>
      snd (HandleError walk trace err rs) =
        snd (Error_Write walk trace 500 ''server_error'' ''an internal error has occurred, please contact support''
          fmempty None [] rs) \<and>
      error_text err \<in> set (fst (HandleError walk trace err rs))) \<and>
   (asError err = Some (HTTPError st c d h eo vs) \<longrightarrow>
      snd (HandleError walk trace err rs) = snd (Error_Write walk trace st c d h None [] rs))"
  by (auto simp: HandleError_def Error_Write_def error_log_def CodeServerError_def)

lemma propagate_frame [simp]:
  "rs_sent (propagate kvs rs) = rs_sent rs" "rs_body (propagate kvs rs) = rs_body rs"
proof -
  have inner: "rs_sent (foldl (\<lambda>rs v. AddHeader k v rs) rs vs) = rs_sent rs \<and>
      rs_body (foldl (\<lambda>rs v. AddHeader k v rs) rs vs) = rs_body rs" for k vs and rs :: "'a response"
    by (induction vs arbitrary: rs) (simp_all add: AddHeader_def)
  have "rs_sent (propagate kvs rs) = rs_sent rs \<and> rs_body (propagate kvs rs) = rs_body rs"
    unfolding propagate_def by (induction kvs arbitrary: rs) (simp_all add: inner)
  then show "rs_sent (propagate kvs rs) = rs_sent rs" "rs_body (propagate kvs rs) = rs_body rs" by simp_all
qed

lemma Error_Write_sent:
  "rs_sent rs = None \<Longrightarrow>
   \<exists>hdr. rs_sent (snd (Error_Write walk trace st c d h eo vs rs)) = Some (st, hdr)"
  "rs_body (snd (Error_Write walk trace st c d h eo vs rs)) =
     rs_body rs @ [ErrorBody \<lparr>ae_error = c, ae_description = d, ae_traceId = (if trace \<noteq> '''' then Some trace else None)\<rparr>]"
  by (auto simp: Error_Write_def WriteBody_def WriteHeader_def AddHeader_def Let_def)

text \<open>
  C30: an error survives the way through another service: what a backend writes for an HTTP error, the
  generated client decodes into the field of that status, and \<open>PropagateError\<close> turns it into an error with
  the same status, code and description.  Nothing else of the original survives, the headers neither.
\<close>

theorem propagated_error_faithful:
  assumes "asError err = Some (HTTPError st c d h eo vs)" and "400 \<le> st" and "rs_sent rs = None"
  shows "\<exists>hdr b. rs_sent (snd (HandleError walk trace err rs)) = Some (st, hdr) \<and>
     rs_body (snd (HandleError walk trace err rs)) = rs_body rs @ [ErrorBody b] \<and>
     PropagateError st hdr (RPointer (Some (RStruct (fmupd (''JSON'' @ show_nat st) (ErrorField (Some b)) fs)))) =
       HTTPError st c d fmempty None []"
proof -
  have "HandleError walk trace err rs = Error_Write walk trace st c d h eo vs rs"
    using assms(1) by (simp add: HandleError_def)
  with Error_Write_sent(1) [OF assms(3), of walk trace st c d h eo vs] Error_Write_sent(2) [of walk trace st c d h eo vs rs] assms(2)
  show ?thesis
    by (auto simp: PropagateError_def deref_once_def error_field_def FromOpenAPIError_def)
qed

theorem propagated_error_faithful_witness:
  "\<exists>hdr b. rs_sent (snd (HandleError (\<lambda>_. []) ''00'' (Wrapf ''lookup: '' HTTPNotFound '''') fresh_response)) = Some (404, hdr) \<and>
     rs_body (snd (HandleError (\<lambda>_. []) ''00'' (Wrapf ''lookup: '' HTTPNotFound '''') fresh_response)) = [] @ [ErrorBody b] \<and>
     PropagateError 404 hdr (RPointer (Some (RStruct (fmupd (''JSON'' @ show_nat 404) (ErrorField (Some b)) fmempty)))) =
       HTTPError 404 ''not_found'' ''resource not found'' fmempty None []"
  using propagated_error_faithful [of "Wrapf ''lookup: '' HTTPNotFound ''''" 404 "''not_found''" "''resource not found''"
      fmempty None "[]" fresh_response "\<lambda>_. []" "''00''" fmempty]
  by (simp add: asError_def HTTPNotFound_def CodeNotFound_def fresh_response_def)

theorem HandleError_no_leak_witness:
  "snd (HandleError (\<lambda>_. []) ''00'' (OtherError ''secret'') fresh_response) =
     snd (Error_Write (\<lambda>_. []) ''00'' 500 ''server_error'' ''an internal error has occurred, please contact support''
       fmempty None [] fresh_response) \<and>
   ''secret'' \<in> set (fst (HandleError (\<lambda>_. []) ''00'' (OtherError ''secret'') fresh_response))"
  using HandleError_no_leak [of "OtherError ''secret''" "\<lambda>_. []" "''00''" fresh_response]
  by (simp add: asError_def)

theorem Encode_deterministic_witness:
  "let fs = fmupd ''realm'' ''y'' (fmupd ''error'' ''x'' fmempty); w = fmupd ''Bearer'' fs NewWWWAuthenticateHeader
   in Encode (\<lambda>_. [(''Bearer'', fs)]) (\<lambda>_. [(''error'', ''x''), (''realm'', ''y'')]) w =
      Encode (\<lambda>_. [(''Bearer'', fs)]) (\<lambda>_. [(''realm'', ''y''), (''error'', ''x'')]) w"
proof -
  define fs :: smap where "fs = fmupd ''realm'' ''y'' (fmupd ''error'' ''x'' fmempty)"
  define w :: challenges where "w = fmupd ''Bearer'' fs NewWWWAuthenticateHeader"
  have f: "walk_of fs [(''error'', ''x''), (''realm'', ''y'')]" "walk_of fs [(''realm'', ''y''), (''error'', ''x'')]"
    by (auto simp: walk_of_def fs_def fmlookup_of_list intro!: fmap_ext)
  have ww: "walk_of w [(''Bearer'', fs)]"
    by (auto simp: walk_of_def w_def NewWWWAuthenticateHeader_def fmlookup_of_list intro!: fmap_ext)
  have "\<forall>c fs'. fmlookup w c = Some fs' \<longrightarrow>
      walk_of fs' [(''error'', ''x''), (''realm'', ''y'')] \<and> walk_of fs' [(''realm'', ''y''), (''error'', ''x'')]"
    using f by (auto simp: w_def NewWWWAuthenticateHeader_def split: if_splits)
  from Encode_deterministic [of w "\<lambda>_. [(''Bearer'', fs)]" "\<lambda>_. [(''Bearer'', fs)]", OF ww ww this]
  show ?thesis by (simp add: Let_def fs_def [symmetric] w_def [symmetric])
qed

end
