(* ===== verification/Resource_Id.thy ===== *)
theory Resource_Id
  imports Go_Stdlib Go_Errors "HOL-Library.Char_ord"
begin

text \<open>
  Resource names (\<open>pkg/util/resource.go\<close>).  A UUID is 16 bytes; \<open>sha1\<close> stands for \<open>uuid.NewSHA1\<close>
  (version 5 UUIDs), the random UUIDs come from a source.  The loops may run on forever in principle,
  so they are functions into \<open>option\<close>.
\<close>

section \<open>Printing\<close>

type_synonym uuid = string

text \<open>The canonical form: 8, 4, 4, 4 and 12 lower case hexadecimal digits.\<close>

definition uuid_String :: "uuid \<Rightarrow> string" where
  "uuid_String u =
     (let h = hex_bytes u
      in take 8 h @ ''-'' @ take 4 (drop 8 h) @ ''-'' @ take 4 (drop 12 h) @ ''-'' @ take 4 (drop 16 h) @ ''-'' @ drop 20 h)"

text \<open>\<open>unicode.IsLetter\<close> on the characters that occur in it.\<close>

definition IsLetter :: "char \<Rightarrow> bool" where
  "IsLetter c \<longleftrightarrow> (CHR ''a'' \<le> c \<and> c \<le> CHR ''z'') \<or> (CHR ''A'' \<le> c \<and> c \<le> CHR ''Z'')"

section \<open>Random names\<close>

text \<open>The UUIDs that the source hands out, in order; \<open>None\<close> when it has not had a letter yet.\<close>

fun GenerateResourceID :: "uuid list \<Rightarrow> string option" where
  "GenerateResourceID [] = None"
| "GenerateResourceID (u # us) =
     (if IsLetter (uuid_String u ! 0) then Some (uuid_String u) else GenerateResourceID us)"

section \<open>Deterministic names\<close>

partial_function (option) rehash :: "(uuid \<Rightarrow> string \<Rightarrow> uuid) \<Rightarrow> uuid \<Rightarrow> uuid \<Rightarrow> string option" where
  "rehash sha1 ns u =
     (if \<not> IsLetter (uuid_String u ! 0) then rehash sha1 ns (sha1 ns u) else Some (uuid_String u))"

definition GenerateDeterministicResourceID ::
    "(uuid \<Rightarrow> string \<Rightarrow> uuid) \<Rightarrow> uuid \<Rightarrow> string \<Rightarrow> string option" where
  "GenerateDeterministicResourceID sha1 ns invariant = rehash sha1 ns (sha1 ns invariant)"

section \<open>Names are valid\<close>

definition uuid_ok :: "uuid \<Rightarrow> bool" where
  "uuid_ok u \<longleftrightarrow> length u = 16"

definition name_char :: "char \<Rightarrow> bool" where
  "name_char c \<longleftrightarrow> (CHR ''0'' \<le> c \<and> c \<le> CHR ''9'') \<or> (CHR ''a'' \<le> c \<and> c \<le> CHR ''f'') \<or> c = CHR ''-''"

lemma hex_digit_name_char:
  assumes "n < 16"
  shows "name_char (hex_digit n)"
proof -
  have "\<forall>k \<in> set [0 ..< 16]. name_char (hex_digit k)"
    by (simp add: upt_rec hex_digit_def name_char_def char_of_def bit_0 less_eq_char_def)
  with assms show ?thesis by simp
qed

lemma hex_bytes_name_chars: "c \<in> set (hex_bytes s) \<Longrightarrow> name_char c"
  using hex_bytes_digits [of c s] by (auto intro: hex_digit_name_char)

lemma uuid_String_valid:
  assumes "uuid_ok u"
  shows "length (uuid_String u) = 36" and "c \<in> set (uuid_String u) \<Longrightarrow> name_char c"
proof -
  from assms have "length (hex_bytes u) = 32" by (simp add: uuid_ok_def)
  then show "length (uuid_String u) = 36" by (simp add: uuid_String_def Let_def)
  have dash: "name_char (CHR ''-'')" by (simp add: name_char_def)
  show "c \<in> set (uuid_String u) \<Longrightarrow> name_char c"
    using dash by (auto simp: uuid_String_def Let_def dest!: in_set_takeD in_set_dropD intro: hex_bytes_name_chars)
qed

text \<open>The chain of UUIDs that the loop walks.\<close>

fun chain :: "(uuid \<Rightarrow> string \<Rightarrow> uuid) \<Rightarrow> uuid \<Rightarrow> string \<Rightarrow> nat \<Rightarrow> uuid" where
  "chain sha1 ns invariant 0 = sha1 ns invariant"
| "chain sha1 ns invariant (Suc n) = sha1 ns (chain sha1 ns invariant n)"

lemma chain_shift: "chain sha1 ns (sha1 ns invariant) n = chain sha1 ns invariant (Suc n)"
  by (induction n) auto

lemma rehash_chain:
  "IsLetter (uuid_String (chain sha1 ns invariant n) ! 0) \<Longrightarrow>
   (\<And>k. k < n \<Longrightarrow> \<not> IsLetter (uuid_String (chain sha1 ns invariant k) ! 0)) \<Longrightarrow>
   rehash sha1 ns (chain sha1 ns invariant 0) = Some (uuid_String (chain sha1 ns invariant n))"
proof (induction n arbitrary: invariant)
  case 0
  then show ?case by (subst rehash.simps) simp
next
  case (Suc n)
  have "rehash sha1 ns (chain sha1 ns (sha1 ns invariant) 0) = Some (uuid_String (chain sha1 ns (sha1 ns invariant) n))"
    using Suc.prems(1) Suc.prems(2) [of "Suc k" for k] by (intro Suc.IH) (simp_all only: chain_shift not_False_eq_True Suc_less_eq)
  moreover have "rehash sha1 ns (chain sha1 ns invariant 0) = rehash sha1 ns (sha1 ns (chain sha1 ns invariant 0))"
    using Suc.prems(2) [of 0] by (subst rehash.simps) simp
  ultimately show ?case by (simp add: chain_shift)
qed

text \<open>
  C28: deriving a name returns as soon as some UUID of the chain starts with a letter, and returns the
  first such one: a name of 36 characters, all of them lower case hexadecimal digits or dashes, the
  first a letter.
\<close>

theorem GenerateDeterministicResourceID_valid:
  assumes "\<forall>n b. uuid_ok (sha1 n b)" and "IsLetter (uuid_String (chain sha1 ns invariant k) ! 0)"
  shows "\<exists>n \<le> k. \<exists>name. GenerateDeterministicResourceID sha1 ns invariant = Some name \<and>
     name = uuid_String (chain sha1 ns invariant n) \<and> length name = 36 \<and> (\<forall>c \<in> set name. name_char c) \<and> IsLetter (name ! 0)"
proof -
  let ?P = "\<lambda>n. IsLetter (uuid_String (chain sha1 ns invariant n) ! 0)"
  define n where "n = (LEAST n. ?P n)"
  have n: "?P n" "n \<le> k" "\<And>j. j < n \<Longrightarrow> \<not> ?P j"
    using assms(2) unfolding n_def by (auto intro: LeastI Least_le dest: not_less_Least)
  have "GenerateDeterministicResourceID sha1 ns invariant = Some (uuid_String (chain sha1 ns invariant n))"
    using rehash_chain [OF n(1,3)] by (simp add: GenerateDeterministicResourceID_def)
  moreover have "uuid_ok (chain sha1 ns invariant n)"
    using assms(1) by (cases n) auto
  ultimately show ?thesis using n uuid_String_valid by blast
qed

text \<open>
  The names of two different inputs can be the same: when the UUID of an input does not start with a
  letter, its bytes, taken as an input themselves, lead to the same name, because the fallback hashes
  exactly them.
\<close>

lemma deterministic_names_collide:
  assumes "\<not> IsLetter (uuid_String (sha1 ns invariant) ! 0)"
  shows "GenerateDeterministicResourceID sha1 ns (sha1 ns invariant) = GenerateDeterministicResourceID sha1 ns invariant"
  using assms by (simp add: GenerateDeterministicResourceID_def rehash.simps [of sha1 ns "sha1 ns invariant"])

lemma uuid_String_first: "u \<noteq> [] \<Longrightarrow> uuid_String u ! 0 = hex_digit (of_char (hd u) div 16)"
  by (cases u) (simp_all add: uuid_String_def hex_bytes_def)

theorem GenerateDeterministicResourceID_valid_witness:
  "\<exists>name. GenerateDeterministicResourceID (\<lambda>_ _. replicate 16 (CHR 0xA0)) '''' ''x'' = Some name \<and> length name = 36"
proof -
  let ?h = "\<lambda>_ _ :: string. replicate 16 (CHR 0xA0)"
  have ok: "\<forall>n b. uuid_ok (?h n b)" by (simp add: uuid_ok_def)
  have "IsLetter (uuid_String (chain ?h '''' ''x'' 0) ! 0)"
    by (simp add: uuid_String_first hex_digit_def char_of_def bit_0 IsLetter_def less_eq_char_def)
  from GenerateDeterministicResourceID_valid [OF ok this] show ?thesis by blast
qed

end
