(* ===== verification/Utf8.thy ===== *)
theory Utf8
  imports Prelude
begin

text \<open>
  Strings as UTF-8: the decoding into runes that a \<open>range\<close> over a string performs, where an invalid
  byte becomes the replacement character, and the encoding of a rune.  Writing a string into a JSON
  document and reading it back decodes and encodes it once.
\<close>

section \<open>Runes\<close>

type_synonym rune = nat

definition rune_error :: rune where "rune_error = 0xFFFD"

definition in_range :: "nat \<Rightarrow> nat \<Rightarrow> char \<Rightarrow> bool" where
  "in_range lo hi c \<longleftrightarrow> lo \<le> of_char c \<and> of_char c \<le> hi"

definition cont :: "char \<Rightarrow> nat" where
  "cont c = of_char c mod 64"

text \<open>
  \<open>utf8.DecodeRuneInString\<close>: the rune and the number of bytes it takes; the range of the second byte
  depends on the first.
\<close>

definition second_range :: "nat \<Rightarrow> nat \<times> nat" where
  "second_range b = (if b = 0xE0 then (0xA0, 0xBF) else if b = 0xED then (0x80, 0x9F)
     else if b = 0xF0 then (0x90, 0xBF) else if b = 0xF4 then (0x80, 0x8F) else (0x80, 0xBF))"

fun decode_rune :: "string \<Rightarrow> rune \<times> nat" where
  "decode_rune [] = (rune_error, 0)"
| "decode_rune (c # s) =
     (let b = of_char c; lo = fst (second_range b); hi = snd (second_range b)
      in if b < 0x80 then (b, 1)
         else if 0xC2 \<le> b \<and> b \<le> 0xDF then
           (case s of c1 # _ \<Rightarrow> if in_range lo hi c1 then ((b mod 32) * 64 + cont c1, 2) else (rune_error, 1)
            | _ \<Rightarrow> (rune_error, 1))
         else if 0xE0 \<le> b \<and> b \<le> 0xEF then
           (case s of
              c1 # c2 # _ \<Rightarrow>
                if in_range lo hi c1 \<and> in_range 0x80 0xBF c2
                then ((b mod 16) * 4096 + cont c1 * 64 + cont c2, 3) else (rune_error, 1)
            | _ \<Rightarrow> (rune_error, 1))
         else if 0xF0 \<le> b \<and> b \<le> 0xF4 then
           (case s of
              c1 # c2 # c3 # _ \<Rightarrow>
                if in_range lo hi c1 \<and> in_range 0x80 0xBF c2 \<and> in_range 0x80 0xBF c3
                then ((b mod 8) * 262144 + cont c1 * 4096 + cont c2 * 64 + cont c3, 4) else (rune_error, 1)
            | _ \<Rightarrow> (rune_error, 1))
         else (rune_error, 1))"

lemma decode_rune_size: "s \<noteq> [] \<Longrightarrow> 0 < snd (decode_rune s)"
  by (cases s) (auto simp: Let_def split: list.splits)

function runes :: "string \<Rightarrow> rune list" where
  "runes s = (if s = [] then [] else fst (decode_rune s) # runes (drop (snd (decode_rune s)) s))"
  by pat_completeness auto
termination
proof (relation "measure length")
  fix s :: string
  assume "s \<noteq> []"
  then show "(drop (snd (decode_rune s)) s, s) \<in> measure length"
    using decode_rune_size [of s] by (cases s) auto
qed simp

declare runes.simps [simp del] decode_rune.simps [simp del]

definition ascii :: "string \<Rightarrow> bool" where
  "ascii s \<longleftrightarrow> (\<forall>c \<in> set s. of_char c < (128 :: nat))"

lemma runes_ascii: "ascii s \<Longrightarrow> runes s = map of_char s"
proof (induction s)
  case Nil
  then show ?case by (simp add: runes.simps)
next
  case (Cons c s)
  then have "decode_rune (c # s) = (of_char c, 1)" "runes s = map of_char s"
    by (auto simp: ascii_def decode_rune.simps Let_def)
  then show ?case by (subst runes.simps) simp
qed

lemma runes_ascii_inj: "ascii s \<Longrightarrow> ascii t \<Longrightarrow> runes s = runes t \<longleftrightarrow> s = t"
  by (auto simp: runes_ascii dest: map_injective [OF _ injI, of of_char])

section \<open>Encoding\<close>

definition encode_rune :: "rune \<Rightarrow> string" where
  "encode_rune r =
     (if r < 0x80 then [char_of r]
      else if r < 0x800 then [char_of (0xC0 + r div 64), char_of (0x80 + r mod 64)]
      else if r < 0x10000 then
        [char_of (0xE0 + r div 4096), char_of (0x80 + r div 64 mod 64), char_of (0x80 + r mod 64)]
      else
        [char_of (0xF0 + r div 262144), char_of (0x80 + r div 4096 mod 64), char_of (0x80 + r div 64 mod 64),
         char_of (0x80 + r mod 64)])"

text \<open>A string that has been through \<open>json.Marshal\<close> and \<open>json.Unmarshal\<close>.\<close>

definition json_text :: "string \<Rightarrow> string" where
  "json_text s = concat (map encode_rune (runes s))"

lemma json_text_ascii:
  assumes "ascii s"
  shows "json_text s = s"
proof -
  have "concat (map encode_rune (map of_char s)) = s"
    using assms by (induction s) (auto simp: ascii_def encode_rune_def)
  with assms show ?thesis by (simp add: json_text_def runes_ascii)
qed

end
