(* ===== verification/Conversion.thy ===== *)
theory Conversion
  imports Reconciler Resource_Id Utf8
begin

text \<open>
  The projection of stored resources onto the API and back (\<open>pkg/server/conversion/conversion.go\<close>): the
  coarse provisioning and health status, their details, the read metadata with its organization and
  project scoped forms, the metadata of new and updated resources, and tags.  An object either has
  status conditions or not.  Statuses are strings, as in the API.
\<close>

section \<open>API types (pkg/openapi/types.go)\<close>

definition StatusDeprovisioning :: string where "StatusDeprovisioning = ''deprovisioning''"
definition StatusError :: string where "StatusError = ''error''"
definition StatusPending :: string where "StatusPending = ''pending''"
definition StatusProvisioned :: string where "StatusProvisioned = ''provisioned''"
definition StatusProvisioning :: string where "StatusProvisioning = ''provisioning''"

definition HealthDegraded :: string where "HealthDegraded = ''degraded''"
definition HealthError :: string where "HealthError = ''error''"
definition HealthHealthy :: string where "HealthHealthy = ''healthy''"
definition HealthUnknown :: string where "HealthUnknown = ''unknown''"

lemmas status_defs =
  StatusDeprovisioning_def StatusError_def StatusPending_def StatusProvisioned_def StatusProvisioning_def
  HealthDegraded_def HealthError_def HealthHealthy_def HealthUnknown_def

text \<open>\<open>ResourceReadMetadata\<close>; the details are a reason and a message.\<close>

record read_metadata =
  md_id :: string
  md_name :: string
  md_creationTime :: time
  md_provisioningStatus :: string
  md_provisioningStatusDetail :: "(reason \<times> string) option"
  md_healthStatus :: string
  md_healthStatusDetail :: "(reason \<times> string) option"
  md_description :: "string option"
  md_createdBy :: "string option"
  md_modifiedBy :: "string option"
  md_modifiedTime :: "time option"
  md_deletionTime :: "time option"
  md_tags :: "tag list option"

record org_metadata = read_metadata +
  md_organizationId :: string

record project_metadata = org_metadata +
  md_projectId :: string

record write_metadata =
  wm_name :: string
  wm_description :: "string option"
  wm_tags :: "tag list option"

section \<open>Objects\<close>

datatype api_object = PlainObject objmeta | ManagedObject managed

fun meta_of :: "api_object \<Rightarrow> objmeta" where
  "meta_of (PlainObject m) = m"
| "meta_of (ManagedObject r) = objmeta.truncate r"

section \<open>Status\<close>

definition status_of_reason :: "reason \<Rightarrow> string" where
  "status_of_reason r =
     (if r = ConditionReasonProvisioning then StatusProvisioning
      else if r = ConditionReasonProvisioned then StatusProvisioned
      else if r = ConditionReasonErrored \<or> r = ConditionReasonDependencyNotFound then StatusError
      else if r = ConditionReasonDeprovisioned \<or> r = ConditionReasonDeprovisioning then StatusDeprovisioning
      else if r = ConditionReasonDependencyNotReady \<or> r = ConditionReasonDependencyFailed then StatusProvisioning
      else StatusProvisioning)"

definition convertStatusCondition :: "klib \<Rightarrow> api_object \<Rightarrow> string" where
  "convertStatusCondition lib ob =
     (if om_deletionTimestamp (meta_of ob) \<noteq> None then StatusDeprovisioning
      else (case ob of
              PlainObject m \<Rightarrow> StatusProvisioned
            | ManagedObject r \<Rightarrow>
                (case GetAvailableCondition lib r of
                   Ok c \<Rightarrow> status_of_reason (c_reason c)
                 | _ \<Rightarrow> StatusPending)))"

text \<open>The result variable starts out empty and the switch has no default.\<close>

definition convertHealthCondition :: "klib \<Rightarrow> api_object \<Rightarrow> string" where
  "convertHealthCondition lib ob =
     (case ob of
        PlainObject m \<Rightarrow> HealthHealthy
      | ManagedObject r \<Rightarrow>
          (case GetHealthyCondition lib r of
             Ok c \<Rightarrow>
               if c_reason c = ConditionReasonHealthy then HealthHealthy
               else if c_reason c = ConditionReasonDegraded then HealthDegraded
               else if c_reason c = ConditionReasonUnknown then HealthUnknown
               else ''''
           | _ \<Rightarrow> HealthUnknown))"

definition convertProvisioningStatusDetail :: "klib \<Rightarrow> api_object \<Rightarrow> (reason \<times> string) option" where
  "convertProvisioningStatusDetail lib ob =
     (case ob of
        PlainObject m \<Rightarrow> None
      | ManagedObject r \<Rightarrow>
          (case GetAvailableCondition lib r of Ok c \<Rightarrow> Some (c_reason c, c_message c) | _ \<Rightarrow> None))"

definition convertHealthStatusDetail :: "klib \<Rightarrow> api_object \<Rightarrow> (reason \<times> string) option" where
  "convertHealthStatusDetail lib ob =
     (case ob of
        PlainObject m \<Rightarrow> None
      | ManagedObject r \<Rightarrow>
          (case GetHealthyCondition lib r of Ok c \<Rightarrow> Some (c_reason c, c_message c) | _ \<Rightarrow> None))"

section \<open>Tags\<close>

text \<open>A tag of the resource and a tag of the API have the same two fields; nil lists are \<open>None\<close>.\<close>

definition ConvertTag :: "tag \<Rightarrow> tag" where
  "ConvertTag t = \<lparr>t_name = t_name t, t_value = t_value t\<rparr>"

definition ConvertTags :: "tag list option \<Rightarrow> tag list option" where
  "ConvertTags ts = (case ts of None \<Rightarrow> None | Some l \<Rightarrow> Some (map ConvertTag l))"

definition GenerateTag :: "tag \<Rightarrow> tag" where
  "GenerateTag t = \<lparr>t_name = t_name t, t_value = t_value t\<rparr>"

definition GenerateTagList :: "tag list option \<Rightarrow> tag list option" where
  "GenerateTagList ts = (case ts of None \<Rightarrow> None | Some l \<Rightarrow> Some (map GenerateTag l))"

section \<open>Read metadata\<close>

text \<open>\<open>parse\<close> stands for \<open>time.Parse\<close> with the layout \<open>time.RFC3339\<close>.\<close>

definition ResourceReadMetadata ::
    "klib \<Rightarrow> (string \<Rightarrow> time option) \<Rightarrow> api_object \<Rightarrow> tag list option \<Rightarrow> read_metadata" where
  "ResourceReadMetadata lib parse ob tags =
     (let m = meta_of ob; annotations = om_annotations m
      in \<lparr>md_id = om_name m,
          md_name = str_at (om_labels m) NameLabel,
          md_creationTime = om_creationTimestamp m,
          md_provisioningStatus = convertStatusCondition lib ob,
          md_provisioningStatusDetail = convertProvisioningStatusDetail lib ob,
          md_healthStatus = convertHealthCondition lib ob,
          md_healthStatusDetail = convertHealthStatusDetail lib ob,
          md_description = fmlookup annotations DescriptionAnnotation,
          md_createdBy = fmlookup annotations CreatorAnnotation,
          md_modifiedBy = fmlookup annotations ModifierAnnotation,
          md_modifiedTime =
            (case fmlookup annotations ModifiedTimestampAnnotation of None \<Rightarrow> None | Some v \<Rightarrow> parse v),
          md_deletionTime = om_deletionTimestamp m,
          md_tags = (case tags of None \<Rightarrow> None | Some [] \<Rightarrow> None | Some l \<Rightarrow> ConvertTags (Some l))\<rparr>)"

text \<open>
  The scoped forms are filled by marshalling and unmarshalling, errors ignored.  Strings go through
  JSON; a time whose year has not four digits cannot be marshalled, and then nothing is copied:
  \<open>time_ok\<close> says which times can.
\<close>

definition json_pair :: "reason \<times> string \<Rightarrow> reason \<times> string" where
  "json_pair p = (json_text (fst p), json_text (snd p))"

definition json_tag :: "tag \<Rightarrow> tag" where
  "json_tag t = \<lparr>t_name = json_text (t_name t), t_value = json_text (t_value t)\<rparr>"

definition json_metadata :: "(time \<Rightarrow> bool) \<Rightarrow> read_metadata \<Rightarrow> read_metadata option" where
  "json_metadata time_ok m =
     (if time_ok (md_creationTime m) \<and> pred_option time_ok (md_modifiedTime m) \<and> pred_option time_ok (md_deletionTime m)
      then Some
        \<lparr>md_id = json_text (md_id m), md_name = json_text (md_name m), md_creationTime = md_creationTime m,
         md_provisioningStatus = json_text (md_provisioningStatus m),
         md_provisioningStatusDetail = map_option json_pair (md_provisioningStatusDetail m),
         md_healthStatus = json_text (md_healthStatus m),
         md_healthStatusDetail = map_option json_pair (md_healthStatusDetail m),
         md_description = map_option json_text (md_description m),
         md_createdBy = map_option json_text (md_createdBy m),
         md_modifiedBy = map_option json_text (md_modifiedBy m),
         md_modifiedTime = md_modifiedTime m, md_deletionTime = md_deletionTime m,
         md_tags = map_option (map json_tag) (md_tags m)\<rparr>
      else None)"

definition zero_metadata :: read_metadata where
  "zero_metadata =
     \<lparr>md_id = '''', md_name = '''', md_creationTime = zero_time, md_provisioningStatus = '''',
      md_provisioningStatusDetail = None, md_healthStatus = '''', md_healthStatusDetail = None,
      md_description = None, md_createdBy = None, md_modifiedBy = None, md_modifiedTime = None,
      md_deletionTime = None, md_tags = None\<rparr>"

definition transfer_metadata :: "(time \<Rightarrow> bool) \<Rightarrow> read_metadata \<Rightarrow> read_metadata" where
  "transfer_metadata time_ok m = (case json_metadata time_ok m of None \<Rightarrow> zero_metadata | Some m' \<Rightarrow> m')"

definition OrganizationScopedResourceReadMetadata ::
    "klib \<Rightarrow> (string \<Rightarrow> time option) \<Rightarrow> (time \<Rightarrow> bool) \<Rightarrow> api_object \<Rightarrow> tag list option \<Rightarrow> org_metadata" where
  "OrganizationScopedResourceReadMetadata lib parse time_ok ob tags =
     read_metadata.extend (transfer_metadata time_ok (ResourceReadMetadata lib parse ob tags))
       (org_metadata.fields (str_at (om_labels (meta_of ob)) OrganizationLabel))"

definition ProjectScopedResourceReadMetadata ::
    "klib \<Rightarrow> (string \<Rightarrow> time option) \<Rightarrow> (time \<Rightarrow> bool) \<Rightarrow> api_object \<Rightarrow> tag list option \<Rightarrow> project_metadata" where
  "ProjectScopedResourceReadMetadata lib parse time_ok ob tags =
     org_metadata.extend
       (read_metadata.extend (transfer_metadata time_ok (ResourceReadMetadata lib parse ob tags))
         (org_metadata.fields (str_at (om_labels (meta_of ob)) OrganizationLabel)))
       (project_metadata.fields (str_at (om_labels (meta_of ob)) ProjectLabel))"

section \<open>New and updated metadata\<close>

definition new_metadata :: "write_metadata \<Rightarrow> string \<Rightarrow> string \<Rightarrow> objmeta" where
  "new_metadata metadata ns name =
     \<lparr>om_name = name, om_generateName = '''', om_namespace = ns,
      om_labels = fmupd NameLabel (wm_name metadata) fmempty,
      om_annotations =
        (case wm_description metadata of None \<Rightarrow> fmempty | Some d \<Rightarrow> fmupd DescriptionAnnotation d fmempty),
      om_finalizers = [], om_creationTimestamp = zero_time, om_deletionTimestamp = None, om_generation = 0,
      om_resourceVersion = ''''\<rparr>"

text \<open>The names come from \<open>Resource_Id\<close>: \<open>uuids\<close> are the random UUIDs, \<open>sha1\<close> makes the derived ones.\<close>

definition NewObjectMetadata :: "uuid list \<Rightarrow> write_metadata \<Rightarrow> string \<Rightarrow> objmeta option" where
  "NewObjectMetadata uuids metadata ns = map_option (new_metadata metadata ns) (GenerateResourceID uuids)"

definition NewDeterministicObjectMetadata ::
    "(uuid \<Rightarrow> string \<Rightarrow> uuid) \<Rightarrow> write_metadata \<Rightarrow> string \<Rightarrow> uuid \<Rightarrow> string \<Rightarrow> objmeta option" where
  "NewDeterministicObjectMetadata sha1 metadata ns idNamespace invariant =
     map_option (new_metadata metadata ns) (GenerateDeterministicResourceID sha1 idNamespace invariant)"

definition WithLabel :: "string \<Rightarrow> string \<Rightarrow> objmeta \<Rightarrow> objmeta" where
  "WithLabel key v ob = ob\<lparr>om_labels := fmupd key v (om_labels ob)\<rparr>"

definition WithOrganization :: "string \<Rightarrow> objmeta \<Rightarrow> objmeta" where
  "WithOrganization i ob = ob\<lparr>om_labels := fmupd OrganizationLabel i (om_labels ob)\<rparr>"

definition WithProject :: "string \<Rightarrow> objmeta \<Rightarrow> objmeta" where
  "WithProject i ob = ob\<lparr>om_labels := fmupd ProjectLabel i (om_labels ob)\<rparr>"

text \<open>
  A mutator changes the two objects in place and may fail; what has been changed before stays changed.
  \<open>now\<close> is the current time as \<open>time.RFC3339\<close> prints it.
\<close>

type_synonym mutator = "objmeta \<times> objmeta \<Rightarrow> unit result \<times> (objmeta \<times> objmeta)"

fun run_mutators :: "mutator list \<Rightarrow> mutator" where
  "run_mutators [] obs = (Ok (), obs)"
| "run_mutators (m # ms) obs =
     (case m obs of (Ok u, obs') \<Rightarrow> run_mutators ms obs' | (r, obs') \<Rightarrow> (r, obs'))"

definition UpdateObjectMetadata :: "string \<Rightarrow> mutator list \<Rightarrow> mutator" where
  "UpdateObjectMetadata now mutators obs =
     (let required = (fst obs)\<lparr>om_annotations := fmupd ModifiedTimestampAnnotation now (om_annotations (fst obs))\<rparr>
      in run_mutators mutators (required, snd obs))"

text \<open>
  The audit line of an update.  Marshalling, the merge patch (\<open>jsonpatch\<close>) and unmarshalling are
  arguments; the result is the line's current state and patch.
\<close>

definition wrap_json :: "string \<Rightarrow> 'a result \<Rightarrow> 'a result" where
  "wrap_json what r = (case r of Err e \<Rightarrow> Err (Wrapf '''' e ('': '' @ what)) | _ \<Rightarrow> r)"

definition LogUpdate ::
    "('ob \<Rightarrow> string result) \<Rightarrow> (string \<Rightarrow> string \<Rightarrow> string result) \<Rightarrow> (string \<Rightarrow> 'j result) \<Rightarrow> 'ob \<Rightarrow> 'ob \<Rightarrow>
     ('j \<times> 'j) result" where
  "LogUpdate marshal mergePatch unmarshal current required =
     bind_outcome (wrap_json ''failed to marshal current object'' (marshal current)) (\<lambda>currentJSON.
     bind_outcome (wrap_json ''failed to marshal required object'' (marshal required)) (\<lambda>requiredJSON.
     bind_outcome (wrap_json ''failed to generate merge patch'' (mergePatch currentJSON requiredJSON)) (\<lambda>patch.
     bind_outcome (wrap_json ''failed to unmarshal merge patch'' (unmarshal patch)) (\<lambda>patchRaw.
     bind_outcome (wrap_json ''failed to current raw'' (unmarshal currentJSON)) (\<lambda>currentRaw.
     Ok (currentRaw, patchRaw))))))"

section \<open>The status is always one of the API's\<close>

definition provisioning_statuses :: "string set" where
  "provisioning_statuses =
     {StatusDeprovisioning, StatusError, StatusPending, StatusProvisioned, StatusProvisioning}"

definition health_statuses :: "string set" where
  "health_statuses = {HealthDegraded, HealthError, HealthHealthy, HealthUnknown}"


text \<open>The health status has no such default: an unknown reason yields the empty string.\<close>

lemma convertHealthCondition_empty:
  assumes "GetHealthyCondition lib r = Ok c"
    and "c_reason c \<notin> {ConditionReasonHealthy, ConditionReasonDegraded, ConditionReasonUnknown}"
  shows "convertHealthCondition lib (ManagedObject r) = '''' \<and>
    convertHealthCondition lib (ManagedObject r) \<notin> health_statuses"
  using assms by (auto simp: convertHealthCondition_def health_statuses_def status_defs)

section \<open>From the outcome of a reconcile to the status of the API\<close>

text \<open>
  The abstract view: what a user should see depends on the disposition of the outcome alone.
\<close>

definition disposition_status :: "gerror option \<Rightarrow> string" where
  "disposition_status err =
     (case err of
        None \<Rightarrow> StatusProvisioned
      | Some e \<Rightarrow> if errors_Is e ErrYield then StatusProvisioning else StatusError)"

text \<open>The outcomes of the library's own vocabulary, under any wrapping.\<close>

definition core_outcome :: "gerror option \<Rightarrow> bool" where
  "core_outcome err \<longleftrightarrow>
     (\<forall>e. err = Some e \<longrightarrow>
        errors_As_prov e = None \<or>
        (\<exists>ps gvks n ls. e = wraps ps (DependencyNotReady gvks n ls) \<or> e = wraps ps (DependencyFailed gvks n ls) \<or>
           e = wraps ps (DependencyNotFound gvks n ls)))"

lemma status_of_outcome:
  assumes "core_outcome err" and "condition_of err False = Some (s, x, m)"
  shows "status_of_reason x = disposition_status err"
proof (cases err)
  case None
  with assms(2) show ?thesis
    by (auto simp: condition_of_def condition_phase1_def condition_phase2_def disposition_status_def
        status_of_reason_def reason_defs)
next
  case (Some e)
  with assms(1) consider "errors_As_prov e = None"
    | ps gvks n ls where "e = wraps ps (DependencyNotReady gvks n ls) \<or> e = wraps ps (DependencyFailed gvks n ls) \<or>
        e = wraps ps (DependencyNotFound gvks n ls)"
    unfolding core_outcome_def by metis
  then show ?thesis
  proof cases
    case 1
    with Some assms(2) show ?thesis
      by (auto simp: condition_of_def condition_phase1_def condition_phase2_def disposition_status_def
          status_of_reason_def reason_defs split: if_splits)
  next
    case (2 ps gvks n ls)
    then consider d m' where "errors_Is e ErrYield" "errors_As_prov e = Some (d, ConditionReasonDependencyNotReady, m')"
      | d m' where "errors_Is e ErrYield" "errors_As_prov e = Some (d, ConditionReasonDependencyFailed, m')"
      | d m' where "\<not> errors_Is e ErrYield" "\<not> errors_Is e ContextCanceled"
          "errors_As_prov e = Some (d, ConditionReasonDependencyNotFound, m')"
      by (elim disjE) (simp_all add: prov_error_defs)
    then show ?thesis
      by cases (use Some assms(2) in \<open>auto simp: condition_of_def condition_phase1_def condition_phase2_def
          disposition_status_def status_of_reason_def reason_defs\<close>)
  qed
qed


section \<open>Round trips\<close>

lemma GenerateTag_ConvertTag [simp]: "GenerateTag (ConvertTag t) = t" "ConvertTag (GenerateTag t) = t"
  by (simp_all add: GenerateTag_def ConvertTag_def)

lemma tags_round_trip: "GenerateTagList (ConvertTags ts) = ts" "ConvertTags (GenerateTagList ts) = ts"
  by (auto simp: GenerateTagList_def ConvertTags_def comp_def split: option.splits)

text \<open>Text that JSON leaves alone.\<close>

definition plain_text :: "string \<Rightarrow> bool" where
  "plain_text s \<longleftrightarrow> json_text s = s"

definition plain_metadata :: "(time \<Rightarrow> bool) \<Rightarrow> read_metadata \<Rightarrow> bool" where
  "plain_metadata time_ok m \<longleftrightarrow> json_metadata time_ok m = Some m"

text \<open>
  C33: a resource that was created through the API reads back as it was written: the project scoped
  metadata of an object made from a write request, put under an organization and a project and stored
  at some time, has the name, the description, the tags and the scope that were asked for, is not marked
  as modified or deleted, and its identifier is the object's name.
\<close>

theorem created_metadata_reads_back:
  assumes "NewObjectMetadata uuids metadata ns = Some m"
    and "stored = (WithProject p (WithOrganization o' m))\<lparr>om_creationTimestamp := t\<rparr>"
    and "plain_metadata time_ok (ResourceReadMetadata lib parse (PlainObject stored) (GenerateTagList (wm_tags metadata)))"
  shows "let r = ProjectScopedResourceReadMetadata lib parse time_ok (PlainObject stored) (GenerateTagList (wm_tags metadata))
     in md_id r = om_name m \<and> md_name r = wm_name metadata \<and> md_description r = wm_description metadata \<and>
        md_organizationId r = o' \<and> md_projectId r = p \<and> md_creationTime r = t \<and>
        md_tags r = (if wm_tags metadata = Some [] then None else wm_tags metadata) \<and>
        md_deletionTime r = None \<and> md_modifiedTime r = None \<and> md_createdBy r = None \<and>
        md_provisioningStatus r = StatusProvisioned"
proof -
  obtain name where m: "m = new_metadata metadata ns name"
    using assms(1) by (auto simp: NewObjectMetadata_def)
  let ?r = "ResourceReadMetadata lib parse (PlainObject stored) (GenerateTagList (wm_tags metadata))"
  have same: "transfer_metadata time_ok ?r = ?r"
    using assms(3) by (simp add: plain_metadata_def transfer_metadata_def)
  have tags: "ConvertTags (Some (map GenerateTag l)) = Some l" for l
    by (simp add: ConvertTags_def comp_def)
  have "md_tags ?r = (if wm_tags metadata = Some [] then None else wm_tags metadata)"
    by (cases "wm_tags metadata"; cases "the (wm_tags metadata)")
      (auto simp: ResourceReadMetadata_def GenerateTagList_def Let_def ConvertTags_def comp_def)
  moreover have "md_description ?r = wm_description metadata"
    by (simp add: ResourceReadMetadata_def assms(2) m new_metadata_def WithProject_def WithOrganization_def Let_def
        split: option.splits)
  ultimately show ?thesis
    unfolding ProjectScopedResourceReadMetadata_def same
    by (simp add: project_metadata.defs org_metadata.defs read_metadata.defs Let_def ResourceReadMetadata_def
        assms(2) m new_metadata_def WithProject_def WithOrganization_def str_at_def convertStatusCondition_def
        split: option.splits)
qed

section \<open>Instances\<close>



theorem created_metadata_reads_back_witness:
  "\<exists>m. NewObjectMetadata [replicate 16 (CHR 0xA0)] \<lparr>wm_name = ''n'', wm_description = None, wm_tags = None\<rparr> ''ns'' = Some m \<and>
     md_organizationId (ProjectScopedResourceReadMetadata klib_std (\<lambda>_. None) (\<lambda>_. True)
       (PlainObject ((WithProject ''p'' (WithOrganization ''o'' m))\<lparr>om_creationTimestamp := 7\<rparr>)) None) = ''o''"
proof -
  let ?md = "\<lparr>wm_name = ''n'', wm_description = None, wm_tags = None\<rparr>" and ?u = "replicate 16 (CHR 0xA0)"
  have first: "IsLetter (uuid_String ?u ! 0)"
    by (simp add: uuid_String_first hex_digit_def char_of_def bit_0 IsLetter_def less_eq_char_def)
  then obtain m where m: "NewObjectMetadata [?u] ?md ''ns'' = Some m" "om_name m = uuid_String ?u" "om_labels m = fmupd NameLabel ''n'' fmempty"
    "om_annotations m = fmempty" "om_deletionTimestamp m = None"
    by (simp add: NewObjectMetadata_def new_metadata_def)
  have low: "of_char c < (128 :: nat)" if "name_char c" for c
    using that by (auto simp: name_char_def less_eq_char_def)
  have ascii: "ascii (uuid_String ?u)" unfolding ascii_def
    using uuid_String_valid(2) [of ?u] low by (simp add: uuid_ok_def)
  let ?s = "(WithProject ''p'' (WithOrganization ''o'' m))\<lparr>om_creationTimestamp := 7\<rparr>"
  have "plain_metadata (\<lambda>_. True) (ResourceReadMetadata klib_std (\<lambda>_. None) (PlainObject ?s) (GenerateTagList (wm_tags ?md)))"
    using m ascii json_text_ascii [OF ascii] json_text_ascii [of "''n''"] json_text_ascii [of "''provisioned''"] json_text_ascii [of "''healthy''"]
    by (simp add: plain_metadata_def json_metadata_def ResourceReadMetadata_def WithProject_def WithOrganization_def
        convertStatusCondition_def convertHealthCondition_def convertProvisioningStatusDetail_def convertHealthStatusDetail_def
        GenerateTagList_def status_defs str_at_def ascii_def Let_def)
  from created_metadata_reads_back [OF m(1) refl this] m(1) show ?thesis
    by (auto simp: Let_def GenerateTagList_def)
qed

section \<open>The vocabulary of the detail\<close>

text \<open>The reasons the API enumerates for the details of the two statuses.\<close>

definition ProvisioningStatusReasons :: "reason set" where
  "ProvisioningStatusReasons =
     {''DependencyFailed'', ''DependencyNotFound'', ''DependencyNotReady'', ''Deprovisioned'', ''Deprovisioning'',
      ''Errored'', ''Provisioned'', ''Provisioning''}"

definition HealthStatusReasons :: "reason set" where
  "HealthStatusReasons = {''Degraded'', ''Healthy'', ''Unknown''}"

text \<open>
  The reasons of the conditions are, one for one, those of the API, so that the conversion of a reason
  can be a cast.
\<close>

lemma condition_reasons_enumerated:
  "ProvisioningStatusReasons =
     {ConditionReasonProvisioning, ConditionReasonProvisioned, ConditionReasonErrored,
      ConditionReasonDeprovisioning, ConditionReasonDeprovisioned, ConditionReasonDependencyNotReady,
      ConditionReasonDependencyFailed, ConditionReasonDependencyNotFound}"
  "HealthStatusReasons = {ConditionReasonHealthy, ConditionReasonDegraded, ConditionReasonUnknown}"
  by (auto simp: ProvisioningStatusReasons_def HealthStatusReasons_def reason_defs)

text \<open>
  What a reconcile records stays within the vocabulary exactly when the typed error of the outcome, if
  it has one, does: the reconciler adds nothing of its own, and filters nothing either.
\<close>

lemma recorded_reason_iff:
  assumes "condition_of err deprovision = Some (s, x, m)"
  shows "x \<in> ProvisioningStatusReasons \<longleftrightarrow>
    (\<forall>e d r n. err = Some e \<longrightarrow> errors_As_prov e = Some (d, r, n) \<longrightarrow> r \<in> ProvisioningStatusReasons)"
  using assms
  by (cases err)
    (auto simp: condition_of_def condition_phase1_def condition_phase2_def condition_reasons_enumerated
      split: if_splits option.splits)

text \<open>
  So a typed error of another vocabulary is projected as it is: with \<open>Terminal\<close> and any reason
  outside the enumeration the detail of the API carries a value its schema does not have.
\<close>

lemma foreign_reason_projected:
  assumes "klib_ok lib" and "x \<notin> ProvisioningStatusReasons"
  shows "\<exists>s. condition_of (Some (Terminal x m)) False = Some (s, x, m) \<and>
    convertProvisioningStatusDetail lib (ManagedObject (SetProvisioningCondition lib r s x m)) = Some (x, m)"
proof -
  have "condition_of (Some (Terminal x m)) False = Some (ConditionFalse, x, m)"
    by (simp add: condition_of_def condition_phase1_def condition_phase2_def Terminal_def newError_def)
  moreover obtain c where
    "GetAvailableCondition lib (SetProvisioningCondition lib r ConditionFalse x m) = Ok c"
    "c_reason c = x" "c_message c = m"
    using GetAvailable_after_Set [OF assms(1)] by blast
  ultimately show ?thesis by (simp add: convertProvisioningStatusDetail_def)
qed

end
