(* ===== verification/Server_Util.thy ===== *)
theory Server_Util
  imports Server_Errors Api_Types
begin

text \<open>
  The helpers of the API servers (\<open>pkg/server/util\<close>): the ownership checks that complete RBAC, the tag
  selector of a query, and reading and writing bodies.  JSON encoding and decoding of a payload are
  arguments.
\<close>

section \<open>Ownership (rbac.go)\<close>

definition AssertOrganizationOwnership :: "'a objmeta_scheme \<Rightarrow> string \<Rightarrow> unit result" where
  "AssertOrganizationOwnership resource organizationID =
     (case fmlookup (om_labels resource) OrganizationLabel of
        None \<Rightarrow> Err (Wrapf '''' (Sentinel ErrConsistency) '': resource missing organization label'')
      | Some i \<Rightarrow> if i \<noteq> organizationID then Err HTTPNotFound else Ok ())"

definition AssertProjectOwnership :: "'a objmeta_scheme \<Rightarrow> string \<Rightarrow> string \<Rightarrow> unit result" where
  "AssertProjectOwnership resource organizationID projectID =
     bind_outcome (AssertOrganizationOwnership resource organizationID) (\<lambda>_.
       case fmlookup (om_labels resource) ProjectLabel of
         None \<Rightarrow> Err (Wrapf '''' (Sentinel ErrConsistency) '': resource missing projectlabel'')
       | Some i \<Rightarrow> if i \<noteq> projectID then Err HTTPNotFound else Ok ())"

section \<open>Tag selectors (tags.go)\<close>

fun decode_tags :: "string list \<Rightarrow> tag list result" where
  "decode_tags [] = Ok []"
| "decode_tags (t # ts) =
     (let parts = str_split (CHR ''='') t
      in if length parts \<noteq> 2 then Err (OAuth2InvalidRequest [Text ''tag decode failed''])
         else bind_outcome (decode_tags ts) (\<lambda>out. Ok (\<lparr>t_name = parts ! 0, t_value = parts ! 1\<rparr> # out)))"

definition DecodeTagSelectorParam :: "string list option \<Rightarrow> tag list option result" where
  "DecodeTagSelectorParam tags =
     (case tags of None \<Rightarrow> Ok None | Some l \<Rightarrow> bind_outcome (decode_tags l) (\<lambda>out. Ok (Some out)))"

section \<open>Bodies (json.go, octet\_stream.go)\<close>

definition WriteJSONResponse ::
    "('v \<Rightarrow> string result) \<Rightarrow> nat \<Rightarrow> 'v \<Rightarrow> body_part response \<Rightarrow> body_part response" where
  "WriteJSONResponse marshal code v rs =
     (case marshal v of
        Ok body \<Rightarrow> WriteBody (Payload body) (WriteHeader code (AddHeader ''Content-Type'' ''application/json'' rs))
      | _ \<Rightarrow> rs)"

definition WriteOctetStreamResponse :: "nat \<Rightarrow> string \<Rightarrow> body_part response \<Rightarrow> body_part response" where
  "WriteOctetStreamResponse code body rs =
     WriteBody (Payload body) (WriteHeader code (AddHeader ''Content-Type'' ''application/octet-stream'' rs))"

text \<open>\<open>body\<close> is what reading the request's body yields.\<close>

definition ReadJSONBody :: "(string \<Rightarrow> 'v result) \<Rightarrow> string result \<Rightarrow> 'v result" where
  "ReadJSONBody unmarshal body =
     (case body of
        Err e \<Rightarrow> Err (Wrapf '''' e '': unable to read request body'')
      | Panic \<Rightarrow> Panic
      | Ok b \<Rightarrow>
          (case unmarshal b of
             Err e \<Rightarrow> Err (WithError (OAuth2InvalidRequest [Text ''the request body is missing or malformed'']) (Some e))
           | r \<Rightarrow> r))"

section \<open>Ownership is checked exactly\<close>

text \<open>
  C34: a resource is handed out exactly when it carries the labels of the organization and the project in
  whose name it was asked for.  A resource that belongs to someone else answers like one that does not
  exist, with the same error for every such resource, so that nothing can be learned about it.
\<close>

theorem AssertProjectOwnership_spec:
  "(AssertProjectOwnership resource o' p = Ok () \<longleftrightarrow>
      fmlookup (om_labels resource) OrganizationLabel = Some o' \<and> fmlookup (om_labels resource) ProjectLabel = Some p) \<and>
   (\<forall>oid pid. fmlookup (om_labels resource) OrganizationLabel = Some oid \<longrightarrow>
      fmlookup (om_labels resource) ProjectLabel = Some pid \<longrightarrow> (oid, pid) \<noteq> (o', p) \<longrightarrow>
      AssertProjectOwnership resource o' p = Err HTTPNotFound) \<and>
   (\<forall>e. AssertProjectOwnership resource o' p = Err e \<longrightarrow> IsHTTPNotFound e \<or> asError e = None) \<and>
   AssertProjectOwnership resource o' p \<noteq> Panic"
  by (auto simp: AssertProjectOwnership_def AssertOrganizationOwnership_def err_simps split: option.splits)

section \<open>Tag selectors round-trip\<close>

definition tag_selector :: "tag \<Rightarrow> string" where
  "tag_selector t = t_name t @ ''='' @ t_value t"

lemma count_eq_one_split:
  "length (str_split c s) = 2 \<longleftrightarrow> count_list s c = 1"
  by (simp add: length_str_split)

lemma decode_tags_Ok:
  "decode_tags (map tag_selector ts) = Ok ts" if "\<forall>t \<in> set ts. CHR ''='' \<notin> set (t_name t) \<and> CHR ''='' \<notin> set (t_value t)"
  using that
proof (induction ts)
  case Nil
  then show ?case by simp
next
  case (Cons t ts)
  then have "str_split (CHR ''='') (tag_selector t) = [t_name t, t_value t]"
    by (simp add: tag_selector_def str_split_append_sep str_split_no_sep)
  with Cons show ?case by simp
qed

lemma decode_tags_result: "decode_tags l = Ok ts \<Longrightarrow> map tag_selector ts = l"
proof (induction l arbitrary: ts)
  case Nil
  then show ?case by simp
next
  case (Cons t l)
  from Cons.prems obtain a b out where p: "str_split (CHR ''='') t = [a, b]" and o: "decode_tags l = Ok out"
    and ts: "ts = \<lparr>t_name = a, t_value = b\<rparr> # out"
    by (auto simp: Let_def bind_outcome_Ok_iff length_Suc_conv numeral_2_eq_2 split: if_splits)
  from p have "t = a @ ''='' @ b" using str_join_split [of "CHR ''=''" t] by simp
  with Cons.IH [OF o] ts show ?case by (simp add: tag_selector_def)
qed

text \<open>
  A tag selector decodes to the tags it was made of, whenever names and values are free of the
  separator; whatever decodes at all encodes to the same selector again, and everything else is answered
  with a bad-request error.
\<close>

theorem DecodeTagSelectorParam_roundtrip:
  "((\<forall>t \<in> set ts. CHR ''='' \<notin> set (t_name t) \<and> CHR ''='' \<notin> set (t_value t)) \<longrightarrow>
      DecodeTagSelectorParam (Some (map tag_selector ts)) = Ok (Some ts)) \<and>
   (DecodeTagSelectorParam (Some l) = Ok (Some ts) \<longrightarrow> map tag_selector ts = l) \<and>
   ((\<exists>e. DecodeTagSelectorParam (Some l) = Err e \<and> IsBadRequest e) \<longleftrightarrow> (\<exists>t \<in> set l. count_list t (CHR ''='') \<noteq> 1))"
proof -
  have fails: "(\<exists>e. decode_tags l = Err e \<and> IsBadRequest e) \<longleftrightarrow> (\<exists>t \<in> set l. count_list t (CHR ''='') \<noteq> 1)" for l
  proof (induction l)
    case (Cons t l)
    have "decode_tags l \<noteq> Panic" by (induction l) (auto simp: Let_def elim!: bind_outcome.elims)
    with Cons show ?case
      by (cases "decode_tags l") (auto simp: Let_def count_eq_one_split err_simps)
  qed simp
  show ?thesis
    using decode_tags_Ok [of ts] decode_tags_result [of l ts] fails [of l]
    by (cases "decode_tags l") (auto simp: DecodeTagSelectorParam_def)
qed

lemma AssertProjectOwnership_spec_witness:
  "AssertProjectOwnership
     (\<lparr>om_name = ''n'', om_generateName = '''', om_namespace = '''',
      om_labels = fmap_of_list [(OrganizationLabel, ''o1''), (ProjectLabel, ''p1'')], om_annotations = fmempty,
      om_finalizers = [], om_creationTimestamp = zero_time, om_deletionTimestamp = None, om_generation = 1, om_resourceVersion = ''1''\<rparr> :: objmeta)
     ''o1'' ''p2'' = Err HTTPNotFound" (is "AssertProjectOwnership ?r _ _ = _")
  using AssertProjectOwnership_spec [of ?r "''o1''" "''p2''"] by simp

lemma DecodeTagSelectorParam_roundtrip_witness:
  "DecodeTagSelectorParam (Some [''a=b'']) = Ok (Some [\<lparr>t_name = ''a'', t_value = ''b''\<rparr>]) \<and>
   (\<exists>e. DecodeTagSelectorParam (Some [''a'']) = Err e \<and> IsBadRequest e)"
  using DecodeTagSelectorParam_roundtrip [of "[\<lparr>t_name = ''a'', t_value = ''b''\<rparr>]" "[''a'']"]
  by (simp add: tag_selector_def)

end
