(* ===== verification/Messaging.thy ===== *)
theory Messaging
  imports References
begin

text \<open>
  Resource events (\<open>pkg/messaging\<close>): the queue that turns changes of a resource into messages
  (\<open>pkg/messaging/kubernetes/messagequeue.go\<close>) and the consumer that deletes what depends on a deleted
  resource (\<open>pkg/messaging/consumer/cascadingdelete.go\<close>).  The Kubernetes client is a record of accesses.
\<close>

section \<open>Envelopes and consumers (types.go, interfaces.go)\<close>

record envelope =
  ev_ResourceID :: string
  ev_DeletionTimestamp :: "time option"

type_synonym 'w consumer = "envelope \<Rightarrow> ('w, unit) proc"

section \<open>The client\<close>

text \<open>\<open>client.ListOptions\<close>: an empty namespace means all of them; the selector is a set of labels.\<close>

record list_options =
  lo_namespace :: string
  lo_selector :: "(string \<times> string) option"

definition DeletePropagationForeground :: string where
  "DeletePropagationForeground = ''Foreground''"

record 'w mqclient =
  mq_Get :: "object_key \<Rightarrow> 'w \<Rightarrow> objmeta result \<times> 'w"
  mq_List :: "list_options \<Rightarrow> 'w \<Rightarrow> objmeta option list result \<times> 'w"
  mq_Delete :: "objmeta \<Rightarrow> string \<Rightarrow> 'w \<Rightarrow> unit result \<times> 'w"

section \<open>Cascading deletion\<close>

record cascading_delete =
  cd_namespace :: string
  cd_resourceLabel :: string

type_synonym cascading_option = "cascading_delete \<Rightarrow> cascading_delete"

definition WithNamespace :: "string \<Rightarrow> cascading_option" where
  "WithNamespace ns c = c\<lparr>cd_namespace := ns\<rparr>"

definition WithResourceLabel :: "string \<Rightarrow> cascading_option" where
  "WithResourceLabel label c = c\<lparr>cd_resourceLabel := label\<rparr>"

definition NewCascadingDelete :: "cascading_option list \<Rightarrow> cascading_delete" where
  "NewCascadingDelete options = foldl (\<lambda>c opt. opt c) \<lparr>cd_namespace = '''', cd_resourceLabel = ''''\<rparr> options"

definition consume_options :: "cascading_delete \<Rightarrow> envelope \<Rightarrow> list_options" where
  "consume_options c e =
     \<lparr>lo_namespace = cd_namespace c,
      lo_selector = (if cd_resourceLabel c \<noteq> '''' then Some (cd_resourceLabel c, ev_ResourceID e) else None)\<rparr>"

definition deleteItem :: "'w mqclient \<Rightarrow> objmeta option \<Rightarrow> ('w, unit) proc" where
  "deleteItem cl item =
     (case item of
        None \<Rightarrow> throw (Wrapf '''' (Sentinel ErrTypeConversion) '': cannot convert from runtime object to client'')
      | Some resource \<Rightarrow>
          if om_deletionTimestamp resource \<noteq> None then return ()
          else call (mq_Delete cl resource DeletePropagationForeground))"

definition Consume :: "'w mqclient \<Rightarrow> cascading_delete \<Rightarrow> 'w consumer" where
  "Consume cl c e =
     (if ev_DeletionTimestamp e = None then return ()
      else bindP (call (mq_List cl (consume_options c e))) (each_item (deleteItem cl)))"

section \<open>The queue\<close>

text \<open>
  \<open>prototype\<close> says whether a copy of the prototype is a \<open>client.Object\<close>.  The reconciler's result is
  always the zero one; what matters is the error, which puts the event back on the queue.
\<close>

definition envelope_of :: "objmeta \<Rightarrow> envelope" where
  "envelope_of ob = \<lparr>ev_ResourceID = om_name ob, ev_DeletionTimestamp = om_deletionTimestamp ob\<rparr>"

definition mq_Reconcile :: "bool \<Rightarrow> 'w mqclient \<Rightarrow> 'w consumer list \<Rightarrow> object_key \<Rightarrow> ('w, unit) proc" where
  "mq_Reconcile prototype cl consumers key =
     (if \<not> prototype
      then throw (Wrapf '''' (Sentinel ErrUnsupported) '': prototype copy could not be cast to client.Object'')
      else bindR (call (mq_Get cl key)) (\<lambda>r.
        case r of
          Err e \<Rightarrow> if IsNotFound e then return () else throw e
        | Panic \<Rightarrow> Ret Panic
        | Ok ob \<Rightarrow> each_item (\<lambda>consume. consume (envelope_of ob)) consumers))"

text \<open>
  The queue itself: \<open>None\<close> in the place of its configuration, its scheme or its client is the nil it is
  created with.  The controller runtime is a record of arguments: \<open>rl_Complete\<close> registers a reconciler
  for the objects of a prototype with a manager.
\<close>

record ('cfg, 'sch, 'w) message_queue =
  q_client :: "'w mqclient option"
  q_config :: "'cfg option"
  q_scheme :: "'sch option"
  q_prototype :: bool
  q_consumers :: "'w consumer list"

record 'sch cr_options =
  cr_Scheme :: "'sch option"
  cr_LeaderElection :: bool
  cr_LeaderElectionID :: string

record ('cfg, 'sch, 'mgr, 'w) runtime_lib =
  rl_NewManager :: "'cfg option \<Rightarrow> 'sch cr_options \<Rightarrow> 'mgr result"
  rl_GetClient :: "'mgr \<Rightarrow> 'w mqclient"
  rl_Complete :: "'mgr \<Rightarrow> bool \<Rightarrow> (object_key \<Rightarrow> ('w, unit) proc) \<Rightarrow> 'mgr result"
  rl_Start :: "'mgr \<Rightarrow> unit result"

definition queue_New :: "'cfg \<Rightarrow> 'sch \<Rightarrow> bool \<Rightarrow> ('cfg, 'sch, 'w) message_queue" where
  "queue_New config scheme ob =
     \<lparr>q_client = None, q_config = Some config, q_scheme = Some scheme, q_prototype = ob, q_consumers = []\<rparr>"

definition NewForManager :: "bool \<Rightarrow> ('cfg, 'sch, 'w) message_queue" where
  "NewForManager ob = \<lparr>q_client = None, q_config = None, q_scheme = None, q_prototype = ob, q_consumers = []\<rparr>"

text \<open>The method of the queue; without a client the embedded nil interface is called.\<close>

definition queue_Reconcile :: "('cfg, 'sch, 'w) message_queue \<Rightarrow> object_key \<Rightarrow> ('w, unit) proc" where
  "queue_Reconcile q key =
     (case q_client q of
        Some cl \<Rightarrow> mq_Reconcile (q_prototype q) cl (q_consumers q) key
      | None \<Rightarrow> if q_prototype q then Ret Panic else
          throw (Wrapf '''' (Sentinel ErrUnsupported) '': prototype copy could not be cast to client.Object''))"

definition SetupWithManager ::
    "('cfg, 'sch, 'mgr, 'w) runtime_lib \<Rightarrow> 'mgr \<Rightarrow> 'w consumer list \<Rightarrow> ('cfg, 'sch, 'w) message_queue \<Rightarrow>
     'mgr result \<times> ('cfg, 'sch, 'w) message_queue" where
  "SetupWithManager rl manager consumers q =
     (let q = q\<lparr>q_consumers := consumers, q_client := Some (rl_GetClient rl manager)\<rparr>
      in (rl_Complete rl manager (q_prototype q) (queue_Reconcile q), q))"

text \<open>\<open>filepath.Base\<close>.\<close>

definition path_Base :: "string \<Rightarrow> string" where
  "path_Base path =
     (if path = '''' then ''.''
      else
        (let r = dropWhile (\<lambda>c. c = CHR ''/'') (rev path)
         in if r = '''' then ''/'' else rev (takeWhile (\<lambda>c. c \<noteq> CHR ''/'') r)))"

definition queue_Run ::
    "('cfg, 'sch, 'mgr, 'w) runtime_lib \<Rightarrow> string \<Rightarrow> 'w consumer list \<Rightarrow> ('cfg, 'sch, 'w) message_queue \<Rightarrow>
     unit result \<times> ('cfg, 'sch, 'w) message_queue" where
  "queue_Run rl arg0 consumers q =
     (let options = \<lparr>cr_Scheme = q_scheme q, cr_LeaderElection = True, cr_LeaderElectionID = path_Base arg0\<rparr> in
      case rl_NewManager rl (q_config q) options of
        Err e \<Rightarrow> (Err e, q)
      | Panic \<Rightarrow> (Panic, q)
      | Ok manager \<Rightarrow>
          (case SetupWithManager rl manager consumers q of
             (Ok manager, q) \<Rightarrow> (rl_Start rl manager, q)
           | (Err e, q) \<Rightarrow> (Err e, q)
           | (Panic, q) \<Rightarrow> (Panic, q)))"

text \<open>
  A queue that runs has registered a reconciler that delivers to the consumers it was given, over the
  client of its manager, and under leader election.
\<close>

lemma queue_Run_registers:
  assumes "queue_Run rl arg0 consumers q = (Ok (), q')"
  shows "\<exists>manager manager'.
    rl_NewManager rl (q_config q) \<lparr>cr_Scheme = q_scheme q, cr_LeaderElection = True, cr_LeaderElectionID = path_Base arg0\<rparr> = Ok manager \<and>
    rl_Complete rl manager (q_prototype q) (mq_Reconcile (q_prototype q) (rl_GetClient rl manager) consumers) = Ok manager' \<and>
    rl_Start rl manager' = Ok ()"
proof -
  have "queue_Reconcile (q\<lparr>q_consumers := consumers, q_client := Some cl\<rparr>) = mq_Reconcile (q_prototype q) cl consumers" for cl
    by (rule ext) (simp add: queue_Reconcile_def)
  with assms show ?thesis
    by (auto simp: queue_Run_def SetupWithManager_def Let_def split: outcome.splits)
qed

section \<open>The contract of consumers\<close>

text \<open>
  What the queue relies on: a consumer that succeeds has done its work for the event, and what one
  consumer has done is not undone by another.  \<open>good\<close> is what the consumers need of the world.
\<close>

locale event_consumers =
  fixes consume :: "'c \<Rightarrow> 'w consumer"
    and served :: "'c \<Rightarrow> envelope \<Rightarrow> 'w \<Rightarrow> bool"
    and good :: "'w \<Rightarrow> bool"
  assumes consume_good: "good w \<Longrightarrow> run (consume c e) w = (r, w') \<Longrightarrow> good w'"
    and consume_serves: "good w \<Longrightarrow> run (consume c e) w = (Ok (), w') \<Longrightarrow> served c e w'"
    and served_stable: "good w \<Longrightarrow> served c e w \<Longrightarrow> run (consume c' e') w = (r, w') \<Longrightarrow> served c e w'"
begin

lemma deliver_all:
  assumes "good w" and "run (each_item (\<lambda>consume. consume e) (map consume cs)) w = (Ok (), w')"
  shows "\<forall>c \<in> set cs. served c e w'"
proof -
  have "good w' \<and> (\<forall>c \<in> D \<union> set cs. served c e w')"
    if "good w" "\<forall>c \<in> D. served c e w" "run (each_item (\<lambda>consume. consume e) (map consume cs)) w = (Ok (), w')" for D w
    using that
  proof (induction cs arbitrary: w D)
    case Nil
    then show ?case by simp
  next
    case (Cons c cs)
    from Cons.prems(3) obtain w1 where one: "run (consume c e) w = (Ok (), w1)"
      and rest: "run (each_item (\<lambda>consume. consume e) (map consume cs)) w1 = (Ok (), w')"
      by (auto elim: run_bindP_OkD)
    have "\<forall>d \<in> insert c D. served d e w1"
      using Cons.prems(1,2) one by (blast intro: consume_serves served_stable)
    from Cons.IH [OF consume_good [OF Cons.prems(1) one] this rest] show ?case by auto
  qed
  from this [of w "{}"] assms show ?thesis by simp
qed

end

section \<open>What the server does\<close>

definition object_key :: "objmeta \<Rightarrow> object_key" where
  "object_key ob = (om_namespace ob, om_name ob)"

fun selects :: "(string \<times> string) option \<Rightarrow> smap \<Rightarrow> bool" where
  "selects None labels \<longleftrightarrow> True"
| "selects (Some (k, v)) labels \<longleftrightarrow> fmlookup labels k = Some v"

definition lists :: "list_options \<Rightarrow> objmeta \<Rightarrow> bool" where
  "lists opts ob \<longleftrightarrow>
     (lo_namespace opts = '''' \<or> om_namespace ob = lo_namespace opts) \<and> selects (lo_selector opts) (om_labels ob)"

text \<open>
  A list answers with the stored objects that the options select.  A delete marks the object or removes
  it; with foreground propagation it may do so to others as well, but it neither creates, relabels nor
  revives anything.  \<open>requests\<close> is the record of the delete requests that were made.
\<close>

definition listed ::
    "('w \<Rightarrow> object_key \<Rightarrow> objmeta option) \<Rightarrow> ('w \<Rightarrow> (objmeta \<times> string) list) \<Rightarrow> list_options \<Rightarrow> 'w \<Rightarrow>
     objmeta option list result \<times> 'w \<Rightarrow> bool" where
  "listed stored requests opts w rw \<longleftrightarrow>
     stored (snd rw) = stored w \<and> requests (snd rw) = requests w \<and>
     (\<forall>items. fst rw = Ok items \<longrightarrow>
        (\<forall>ob. Some ob \<in> set items \<longleftrightarrow> stored w (object_key ob) = Some ob \<and> lists opts ob))"

text \<open>One state of the store follows another by deletions only.\<close>

definition wanes :: "(object_key \<Rightarrow> objmeta option) \<Rightarrow> (object_key \<Rightarrow> objmeta option) \<Rightarrow> bool" where
  "wanes s s' \<longleftrightarrow>
     (\<forall>key ob'. s' key = Some ob' \<longrightarrow>
        (\<exists>ob. s key = Some ob \<and> om_labels ob' = om_labels ob \<and>
           (om_deletionTimestamp ob \<noteq> None \<longrightarrow> om_deletionTimestamp ob' \<noteq> None)))"

definition deleted ::
    "('w \<Rightarrow> object_key \<Rightarrow> objmeta option) \<Rightarrow> ('w \<Rightarrow> (objmeta \<times> string) list) \<Rightarrow> objmeta \<Rightarrow> string \<Rightarrow> 'w \<Rightarrow>
     unit result \<times> 'w \<Rightarrow> bool" where
  "deleted stored requests ob policy w rw \<longleftrightarrow>
     requests (snd rw) = requests w @ [(ob, policy)] \<and> wanes (stored w) (stored (snd rw)) \<and>
     (fst rw = Ok () \<longrightarrow>
        (\<forall>ob'. stored (snd rw) (object_key ob) = Some ob' \<longrightarrow> om_deletionTimestamp ob' \<noteq> None))"

definition mq_server ::
    "'w mqclient \<Rightarrow> ('w \<Rightarrow> object_key \<Rightarrow> objmeta option) \<Rightarrow> ('w \<Rightarrow> (objmeta \<times> string) list) \<Rightarrow> bool" where
  "mq_server cl stored requests \<longleftrightarrow>
     (\<forall>w key ob. stored w key = Some ob \<longrightarrow> object_key ob = key) \<and>
     (\<forall>opts w. listed stored requests opts w (mq_List cl opts w)) \<and>
     (\<forall>ob policy w. deleted stored requests ob policy w (mq_Delete cl ob policy w))"

lemma mq_server_key: "mq_server cl stored requests \<Longrightarrow> stored w key = Some ob \<Longrightarrow> object_key ob = key"
  unfolding mq_server_def by blast

lemma mq_server_list:
  assumes "mq_server cl stored requests" and "mq_List cl opts w = (r, w')"
  shows "stored w' = stored w" and "requests w' = requests w"
    and "r = Ok items \<Longrightarrow> Some ob \<in> set items \<longleftrightarrow> stored w (object_key ob) = Some ob \<and> lists opts ob"
proof -
  from assms have "listed stored requests opts w (r, w')" unfolding mq_server_def by metis
  then show "stored w' = stored w" and "requests w' = requests w"
    and "r = Ok items \<Longrightarrow> Some ob \<in> set items \<longleftrightarrow> stored w (object_key ob) = Some ob \<and> lists opts ob"
    by (simp_all add: listed_def)
qed

lemma mq_server_delete:
  assumes "mq_server cl stored requests" and "mq_Delete cl ob policy w = (r, w')"
  shows "requests w' = requests w @ [(ob, policy)]" and "wanes (stored w) (stored w')"
    and "r = Ok () \<Longrightarrow> stored w' (object_key ob) = Some ob' \<Longrightarrow> om_deletionTimestamp ob' \<noteq> None"
proof -
  from assms have "deleted stored requests ob policy w (r, w')" unfolding mq_server_def by metis
  then show "requests w' = requests w @ [(ob, policy)]" and "wanes (stored w) (stored w')"
    and "r = Ok () \<Longrightarrow> stored w' (object_key ob) = Some ob' \<Longrightarrow> om_deletionTimestamp ob' \<noteq> None"
    by (simp_all add: deleted_def)
qed

lemma wanes_refl [simp]: "wanes s s"
  by (simp add: wanes_def)

lemma wanes_trans: "wanes s s' \<Longrightarrow> wanes s' s'' \<Longrightarrow> wanes s s''"
  unfolding wanes_def by metis

text \<open>Under the server, an object that the options select was selected before, under the same key.\<close>

lemma wanes_selected:
  assumes srv: "mq_server cl stored requests" and wane: "wanes (stored w) (stored w')"
    and ob': "stored w' key = Some ob'" and sel: "lists opts ob'"
  obtains ob where "stored w key = Some ob" and "lists opts ob" and "object_key ob = key"
    and "om_deletionTimestamp ob \<noteq> None \<longrightarrow> om_deletionTimestamp ob' \<noteq> None"
proof -
  from wane ob' obtain ob where ob: "stored w key = Some ob" "om_labels ob' = om_labels ob"
    and keep: "om_deletionTimestamp ob \<noteq> None \<longrightarrow> om_deletionTimestamp ob' \<noteq> None"
    unfolding wanes_def by blast
  from mq_server_key [OF srv ob(1)] mq_server_key [OF srv ob'] have "om_namespace ob = om_namespace ob'"
    by (auto simp: object_key_def)
  with sel ob(2) have "lists opts ob" by (simp add: lists_def)
  with ob(1) keep mq_server_key [OF srv ob(1)] that show ?thesis by blast
qed

section \<open>Deletion spreads\<close>

text \<open>Nothing that a list of the consumer would select is still live.\<close>

definition cascaded ::
    "('w \<Rightarrow> object_key \<Rightarrow> objmeta option) \<Rightarrow> cascading_delete \<Rightarrow> envelope \<Rightarrow> 'w \<Rightarrow> bool" where
  "cascaded stored c e w \<longleftrightarrow>
     (ev_DeletionTimestamp e \<noteq> None \<longrightarrow>
      (\<forall>key ob. stored w key = Some ob \<longrightarrow> lists (consume_options c e) ob \<longrightarrow> om_deletionTimestamp ob \<noteq> None))"

lemma run_deleteItem:
  assumes srv: "mq_server cl stored requests" and run: "run (deleteItem cl item) w = (r, w')"
  shows "wanes (stored w) (stored w')"
    and "\<And>ob ob'. item = Some ob \<Longrightarrow> r = Ok () \<Longrightarrow> stored w (object_key ob) = Some ob \<or> om_deletionTimestamp ob = None \<Longrightarrow>
      stored w' (object_key ob) = Some ob' \<Longrightarrow> om_deletionTimestamp ob' \<noteq> None"
    and "\<exists>new. requests w' = requests w @ new \<and>
      (\<forall>(ob, policy) \<in> set new. item = Some ob \<and> om_deletionTimestamp ob = None \<and> policy = DeletePropagationForeground)"
  using run mq_server_delete [OF srv]
  by (auto simp: deleteItem_def wanes_def split: option.splits if_splits)

lemma run_delete_items:
  assumes srv: "mq_server cl stored requests" and run: "run (each_item (deleteItem cl) items) w = (r, w')"
  shows "wanes (stored w) (stored w') \<and>
    (r = Ok () \<longrightarrow>
      (\<forall>ob ob'. Some ob \<in> set items \<longrightarrow> om_deletionTimestamp ob = None \<longrightarrow>
         stored w' (object_key ob) = Some ob' \<longrightarrow> om_deletionTimestamp ob' \<noteq> None)) \<and>
    (\<exists>new. requests w' = requests w @ new \<and>
      (\<forall>(ob, policy) \<in> set new. Some ob \<in> set items \<and> om_deletionTimestamp ob = None \<and> policy = DeletePropagationForeground))"
  using run
proof (induction items arbitrary: w)
  case Nil
  then show ?case by simp
next
  case (Cons item items)
  obtain r1 w1 where one: "run (deleteItem cl item) w = (r1, w1)" by (cases "run (deleteItem cl item) w")
  note step = run_deleteItem [OF srv one]
  show ?case
  proof (cases "r1 = Ok ()")
    case True
    with Cons.prems one have rest: "run (each_item (deleteItem cl) items) w1 = (r, w')"
      by (simp add: run_bindP)
    note ih = Cons.IH [OF rest]
    have gone: "om_deletionTimestamp ob' \<noteq> None"
      if "item = Some ob" "om_deletionTimestamp ob = None" "stored w' (object_key ob) = Some ob'" for ob ob'
      using that ih step(2) [OF that(1) True] unfolding wanes_def by metis
    from ih obtain new' where new': "requests w' = requests w1 @ new'"
      "\<forall>(ob, policy) \<in> set new'. Some ob \<in> set items \<and> om_deletionTimestamp ob = None \<and> policy = DeletePropagationForeground"
      by blast
    from step(3) obtain new where new: "requests w1 = requests w @ new"
      "\<forall>(ob, policy) \<in> set new. item = Some ob \<and> om_deletionTimestamp ob = None \<and> policy = DeletePropagationForeground"
      by blast
    have reqs: "requests w' = requests w @ (new @ new')"
      "\<forall>(ob, policy) \<in> set (new @ new'). Some ob \<in> set (item # items) \<and> om_deletionTimestamp ob = None \<and> policy = DeletePropagationForeground"
      using new new' by auto
    show ?thesis
      using wanes_trans [OF step(1)] ih gone reqs by (intro conjI) (auto intro!: exI [of _ "new @ new'"])
  next
    case False
    with Cons.prems one have "r = r1" "w' = w1" by (auto simp: run_bindP split: outcome.splits)
    with step False show ?thesis by (auto 0 3)
  qed
qed

lemma run_Consume:
  assumes srv: "mq_server cl stored requests" and run: "run (Consume cl c e) w = (r, w')"
  shows "wanes (stored w) (stored w')"
    and "r = Ok () \<Longrightarrow> cascaded stored c e w'"
    and "\<exists>new. requests w' = requests w @ new \<and>
      (\<forall>(ob, policy) \<in> set new. ev_DeletionTimestamp e \<noteq> None \<and> stored w (object_key ob) = Some ob \<and>
         lists (consume_options c e) ob \<and> om_deletionTimestamp ob = None \<and> policy = DeletePropagationForeground)"
proof -
  have "wanes (stored w) (stored w') \<and> (r = Ok () \<longrightarrow> cascaded stored c e w') \<and>
    (\<exists>new. requests w' = requests w @ new \<and>
      (\<forall>(ob, policy) \<in> set new. ev_DeletionTimestamp e \<noteq> None \<and> stored w (object_key ob) = Some ob \<and>
         lists (consume_options c e) ob \<and> om_deletionTimestamp ob = None \<and> policy = DeletePropagationForeground))"
  proof (cases "ev_DeletionTimestamp e")
    case None
    with run show ?thesis by (simp add: Consume_def cascaded_def)
  next
    case (Some t)
    obtain l w1 where l: "mq_List cl (consume_options c e) w = (l, w1)"
      by (cases "mq_List cl (consume_options c e) w")
    note list = mq_server_list [OF srv l]
    show ?thesis
    proof (cases l)
      case (Ok items)
      with run Some l have del: "run (each_item (deleteItem cl) items) w1 = (r, w')"
        by (simp add: Consume_def run_bindP)
      note items = run_delete_items [OF srv del, unfolded list(1,2)]
      have "cascaded stored c e w'" if "r = Ok ()"
        unfolding cascaded_def
      proof (intro impI allI)
        fix key ob' assume ob': "stored w' key = Some ob'" and sel: "lists (consume_options c e) ob'"
        from items have "wanes (stored w) (stored w')" by blast
        from wanes_selected [OF srv this ob' sel] obtain ob where ob: "stored w key = Some ob"
          "lists (consume_options c e) ob" "object_key ob = key"
          and keep: "om_deletionTimestamp ob \<noteq> None \<longrightarrow> om_deletionTimestamp ob' \<noteq> None" by metis
        then have "Some ob \<in> set items" using list(3) [OF Ok] by simp
        with items that ob ob' keep show "om_deletionTimestamp ob' \<noteq> None" by blast
      qed
      moreover have "Some ob \<in> set items \<Longrightarrow> stored w (object_key ob) = Some ob \<and> lists (consume_options c e) ob" for ob
        using list(3) [OF Ok] by simp
      ultimately show ?thesis
        using items Some by (auto 0 3 simp: case_prod_beta)
    qed (use run Some l list in \<open>auto simp: Consume_def run_bindP\<close>)
  qed
  then show "wanes (stored w) (stored w')" and "r = Ok () \<Longrightarrow> cascaded stored c e w'"
    and "\<exists>new. requests w' = requests w @ new \<and>
      (\<forall>(ob, policy) \<in> set new. ev_DeletionTimestamp e \<noteq> None \<and> stored w (object_key ob) = Some ob \<and>
         lists (consume_options c e) ob \<and> om_deletionTimestamp ob = None \<and> policy = DeletePropagationForeground)"
    by blast+
qed

lemma cascaded_wanes:
  assumes srv: "mq_server cl stored requests" and casc: "cascaded stored c e w"
    and wane: "wanes (stored w) (stored w')"
  shows "cascaded stored c e w'"
  unfolding cascaded_def
proof (intro impI allI)
  fix key ob' assume e: "ev_DeletionTimestamp e \<noteq> None" and ob': "stored w' key = Some ob'"
    and sel: "lists (consume_options c e) ob'"
  from wanes_selected [OF srv wane ob' sel] casc e show "om_deletionTimestamp ob' \<noteq> None"
    unfolding cascaded_def by metis
qed

interpretation cascade: event_consumers "Consume cl" "cascaded stored" "\<lambda>w. mq_server cl stored requests"
  for cl stored requests
  by unfold_locales (auto dest: run_Consume intro: cascaded_wanes run_Consume(1))

text \<open>
  C35: when the queue acknowledges the event of a resource that is being deleted, no resource that
  depends on it by the consumers' label is left live: each is gone or being deleted itself.  An event
  whose processing failed is not acknowledged.
\<close>

theorem acknowledged_deletion_cascades:
  assumes "mq_server cl stored requests"
    and "run (mq_Reconcile True q (map (Consume cl) cs) key) w = (Ok (), w')"
    and "mq_Get q key w = (Ok ob, w1)" and "om_deletionTimestamp ob \<noteq> None"
  shows "\<forall>c \<in> set cs. \<forall>k r. stored w' k = Some r \<longrightarrow> lists (consume_options c (envelope_of ob)) r \<longrightarrow>
    om_deletionTimestamp r \<noteq> None"
proof -
  from assms(2,3) have "run (each_item (\<lambda>consume. consume (envelope_of ob)) (map (Consume cl) cs)) w1 = (Ok (), w')"
    by (simp add: mq_Reconcile_def run_bindR)
  from cascade.deliver_all [OF assms(1) this] assms(4) show ?thesis
    by (simp add: cascaded_def envelope_of_def)
qed

text \<open>
  Whatever event arrives and however the server answers, the consumer asks for the deletion of
  nothing but live resources that its namespace and label select, in the foreground, and of nothing at
  all when the event's resource is live.
\<close>

theorem Consume_only_dependants:
  assumes "mq_server cl stored requests" and "run (Consume cl c e) w = (r, w')"
  shows "\<exists>new. requests w' = requests w @ new \<and>
    (\<forall>(ob, policy) \<in> set new. ev_DeletionTimestamp e \<noteq> None \<and> stored w (object_key ob) = Some ob \<and>
       (cd_namespace c = '''' \<or> om_namespace ob = cd_namespace c) \<and>
       (cd_resourceLabel c \<noteq> '''' \<longrightarrow> fmlookup (om_labels ob) (cd_resourceLabel c) = Some (ev_ResourceID e)) \<and>
       om_deletionTimestamp ob = None \<and> policy = DeletePropagationForeground)"
  using run_Consume(3) [OF assms] by (fastforce simp: lists_def consume_options_def split: if_splits)

text \<open>A server in memory: the objects, and the delete requests it has seen; a delete removes at once.\<close>

type_synonym mem = "objmeta list \<times> (objmeta \<times> string) list"

definition mem_stored :: "mem \<Rightarrow> object_key \<Rightarrow> objmeta option" where
  "mem_stored m key = List.find (\<lambda>ob. object_key ob = key) (fst m)"

definition mem_client :: "mem mqclient" where
  "mem_client =
     \<lparr>mq_Get = (\<lambda>key m. (case mem_stored m key of Some ob \<Rightarrow> Ok ob | None \<Rightarrow> Err (APIError StatusNotFound ''''), m)),
      mq_List = (\<lambda>opts m. (Ok (map Some (filter (\<lambda>ob. mem_stored m (object_key ob) = Some ob \<and> lists opts ob) (fst m))), m)),
      mq_Delete = (\<lambda>ob policy m.
        (Ok (), (filter (\<lambda>x. object_key x \<noteq> object_key ob) (fst m), snd m @ [(ob, policy)])))\<rparr>"

lemma find_filter_Some:
  "List.find P (filter Q xs) = Some x \<Longrightarrow> (\<And>y. P y \<Longrightarrow> Q y) \<Longrightarrow> List.find P xs = Some x"
  by (induction xs) (auto split: if_splits)

lemma find_SomeD: "List.find P xs = Some x \<Longrightarrow> P x \<and> x \<in> set xs"
  by (induction xs) (auto split: if_splits)

lemma mem_server: "mq_server mem_client mem_stored snd"
proof -
  have key: "mem_stored m key = Some ob \<Longrightarrow> object_key ob = key" for m key ob
    by (auto simp: mem_stored_def dest: find_SomeD)
  have lst: "listed mem_stored snd opts m (mq_List mem_client opts m)" for opts m
    by (auto simp: listed_def mem_client_def mem_stored_def dest: find_SomeD)
  have "wanes (mem_stored m) (mem_stored (filter (\<lambda>x. object_key x \<noteq> object_key ob) (fst m), l))" for m ob l
    unfolding wanes_def
  proof (intro allI impI)
    fix key ob' assume f: "mem_stored (filter (\<lambda>x. object_key x \<noteq> object_key ob) (fst m), l) key = Some ob'"
    then have "key \<noteq> object_key ob" by (auto simp: mem_stored_def dest!: find_SomeD)
    with f have "mem_stored m key = Some ob'"
      by (auto simp: mem_stored_def intro: find_filter_Some)
    then show "\<exists>ob0. mem_stored m key = Some ob0 \<and> om_labels ob' = om_labels ob0 \<and>
        (om_deletionTimestamp ob0 \<noteq> None \<longrightarrow> om_deletionTimestamp ob' \<noteq> None)" by blast
  qed
  then have "deleted mem_stored snd ob policy m (mq_Delete mem_client ob policy m)" for ob policy m
    by (auto simp: deleted_def mem_client_def mem_stored_def dest!: find_SomeD)
  with key lst show ?thesis unfolding mq_server_def by blast
qed

definition sample_object :: "string \<Rightarrow> (string \<times> string) list \<Rightarrow> time option \<Rightarrow> objmeta" where
  "sample_object name labels deletion =
     \<lparr>om_name = name, om_generateName = '''', om_namespace = ''ns'', om_labels = fmap_of_list labels,
      om_annotations = fmempty, om_finalizers = [], om_creationTimestamp = 0, om_deletionTimestamp = deletion,
      om_generation = 1, om_resourceVersion = ''1''\<rparr>"

definition sample_mem :: mem where
  "sample_mem =
     ([sample_object ''p1'' [] (Some 5), sample_object ''child'' [(''project'', ''p1'')] None,
       sample_object ''other'' [(''project'', ''p2'')] None], [])"

definition sample_consumer :: cascading_delete where
  "sample_consumer = NewCascadingDelete [WithNamespace ''ns'', WithResourceLabel ''project'']"

lemmas sample_defs =
  sample_mem_def sample_object_def sample_consumer_def NewCascadingDelete_def WithNamespace_def WithResourceLabel_def
  mem_client_def mem_stored_def object_key_def lists_def consume_options_def envelope_of_def

definition sample_after :: mem where
  "sample_after =
     ([sample_object ''p1'' [] (Some 5), sample_object ''other'' [(''project'', ''p2'')] None],
      [(sample_object ''child'' [(''project'', ''p1'')] None, DeletePropagationForeground)])"

lemma acknowledged_deletion_cascades_witness:
  "mem_stored sample_mem (''ns'', ''child'') = Some (sample_object ''child'' [(''project'', ''p1'')] None) \<and>
   mem_stored sample_after (''ns'', ''child'') \<noteq> Some (sample_object ''child'' [(''project'', ''p1'')] None)"
proof -
  let ?child = "sample_object ''child'' [(''project'', ''p1'')] None"
  have "run (mq_Reconcile True mem_client (map (Consume mem_client) [sample_consumer]) (''ns'', ''p1'')) sample_mem =
      (Ok (), sample_after)"
    by (simp add: mq_Reconcile_def Consume_def deleteItem_def run_bindR run_bindP sample_after_def sample_defs)
  from acknowledged_deletion_cascades [OF mem_server this, of "sample_object ''p1'' [] (Some 5)" sample_mem]
  have "mem_stored sample_after (''ns'', ''child'') \<noteq> Some ?child"
    by (fastforce simp: sample_defs)
  then show ?thesis by (simp add: sample_defs)
qed

lemma Consume_only_dependants_witness:
  "\<exists>new. snd sample_after = snd sample_mem @ new \<and>
    (\<forall>(ob, policy) \<in> set new. om_deletionTimestamp ob = None \<and> policy = DeletePropagationForeground)"
proof -
  have "run (Consume mem_client sample_consumer \<lparr>ev_ResourceID = ''p1'', ev_DeletionTimestamp = Some 5\<rparr>) sample_mem =
      (Ok (), sample_after)"
    by (simp add: Consume_def deleteItem_def run_bindP sample_after_def sample_defs)
  from Consume_only_dependants [OF mem_server this] show ?thesis by fast
qed

end
