(* ===== verification/Http_Client.thy ===== *)
theory Http_Client
  imports Reconciler
begin

text \<open>
  HTTP clients between services (\<open>pkg/client/http.go\<close>): trust in the server's certificate authority, the
  client certificate and its reloading, and signed payloads.  The Kubernetes client is the access that
  reads a secret; X.509, JSON and JOSE are arguments.
\<close>

section \<open>Options\<close>

record http_options =
  ho_service :: string
  ho_host :: string
  ho_secretNamespace :: string
  ho_secretName :: string

definition NewHTTPOptions :: "string \<Rightarrow> http_options" where
  "NewHTTPOptions service = \<lparr>ho_service = service, ho_host = '''', ho_secretNamespace = '''', ho_secretName = ''''\<rparr>"

text \<open>Registering a flag stores its default; the flags are their names with those defaults.\<close>

definition HTTPOptions_AddFlags :: "http_options \<Rightarrow> http_options \<times> (string \<times> string) list" where
  "HTTPOptions_AddFlags opts =
     (opts\<lparr>ho_host := '''', ho_secretNamespace := '''', ho_secretName := ''''\<rparr>,
      [(ho_service opts @ ''-host'', ''''), (ho_service opts @ ''-ca-secret-namespace'', ''''),
       (ho_service opts @ ''-ca-secret-name'', '''')])"

record client_options =
  co_secretNamespace :: string
  co_secretName :: string
  co_reloadInterval :: duration

definition defaultClientCertificateReloadInterval :: duration where
  "defaultClientCertificateReloadInterval = 24 * 60 * 60 * second"

definition HTTPClientOptions_AddFlags ::
    "client_options \<Rightarrow> client_options \<times> (string \<times> string) list \<times> (string \<times> duration) list" where
  "HTTPClientOptions_AddFlags opts =
     (opts\<lparr>co_reloadInterval := defaultClientCertificateReloadInterval\<rparr>,
      [(''client-certificate-namespace'', co_secretNamespace opts), (''client-certificate-name'', co_secretName opts)],
      [(''client-certificate-reload-interval'', defaultClientCertificateReloadInterval)])"

section \<open>Secrets and certificates\<close>

definition SecretTypeTLS :: string where "SecretTypeTLS = ''kubernetes.io/tls''"
definition TLSCertKey :: string where "TLSCertKey = ''tls.crt''"
definition TLSPrivateKeyKey :: string where "TLSPrivateKeyKey = ''tls.key''"

record tls_secret =
  ts_type :: string
  ts_data :: smap

type_synonym 'w secret_reader = "object_key \<Rightarrow> 'w \<Rightarrow> tls_secret result \<times> 'w"

text \<open>The private and public keys: RSA, or of another type.\<close>

datatype 'k pkey = RSA 'k | OtherKey

definition secret_error :: "string \<Rightarrow> gerror" where
  "secret_error msg = Wrapf '''' (Sentinel ErrSecretFormatError) ('': '' @ msg)"

text \<open>\<open>key_pair\<close> stands for \<open>tls.X509KeyPair\<close>.\<close>

definition loadTLSCertificate ::
    "(string \<Rightarrow> string \<Rightarrow> 'cert result) \<Rightarrow> client_options \<Rightarrow> 'w secret_reader \<Rightarrow> ('w, 'cert) proc" where
  "loadTLSCertificate key_pair opts get_secret =
     bindP (call (get_secret (co_secretNamespace opts, co_secretName opts))) (\<lambda>sec.
       if ts_type sec \<noteq> SecretTypeTLS then throw (secret_error ''certificate not of type kubernetes.io/tls'')
       else (case fmlookup (ts_data sec) TLSCertKey of
          None \<Rightarrow> throw (secret_error ''certificate missing tls.crt'')
        | Some cert \<Rightarrow>
            (case fmlookup (ts_data sec) TLSPrivateKeyKey of
               None \<Rightarrow> throw (secret_error ''certificate missing tls.key'')
             | Some key \<Rightarrow> Ret (key_pair cert key))))"

section \<open>The source of client certificates\<close>

text \<open>
  \<open>now\<close> and \<open>loader\<close> are the readings of the clock and the answer of the loader at a call; the
  certificate is a pointer.  A handshake also tells whether it called the loader.
\<close>

record 'cert cert_source =
  cs_current :: "'cert option"
  cs_nextCheck :: time
  cs_reloadInterval :: duration

definition newTLSClientCertificateSource :: "duration \<Rightarrow> time \<Rightarrow> 'cert result \<Rightarrow> 'cert cert_source result" where
  "newTLSClientCertificateSource reloadInterval now loader =
     bind_outcome loader (\<lambda>certificate.
       Ok \<lparr>cs_current = Some certificate,
           cs_nextCheck = (if reloadInterval > 0 then now + reloadInterval else zero_time),
           cs_reloadInterval = reloadInterval\<rparr>)"

definition GetClientCertificate ::
    "time \<Rightarrow> 'cert result \<Rightarrow> time \<Rightarrow> 'cert cert_source \<Rightarrow> 'cert option result \<times> 'cert cert_source \<times> bool" where
  "GetClientCertificate now loader now' s =
     (if cs_reloadInterval s \<le> 0 then (Ok (cs_current s), s, False)
      else if now < cs_nextCheck s then (Ok (cs_current s), s, False)
      else (case loader of
              Panic \<Rightarrow> (Panic, s, True)
            | Err e \<Rightarrow> if cs_current s \<noteq> None then (Ok (cs_current s), s, True) else (Err e, s, True)
            | Ok certificate \<Rightarrow>
                (let s' = s\<lparr>cs_current := Some certificate, cs_nextCheck := now' + cs_reloadInterval s\<rparr>
                 in (Ok (cs_current s'), s', True))))"

section \<open>TLS configuration\<close>

definition VersionTLS13 :: nat where "VersionTLS13 = 0x304"

record ('pool, 'cert) tls_config =
  tls_MinVersion :: nat
  tls_RootCAs :: "'pool option"
  tls_GetClientCertificate :: "'cert cert_source option"

text \<open>\<open>pem_pool\<close> stands for \<open>AppendCertsFromPEM\<close> on a new pool.\<close>

definition ApplyTLSConfig ::
    "(string \<Rightarrow> 'pool option) \<Rightarrow> http_options \<Rightarrow> 'w secret_reader \<Rightarrow> ('pool, 'cert) tls_config \<Rightarrow>
     ('w, ('pool, 'cert) tls_config) proc" where
  "ApplyTLSConfig pem_pool opts get_secret config =
     (if ho_secretName opts = '''' then return config
      else bindP (call (get_secret (ho_secretNamespace opts, ho_secretName opts))) (\<lambda>sec.
        if ts_type sec \<noteq> SecretTypeTLS then throw (secret_error ''issuer CA not of type kubernetes.io/tls'')
        else (case fmlookup (ts_data sec) TLSCertKey of
           None \<Rightarrow> throw (secret_error ''issuer CA missing tls.crt'')
         | Some cert \<Rightarrow>
             (case pem_pool cert of
                None \<Rightarrow> throw (secret_error ''failed to load identity CA certificate'')
              | Some pool \<Rightarrow> return (config\<lparr>tls_RootCAs := Some pool\<rparr>)))))"

definition ApplyTLSClientConfig ::
    "(string \<Rightarrow> string \<Rightarrow> 'cert result) \<Rightarrow> client_options \<Rightarrow> time \<Rightarrow> 'w secret_reader \<Rightarrow> ('pool, 'cert) tls_config \<Rightarrow>
     ('w, ('pool, 'cert) tls_config) proc" where
  "ApplyTLSClientConfig key_pair opts now get_secret config =
     (if co_secretNamespace opts = '''' \<or> co_secretName opts = '''' then return config
      else bindR (loadTLSCertificate key_pair opts get_secret) (\<lambda>loaded.
        bindP (Ret (newTLSClientCertificateSource (co_reloadInterval opts) now loaded)) (\<lambda>source.
          return (config\<lparr>tls_GetClientCertificate := Some source\<rparr>))))"

definition TLSClientConfig ::
    "(string \<Rightarrow> 'pool option) \<Rightarrow> (string \<Rightarrow> string \<Rightarrow> 'cert result) \<Rightarrow> time \<Rightarrow> 'w secret_reader \<Rightarrow> http_options \<Rightarrow>
     client_options \<Rightarrow> ('w, ('pool, 'cert) tls_config) proc" where
  "TLSClientConfig pem_pool key_pair now get_secret opts clientOptions =
     bindP (ApplyTLSConfig pem_pool opts get_secret
              \<lparr>tls_MinVersion = VersionTLS13, tls_RootCAs = None, tls_GetClientCertificate = None\<rparr>)
       (ApplyTLSClientConfig key_pair clientOptions now get_secret)"

section \<open>Signed payloads\<close>

text \<open>
  JSON marshalling and JOSE with the algorithm PS512.  \<open>private_key\<close> and \<open>public_key\<close> are the keys of a
  certificate.
\<close>

record ('priv, 'pub, 'signer, 'jws) jose =
  jo_NewSigner :: "'priv \<Rightarrow> 'signer result"
  jo_Sign :: "'signer \<Rightarrow> string \<Rightarrow> 'jws result"
  jo_CompactSerialize :: "'jws \<Rightarrow> string result"
  jo_ParseSignedCompact :: "string \<Rightarrow> 'jws result"
  jo_Verify :: "'jws \<Rightarrow> 'pub \<Rightarrow> string result"

definition EncodeAndSign ::
    "('priv, 'pub, 'signer, 'jws) jose \<Rightarrow> ('v \<Rightarrow> string result) \<Rightarrow> ('cert \<Rightarrow> 'priv pkey) \<Rightarrow>
     (string \<Rightarrow> string \<Rightarrow> 'cert result) \<Rightarrow> client_options \<Rightarrow> 'w secret_reader \<Rightarrow> 'v \<Rightarrow> ('w, string) proc" where
  "EncodeAndSign jo marshal private_key key_pair opts get_secret data =
     bindP (Ret (marshal data)) (\<lambda>dataJSON.
     bindP (loadTLSCertificate key_pair opts get_secret) (\<lambda>certificate.
       case private_key certificate of
         OtherKey \<Rightarrow> throw (Sentinel ErrUnsupportedKeyType)
       | RSA pk \<Rightarrow>
           bindP (Ret (jo_NewSigner jo pk)) (\<lambda>signer.
           bindP (Ret (jo_Sign jo signer dataJSON)) (\<lambda>signedData.
           Ret (jo_CompactSerialize jo signedData)))))"

definition VerifyAndDecode ::
    "('priv, 'pub, 'signer, 'jws) jose \<Rightarrow> (string \<Rightarrow> 'v result) \<Rightarrow> ('x509 \<Rightarrow> 'pub pkey) \<Rightarrow> string \<Rightarrow> 'x509 \<Rightarrow> 'v result" where
  "VerifyAndDecode jo unmarshal public_key payload certificate =
     bind_outcome (jo_ParseSignedCompact jo payload) (\<lambda>signedData.
       case public_key certificate of
         OtherKey \<Rightarrow> Err (Sentinel ErrUnsupportedKeyType)
       | RSA key \<Rightarrow>
           bind_outcome (jo_Verify jo signedData key) unmarshal)"

section \<open>The configuration fails closed\<close>

lemma run_loadTLSCertificate_Ok:
  "run (loadTLSCertificate key_pair opts get_secret) w = (Ok certificate, w') \<longleftrightarrow>
   (\<exists>sec cert key. get_secret (co_secretNamespace opts, co_secretName opts) w = (Ok sec, w') \<and>
      ts_type sec = SecretTypeTLS \<and> fmlookup (ts_data sec) TLSCertKey = Some cert \<and>
      fmlookup (ts_data sec) TLSPrivateKeyKey = Some key \<and> key_pair cert key = Ok certificate)"
  by (auto simp: loadTLSCertificate_def run_bindP split: prod.splits outcome.splits option.splits)

lemma run_ApplyTLSConfig_Ok:
  assumes "run (ApplyTLSConfig pem_pool opts get_secret config) w = (Ok config', w')"
  shows "tls_MinVersion config' = tls_MinVersion config"
    and "tls_GetClientCertificate config' = tls_GetClientCertificate config"
    and "ho_secretName opts \<noteq> '''' \<Longrightarrow>
      \<exists>sec cert pool. get_secret (ho_secretNamespace opts, ho_secretName opts) w = (Ok sec, w') \<and>
        ts_type sec = SecretTypeTLS \<and> fmlookup (ts_data sec) TLSCertKey = Some cert \<and> pem_pool cert = Some pool \<and>
        tls_RootCAs config' = Some pool"
  using assms
  by (auto simp: ApplyTLSConfig_def run_bindP split: prod.splits outcome.splits option.splits if_splits)

lemma run_ApplyTLSClientConfig_Ok:
  assumes "run (ApplyTLSClientConfig key_pair opts now get_secret config) w = (Ok config', w')"
  shows "tls_MinVersion config' = tls_MinVersion config" and "tls_RootCAs config' = tls_RootCAs config"
    and "co_secretNamespace opts \<noteq> '''' \<Longrightarrow> co_secretName opts \<noteq> '''' \<Longrightarrow>
      \<exists>certificate source. run (loadTLSCertificate key_pair opts get_secret) w = (Ok certificate, w') \<and>
        tls_GetClientCertificate config' = Some source \<and> cs_current source = Some certificate"
  using assms
  by (auto simp: ApplyTLSClientConfig_def run_bindR newTLSClientCertificateSource_def split: prod.splits if_splits)
    (auto simp: bindP_def newTLSClientCertificateSource_def bind_outcome_Ok_iff split: outcome.splits)

text \<open>
  A TLS configuration is only handed out with everything that was asked for: TLS 1.3, the named
  certificate authority as the only roots, and the named client certificate.  A secret that cannot be
  read or is malformed is an error, never a fallback to the system's roots or to no certificate.
\<close>

theorem TLSClientConfig_fails_closed:
  assumes "run (TLSClientConfig pem_pool key_pair now get_secret opts clientOptions) w = (Ok config, w')"
  shows "tls_MinVersion config = VersionTLS13 \<and>
    (ho_secretName opts \<noteq> '''' \<longrightarrow>
      (\<exists>sec cert pool w1. get_secret (ho_secretNamespace opts, ho_secretName opts) w = (Ok sec, w1) \<and>
         ts_type sec = SecretTypeTLS \<and> fmlookup (ts_data sec) TLSCertKey = Some cert \<and> pem_pool cert = Some pool \<and>
         tls_RootCAs config = Some pool)) \<and>
    (co_secretNamespace clientOptions \<noteq> '''' \<longrightarrow> co_secretName clientOptions \<noteq> '''' \<longrightarrow>
      (\<exists>source certificate w1. run (loadTLSCertificate key_pair clientOptions get_secret) w1 = (Ok certificate, w') \<and>
         tls_GetClientCertificate config = Some source \<and> cs_current source = Some certificate))"
proof -
  from assms obtain config1 w1
    where one: "run (ApplyTLSConfig pem_pool opts get_secret
        \<lparr>tls_MinVersion = VersionTLS13, tls_RootCAs = None, tls_GetClientCertificate = None\<rparr>) w = (Ok config1, w1)"
      and two: "run (ApplyTLSClientConfig key_pair clientOptions now get_secret config1) w1 = (Ok config, w')"
    unfolding TLSClientConfig_def by (rule run_bindP_OkD)
  show ?thesis
    using run_ApplyTLSConfig_Ok [OF one] run_ApplyTLSClientConfig_Ok [OF two] by auto
qed

section \<open>Handshakes\<close>

text \<open>
  A sequence of handshakes, each with its clock readings and what the loader would answer; and the
  certificates that were loaded in the course of it, each with the time it was loaded.
\<close>

type_synonym 'cert handshake = "time \<times> 'cert result \<times> time"

fun handshakes ::
    "'cert handshake list \<Rightarrow> 'cert cert_source \<Rightarrow> ('cert option result \<times> bool) list \<times> 'cert cert_source" where
  "handshakes [] s = ([], s)"
| "handshakes ((now, loader, now') # hs) s =
     (case GetClientCertificate now loader now' s of (r, s', called) \<Rightarrow>
        (case handshakes hs s' of (rs, s'') \<Rightarrow> ((r, called) # rs, s'')))"

fun loads :: "'cert handshake list \<Rightarrow> ('x \<times> bool) list \<Rightarrow> ('cert \<times> time) list" where
  "loads ((now, Ok c, now') # hs) ((r, True) # rs) = (c, now') # loads hs rs"
| "loads (h # hs) (r # rs) = loads hs rs"
| "loads _ _ = []"

lemma length_handshakes: "handshakes hs s = (rs, s') \<Longrightarrow> length rs = length hs"
  by (induction hs s arbitrary: rs s' rule: handshakes.induct) (auto split: prod.splits)

lemma loads_Cons: "loads (h # hs) (r # rs) = loads [h] [r] @ loads hs rs"
  by (cases h; cases r; cases "fst (snd h)"; cases "snd r") auto

text \<open>The source holds the certificate \<open>c\<close>, loaded at time \<open>t\<close>.\<close>

definition holds :: "duration \<Rightarrow> 'cert \<times> time \<Rightarrow> 'cert cert_source \<Rightarrow> bool" where
  "holds i ct s \<longleftrightarrow>
     cs_current s = Some (fst ct) \<and> cs_reloadInterval s = i \<and> (i > 0 \<longrightarrow> cs_nextCheck s = snd ct + i)"

lemma handshake_step:
  assumes "GetClientCertificate now loader now' s = (r, s', called)" and "holds i ct s" and "loader \<noteq> Panic"
  shows "holds i (last (ct # loads [(now, loader, now')] [(r, called)])) s'"
    and "r = Ok (Some (fst (last (ct # loads [(now, loader, now')] [(r, called)]))))"
    and "called \<longleftrightarrow> i > 0 \<and> now \<ge> snd ct + i"
  using assms by (auto simp: GetClientCertificate_def holds_def Let_def split: if_splits outcome.splits)

lemma handshakes_serve:
  assumes "handshakes hs s = (rs, s')" and "holds i ct s" and "\<forall>h \<in> set hs. fst (snd h) \<noteq> Panic" and "k < length hs"
  shows "rs ! k =
    (Ok (Some (fst (last (ct # loads (take (Suc k) hs) (take (Suc k) rs))))),
     i > 0 \<and> fst (hs ! k) \<ge> snd (last (ct # loads (take k hs) (take k rs))) + i)"
  using assms
proof (induction hs s arbitrary: rs s' ct k rule: handshakes.induct)
  case (2 now loader now' hs s)
  obtain r s1 called rs1 where g: "GetClientCertificate now loader now' s = (r, s1, called)"
    and h: "handshakes hs s1 = (rs1, s')" and rs: "rs = (r, called) # rs1"
    using "2.prems"(1) by (auto split: prod.splits)
  note step = handshake_step [OF g "2.prems"(2)]
  have no: "loader \<noteq> Panic" using "2.prems"(3) by auto
  show ?case
  proof (cases k)
    case 0
    with step [OF no] rs show ?thesis by simp
  next
    case (Suc k')
    with "2.IH" [OF g [symmetric] refl h step(1) [OF no], of k'] "2.prems"(3,4) rs
    show ?thesis by (simp add: loads_Cons [of _ "take _ hs"] del: loads.simps)
  qed
qed simp

lemma new_source_holds: "newTLSClientCertificateSource i t0 (Ok c0) = Ok s \<Longrightarrow> holds i (c0, t0) s"
  by (auto simp: newTLSClientCertificateSource_def holds_def)

text \<open>
  C36: once a source was constructed it answers every handshake, for as long as the process runs, with a
  certificate: the one that was loaded last.  A failed reload never surfaces.  The loader is called
  exactly when reloading is enabled and the interval since the last load is over.
\<close>

theorem client_certificate_available:
  assumes "newTLSClientCertificateSource i t0 (Ok c0) = Ok s" and "handshakes hs s = (rs, s')"
    and "\<forall>h \<in> set hs. fst (snd h) \<noteq> Panic" and "k < length hs"
  shows "rs ! k =
    (Ok (Some (fst (last ((c0, t0) # loads (take (Suc k) hs) (take (Suc k) rs))))),
     i > 0 \<and> fst (hs ! k) \<ge> snd (last ((c0, t0) # loads (take k hs) (take k rs))) + i)"
  by (rule handshakes_serve [OF assms(2) new_source_holds [OF assms(1)] assms(3,4)])

text \<open>The clock does not run backwards.\<close>

fun clock_from :: "time \<Rightarrow> 'cert handshake list \<Rightarrow> bool" where
  "clock_from t [] \<longleftrightarrow> True"
| "clock_from t ((now, loader, now') # hs) \<longleftrightarrow> t \<le> now \<and> now \<le> now' \<and> clock_from now' hs"

fun clock_end :: "time \<Rightarrow> 'cert handshake list \<Rightarrow> time" where
  "clock_end t [] = t"
| "clock_end t ((now, loader, now') # hs) = clock_end now' hs"

lemma loads_bounded:
  assumes "handshakes hs s = (rs, s')" and "holds i ct s" and "i > 0" and "snd ct \<le> t" and "clock_from t hs"
    and "\<forall>h \<in> set hs. fst (snd h) \<noteq> Panic"
  shows "int (length (loads hs rs)) * i \<le> clock_end t hs - snd ct"
  using assms
proof (induction hs s arbitrary: rs s' ct t rule: handshakes.induct)
  case (1 s)
  then show ?case by simp
next
  case (2 now loader now' hs s)
  obtain r s1 called rs1 where g: "GetClientCertificate now loader now' s = (r, s1, called)"
    and h: "handshakes hs s1 = (rs1, s')" and rs: "rs = (r, called) # rs1"
    using "2.prems"(1) by (auto split: prod.splits)
  have no: "loader \<noteq> Panic" using "2.prems"(6) by auto
  note step = handshake_step [OF g "2.prems"(2) no]
  let ?ct = "last (ct # loads [(now, loader, now')] [(r, called)])"
  have clock: "snd ct \<le> now" "now \<le> now'" "clock_from now' hs" using "2.prems"(4,5) by auto
  have "snd ?ct \<le> now' \<and> int (length (loads [(now, loader, now')] [(r, called)])) * i \<le> snd ?ct - snd ct"
    using clock step(3) by (cases loader; cases called) auto
  moreover have "int (length (loads hs rs1)) * i \<le> clock_end now' hs - snd ?ct"
    using "2.IH" [OF g [symmetric] refl h step(1), of now'] "2.prems"(3,6) clock calculation by auto
  ultimately show ?case
    using rs by (simp add: loads_Cons [of _ hs] distrib_right del: loads.simps)
qed

text \<open>
  C37: a client certificate is loaded at most once per reload interval: over a run of handshakes the
  number of successful reloads times the interval is bounded by the time that has passed.
\<close>

theorem reload_rate_bounded:
  assumes "newTLSClientCertificateSource i t0 (Ok c0) = Ok s" and "i > 0" and "clock_from t0 hs"
    and "handshakes hs s = (rs, s')" and "\<forall>h \<in> set hs. fst (snd h) \<noteq> Panic"
  shows "int (length (loads hs rs)) * i \<le> clock_end t0 hs - t0"
  using loads_bounded [OF assms(4) new_source_holds [OF assms(1)] assms(2), of t0] assms(3,5) by simp

text \<open>
  A reload that fails leaves the time of the next check where it was, so every handshake from then on
  calls the loader, until it succeeds.
\<close>

lemma failed_reload_every_handshake:
  assumes "cs_current s = Some c" and "cs_reloadInterval s > 0" and "cs_nextCheck s \<le> now" and "now \<le> later"
    and "GetClientCertificate now (Err e) now' s = (r, s', called)"
  shows "called \<and> s' = s \<and> snd (snd (GetClientCertificate later loader later' s'))"
  using assms by (auto simp: GetClientCertificate_def Let_def split: outcome.splits)

section \<open>Signed payloads are read back\<close>

text \<open>What JOSE and JSON promise: what was signed verifies under the matching key, to the same bytes.\<close>

definition jose_ok :: "('priv, 'pub, 'signer, 'jws) jose \<Rightarrow> ('priv \<Rightarrow> 'pub) \<Rightarrow> bool" where
  "jose_ok jo pub \<longleftrightarrow>
     (\<forall>pk signer m jws txt. jo_NewSigner jo pk = Ok signer \<longrightarrow> jo_Sign jo signer m = Ok jws \<longrightarrow>
        jo_CompactSerialize jo jws = Ok txt \<longrightarrow>
        (\<exists>jws'. jo_ParseSignedCompact jo txt = Ok jws' \<and> jo_Verify jo jws' (pub pk) = Ok m))"

text \<open>
  A payload signed by one service is decoded by another to the value it was made of, when the
  certificate it is checked against belongs to the key it was signed with.
\<close>

theorem EncodeAndSign_VerifyAndDecode:
  assumes "jose_ok jo pub"
    and "run (EncodeAndSign jo marshal private_key key_pair opts get_secret data) w = (Ok payload, w')"
    and "\<And>js. marshal data = Ok js \<Longrightarrow> unmarshal js = Ok data"
    and "\<And>certificate pk. run (loadTLSCertificate key_pair opts get_secret) w = (Ok certificate, w') \<Longrightarrow>
      private_key certificate = RSA pk \<Longrightarrow> public_key x509 = RSA (pub pk)"
  shows "VerifyAndDecode jo unmarshal public_key payload x509 = Ok data"
proof -
  from assms(2) obtain js certificate pk signer jws w1
    where m: "marshal data = Ok js"
      and c: "run (loadTLSCertificate key_pair opts get_secret) w = (Ok certificate, w1)" "private_key certificate = RSA pk"
      and j: "jo_NewSigner jo pk = Ok signer" "jo_Sign jo signer js = Ok jws" "jo_CompactSerialize jo jws = Ok payload"
      and w: "w1 = w'"
    unfolding EncodeAndSign_def
    by (elim run_bindP_OkD) (auto split: pkey.splits elim!: run_bindP_OkD)
  from assms(1) j obtain jws' where "jo_ParseSignedCompact jo payload = Ok jws'" "jo_Verify jo jws' (pub pk) = Ok js"
    unfolding jose_ok_def by blast
  with assms(3) [OF m] assms(4) c w show ?thesis by (simp add: VerifyAndDecode_def)
qed

section \<open>Instances\<close>

definition sample_secrets :: "unit secret_reader" where
  "sample_secrets key w =
     (Ok \<lparr>ts_type = SecretTypeTLS, ts_data = fmap_of_list [(TLSCertKey, ''crt''), (TLSPrivateKeyKey, ''key'')]\<rparr>, w)"

definition sample_client_options :: client_options where
  "sample_client_options = \<lparr>co_secretNamespace = ''ns'', co_secretName = ''client'', co_reloadInterval = 10\<rparr>"

definition sample_pair :: "string \<Rightarrow> string \<Rightarrow> (string \<times> string) result" where
  "sample_pair cert key = Ok (cert, key)"

lemma sample_data:
  "fmlookup (fmap_of_list [(TLSCertKey, ''crt''), (TLSPrivateKeyKey, ''key'')]) TLSCertKey = Some ''crt''"
  "fmlookup (fmap_of_list [(TLSCertKey, ''crt''), (TLSPrivateKeyKey, ''key'')]) TLSPrivateKeyKey = Some ''key''"
  "TLSCertKey \<noteq> TLSPrivateKeyKey"
  by (simp_all add: TLSCertKey_def TLSPrivateKeyKey_def)

lemma sample_load:
  "run (loadTLSCertificate sample_pair sample_client_options sample_secrets) () = (Ok (''crt'', ''key''), ())"
  by (simp only: run_loadTLSCertificate_Ok) (simp add: sample_secrets_def sample_data sample_pair_def)

lemma TLSClientConfig_fails_closed_witness:
  "\<exists>config. run (TLSClientConfig Some sample_pair 0 sample_secrets
       \<lparr>ho_service = ''identity'', ho_host = '''', ho_secretNamespace = ''ns'', ho_secretName = ''ca''\<rparr>
       sample_client_options) () = (Ok config, ()) \<and>
     tls_MinVersion config = VersionTLS13 \<and> tls_RootCAs config = Some ''crt'' \<and>
     (\<exists>source. tls_GetClientCertificate config = Some source \<and> cs_current source = Some (''crt'', ''key''))"
proof -
  let ?o = "\<lparr>ho_service = ''identity'', ho_host = '''', ho_secretNamespace = ''ns'', ho_secretName = ''ca''\<rparr>"
  obtain config where run:
    "run (TLSClientConfig Some sample_pair 0 sample_secrets ?o sample_client_options) () = (Ok config, ())"
    by (simp add: TLSClientConfig_def ApplyTLSConfig_def ApplyTLSClientConfig_def run_bindP run_bindR sample_load
        newTLSClientCertificateSource_def sample_client_options_def [THEN arg_cong [of _ _ co_secretNamespace]]
        sample_client_options_def [THEN arg_cong [of _ _ co_secretName]] sample_secrets_def sample_data)
  from TLSClientConfig_fails_closed [OF this] run show ?thesis
    by (auto simp: sample_load sample_client_options_def [THEN arg_cong [of _ _ co_secretNamespace]]
        sample_client_options_def [THEN arg_cong [of _ _ co_secretName]] sample_secrets_def sample_data)
qed

definition sample_source :: "string cert_source" where
  "sample_source = \<lparr>cs_current = Some ''a'', cs_nextCheck = 10, cs_reloadInterval = 10\<rparr>"

definition sample_handshakes :: "string handshake list" where
  "sample_handshakes = [(5, Ok ''b'', 5), (12, Err (OtherError ''gone''), 12), (13, Ok ''b'', 14), (20, Ok ''c'', 20)]"

lemma sample_handshakes_run:
  "handshakes sample_handshakes sample_source =
     ([(Ok (Some ''a''), False), (Ok (Some ''a''), True), (Ok (Some ''b''), True), (Ok (Some ''b''), False)],
      \<lparr>cs_current = Some ''b'', cs_nextCheck = 24, cs_reloadInterval = 10\<rparr>)"
  by (simp add: sample_handshakes_def sample_source_def GetClientCertificate_def Let_def)

lemma sample_source_new: "newTLSClientCertificateSource 10 0 (Ok ''a'') = Ok sample_source"
  by (simp add: newTLSClientCertificateSource_def sample_source_def)

lemma sample_no_panic: "\<forall>h \<in> set sample_handshakes. fst (snd h) \<noteq> Panic"
  by (simp add: sample_handshakes_def)

lemma client_certificate_available_witness:
  "fst (handshakes sample_handshakes sample_source) ! 3 =
     (Ok (Some (fst (last ((''a'', 0) # loads sample_handshakes (fst (handshakes sample_handshakes sample_source)))))), False)"
  using client_certificate_available [OF sample_source_new sample_handshakes_run sample_no_panic, of 3]
  by (simp add: sample_handshakes_run) (simp add: sample_handshakes_def)

lemma reload_rate_bounded_witness:
  "int (length (loads sample_handshakes (fst (handshakes sample_handshakes sample_source)))) * 10 \<le> 20 - 0"
  using reload_rate_bounded [OF sample_source_new _ _ sample_handshakes_run sample_no_panic]
  by (simp add: sample_handshakes_run) (simp add: sample_handshakes_def)

text \<open>A toy signature scheme: the signature is the key itself, the private and the public key agree.\<close>

definition sample_jose :: "(string, string, string, string \<times> string) jose" where
  "sample_jose =
     \<lparr>jo_NewSigner = Ok, jo_Sign = (\<lambda>k m. Ok (k, m)), jo_CompactSerialize = (\<lambda>(k, m). Ok (k @ m)),
      jo_ParseSignedCompact = (\<lambda>t. Ok (take 3 t, drop 3 t)),
      jo_Verify = (\<lambda>(k, m) pk. if k = pk then Ok m else Err (OtherError ''verification failed''))\<rparr>"

definition sample_sign_jose :: "(string, string, string, string \<times> string) jose" where
  "sample_sign_jose = sample_jose\<lparr>jo_NewSigner := (\<lambda>k. if length k = 3 then Ok k else Err (OtherError ''key size''))\<rparr>"

lemma sample_jose_ok: "jose_ok sample_sign_jose id"
  by (auto simp: jose_ok_def sample_sign_jose_def sample_jose_def split: if_splits)

lemma EncodeAndSign_VerifyAndDecode_witness:
  "VerifyAndDecode sample_sign_jose Ok (\<lambda>x. RSA ''key'') ''keyhello'' () = Ok ''hello''"
proof (rule EncodeAndSign_VerifyAndDecode [OF sample_jose_ok, where marshal = Ok and private_key = "\<lambda>c. RSA (snd c)"
      and key_pair = sample_pair and opts = sample_client_options and get_secret = sample_secrets and w = "()" and w' = "()"])
  show "run (EncodeAndSign sample_sign_jose Ok (\<lambda>c. RSA (snd c)) sample_pair sample_client_options sample_secrets ''hello'') () =
      (Ok ''keyhello'', ())"
    by (simp add: EncodeAndSign_def run_bindP sample_load) (simp add: sample_sign_jose_def sample_jose_def)
qed (auto simp: sample_load)

end
