(* ===== verification/Middleware.thy ===== *)
theory Middleware
  imports Server_Errors
begin

text \<open>
  The middlewares of the API servers (\<open>pkg/server/middleware\<close>): route resolution with the lookup in the
  schema (\<open>pkg/openapi/helpers\<close>), CORS, timeouts, logging, and the capture of a response.  A handler takes
  a request and the state of the exchange, which is the response so far and the log; it may panic.  The
  router and the schema are third-party: what they answer is part of the request and an argument.
\<close>

section \<open>Requests and routes\<close>

text \<open>
  A path of the schema: its operations by method, and how one is looked up; the lookup panics on a
  method it does not know, which is the outer \<open>None\<close>.
\<close>

record 'op path_item =
  pi_Operations :: "(string, 'op) fmap"
  pi_GetOperation :: "string \<Rightarrow> 'op option option"

record 'op route =
  rt_Path :: string
  rt_PathItem :: "'op path_item"
  rt_Method :: string
  rt_Operation :: 'op

record 'op route_info =
  ri_Route :: "'op route"
  ri_Parameters :: smap

text \<open>
  Of the context a request carries the router's (a pattern for a method and a path, with the keys and
  values of the parameters in it; nil outside the router), the route, the deadline, the trace and the values
  of its logger.
\<close>

record 'op request =
  hr_Method :: string
  hr_Header :: header
  hr_Proto :: string
  hr_Scheme :: string
  hr_Host :: string
  hr_Path :: string
  hr_RawQuery :: string
  hr_Fragment :: string
  hr_URL :: string
  hr_ContentLength :: int
  hr_RemoteAddr :: string
  hr_router :: "(string \<Rightarrow> string \<Rightarrow> string \<times> string list \<times> string list) option"
  hr_route :: "'op route_info option"
  hr_deadline :: "time option"
  hr_trace :: string
  hr_logValues :: "string list"

section \<open>The exchange\<close>

record request_log =
  rl_Protocol :: string
  rl_Scheme :: string
  rl_Method :: string
  rl_Path :: string
  rl_Host :: string
  rl_Query :: string
  rl_Fragment :: string
  rl_Length :: int
  rl_Address :: string
  rl_Headers :: "header option"

record response_log =
  sl_Code :: nat
  sl_Length :: int
  sl_TimeNS :: int
  sl_Headers :: "header option"

datatype log_line =
    ErrorLine "string list"
  | RequestLine request_log
  | ResponseLine request_log response_log

record exchange =
  ex_response :: "body_part response"
  ex_log :: "log_line list"

type_synonym ('op, 'z) handler = "'op request \<Rightarrow> 'z exchange_scheme \<Rightarrow> unit result \<times> 'z exchange_scheme"

definition on_response :: "(body_part response \<Rightarrow> body_part response) \<Rightarrow> 'z exchange_scheme \<Rightarrow> 'z exchange_scheme" where
  "on_response f s = s\<lparr>ex_response := f (ex_response s)\<rparr>"

definition log_to :: "log_line \<Rightarrow> 'z exchange_scheme \<Rightarrow> 'z exchange_scheme" where
  "log_to l s = s\<lparr>ex_log := ex_log s @ [l]\<rparr>"

text \<open>\<open>hwalk\<close> is the order in which the headers of an error are visited.\<close>

definition answer_error ::
    "(header \<Rightarrow> (string \<times> string list) list) \<Rightarrow> gerror \<Rightarrow> ('op, 'z) handler" where
  "answer_error hwalk err r s =
     (case HandleError hwalk (hr_trace r) err (ex_response s) of (l, rs) \<Rightarrow>
        (Ok (), log_to (ErrorLine l) (s\<lparr>ex_response := rs\<rparr>)))"

section \<open>Finding a route (pkg/openapi/helpers/helpers.go)\<close>

text \<open>The parameters of the router's context; a key without a value is out of range.\<close>

fun url_params :: "string list \<Rightarrow> string list \<Rightarrow> smap \<Rightarrow> smap result" where
  "url_params [] vs m = Ok m"
| "url_params (k # ks) [] m = Panic"
| "url_params (k # ks) (v # vs) m = url_params ks vs (fmupd k v m)"

definition FindRoute :: "(string \<Rightarrow> 'op path_item option) \<Rightarrow> 'op request \<Rightarrow> ('op route \<times> smap) result" where
  "FindRoute paths r =
     (case hr_router r of
        None \<Rightarrow> Panic
      | Some lookup_route \<Rightarrow>
          (case lookup_route (hr_Method r) (hr_Path r) of (routePath, ks, vs) \<Rightarrow>
             if routePath = '''' then Err (WithValues HTTPNotFound [''path'', hr_URL r])
             else (case paths routePath of
                None \<Rightarrow> Err (WithValues HTTPNotFound [''path'', hr_URL r])
              | Some path \<Rightarrow>
                  (case pi_GetOperation path (hr_Method r) of
                      None \<Rightarrow> Panic
                    | Some None \<Rightarrow> Err (WithValues HTTPMethodNotAllowed [''path'', hr_URL r, ''method'', hr_Method r])
                    | Some (Some op) \<Rightarrow>
                        bind_outcome (url_params ks vs fmempty) (\<lambda>parameters.
                          Ok (\<lparr>rt_Path = routePath, rt_PathItem = path, rt_Method = hr_Method r, rt_Operation = op\<rparr>,
                              parameters))))))"

section \<open>Route resolution (routeresolver/middleware.go)\<close>

definition RouteFromContext :: "'op request \<Rightarrow> 'op route_info result" where
  "RouteFromContext r =
     (case hr_route r of
        None \<Rightarrow> Err (Wrapf '''' (Sentinel ErrKey) '': route info not in context'')
      | Some v \<Rightarrow> Ok v)"

definition MethodOptions :: string where "MethodOptions = ''OPTIONS''"

definition no_request_method :: gerror where
  "no_request_method = OAuth2InvalidRequest [Text ''OPTIONS missing Access-Control-Request-Method header'']"

definition resolve_with ::
    "(header \<Rightarrow> (string \<times> string list) list) \<Rightarrow> (string \<Rightarrow> 'op path_item option) \<Rightarrow> ('op, 'z) handler \<Rightarrow> 'op request \<Rightarrow>
     ('op, 'z) handler" where
  "resolve_with hwalk paths next routeRequest r s =
     (case FindRoute paths routeRequest of
        Panic \<Rightarrow> (Panic, s)
      | Err e \<Rightarrow> answer_error hwalk e r s
      | Ok (route, parameters) \<Rightarrow>
          next (r\<lparr>hr_route := Some \<lparr>ri_Route = route, ri_Parameters = parameters\<rparr>\<rparr>) s)"

definition route_Middleware ::
    "(header \<Rightarrow> (string \<times> string list) list) \<Rightarrow> (string \<Rightarrow> 'op path_item option) \<Rightarrow> ('op, 'z) handler \<Rightarrow> ('op, 'z) handler" where
  "route_Middleware hwalk paths next r s =
     (if hr_Method r = MethodOptions
      then (let m = header_Get (hr_Header r) ''Access-Control-Request-Method''
            in if m = '''' then answer_error hwalk no_request_method r s
               else resolve_with hwalk paths next (r\<lparr>hr_Method := m\<rparr>) r s)
      else resolve_with hwalk paths next r r s)"

section \<open>CORS (cors/cors.go)\<close>

record cors_options =
  AllowedOrigins :: "string list"
  MaxAge :: int

text \<open>Registering the flags stores their defaults.\<close>

definition cors_AddFlags :: "cors_options \<Rightarrow> cors_options" where
  "cors_AddFlags opts = opts\<lparr>AllowedOrigins := [''*''], MaxAge := 86400\<rparr>"

definition setAllowOrigin :: "cors_options \<Rightarrow> ('op, 'z) handler" where
  "setAllowOrigin opts r s =
     (let origin = header_Get (hr_Header r) ''Origin'' in
      if origin \<noteq> '''' \<and> origin \<in> set (AllowedOrigins opts)
      then (Ok (), on_response (AddHeader ''Access-Control-Allow-Origin'' origin) s)
      else (case AllowedOrigins opts of
              [] \<Rightarrow> (Panic, s)
            | first # _ \<Rightarrow> (Ok (), on_response (AddHeader ''Access-Control-Allow-Origin'' first) s)))"

definition Itoa :: "int \<Rightarrow> string" where
  "Itoa i = (if i < 0 then CHR ''-'' # show_nat (nat (- i)) else show_nat (nat i))"

definition cors_headers :: "string list" where
  "cors_headers = [''Authorization'', ''Content-Type'', ''traceparent'', ''tracestate'']"

text \<open>\<open>opwalk\<close> is the order in which the operations of a path are visited.\<close>

definition preflight ::
    "((string, 'op) fmap \<Rightarrow> (string \<times> 'op) list) \<Rightarrow> cors_options \<Rightarrow> 'op route_info \<Rightarrow> body_part response \<Rightarrow> body_part response" where
  "preflight opwalk opts info rs =
     (let methods = map fst (opwalk (pi_Operations (rt_PathItem (ri_Route info)))) @ [MethodOptions]
      in WriteHeader 204
           (AddHeader ''Access-Control-Max-Age'' (Itoa (MaxAge opts))
             (AddHeader ''Access-Control-Allow-Headers'' (str_join '', '' cors_headers)
               (AddHeader ''Access-Control-Allow-Methods'' (str_join '', '' methods) rs))))"

definition cors_Middleware ::
    "(header \<Rightarrow> (string \<times> string list) list) \<Rightarrow> ((string, 'op) fmap \<Rightarrow> (string \<times> 'op) list) \<Rightarrow> cors_options \<Rightarrow>
     ('op, 'z) handler \<Rightarrow> ('op, 'z) handler" where
  "cors_Middleware hwalk opwalk opts next r s =
     (case setAllowOrigin opts r s of
        (Ok _, s) \<Rightarrow>
          (if hr_Method r \<noteq> MethodOptions then next r s
           else if header_Get (hr_Header r) ''Access-Control-Request-Method'' = ''''
           then answer_error hwalk no_request_method r s
           else (case RouteFromContext r of
                   Ok info \<Rightarrow> (Ok (), on_response (preflight opwalk opts info) s)
                 | Err e \<Rightarrow> answer_error hwalk e r s
                 | Panic \<Rightarrow> (Panic, s)))
      | (x, s) \<Rightarrow> (x, s))"

section \<open>Timeouts (timeout/timeout.go)\<close>

text \<open>A context keeps the earlier of its parent's deadline and its own.\<close>

definition timeout_Middleware :: "duration \<Rightarrow> time \<Rightarrow> ('op, 'z) handler \<Rightarrow> ('op, 'z) handler" where
  "timeout_Middleware timeout now next r s =
     next (r\<lparr>hr_deadline := Some (case hr_deadline r of None \<Rightarrow> now + timeout | Some d \<Rightarrow> min d (now + timeout))\<rparr>) s"

section \<open>Logging (logging/logging.go)\<close>

definition header_Del :: "string \<Rightarrow> header \<Rightarrow> header" where
  "header_Del k h = fmdrop (CanonicalHeaderKey k) h"

definition blacklist :: "string list" where
  "blacklist = [''Authorization'', ''Cookie'', ''User-Agent'', ''Set-Cookie'', ''X-Forwarded-For'']"

definition log_headers :: "header \<Rightarrow> header option" where
  "log_headers h = (if h = fmempty then None else Some (foldl (\<lambda>hs i. header_Del i hs) h blacklist))"

definition log_request :: "'op request \<Rightarrow> request_log" where
  "log_request r =
     \<lparr>rl_Protocol = hr_Proto r, rl_Scheme = hr_Scheme r, rl_Method = hr_Method r, rl_Path = hr_Path r,
      rl_Host = hr_Host r, rl_Query = hr_RawQuery r, rl_Fragment = hr_Fragment r, rl_Length = hr_ContentLength r,
      rl_Address = hr_RemoteAddr r, rl_Headers = log_headers (hr_Header r)\<rparr>"

text \<open>\<open>httpsnoop.Metrics\<close>.\<close>

record metrics =
  me_Code :: nat
  me_Written :: int
  me_Duration :: duration

definition log_response :: "body_part response \<Rightarrow> metrics \<Rightarrow> response_log" where
  "log_response rs m =
     \<lparr>sl_Code = me_Code m, sl_Length = me_Written m, sl_TimeNS = me_Duration m, sl_Headers = log_headers (rs_header rs)\<rparr>"

text \<open>\<open>verbose\<close> says whether the logger is enabled at level 1.\<close>

definition logRequest :: "bool \<Rightarrow> 'op request \<Rightarrow> 'z exchange_scheme \<Rightarrow> 'z exchange_scheme" where
  "logRequest verbose r s = (if \<not> verbose then s else log_to (RequestLine (log_request r)) s)"

definition logResponse :: "bool \<Rightarrow> 'op request \<Rightarrow> metrics \<Rightarrow> 'z exchange_scheme \<Rightarrow> 'z exchange_scheme" where
  "logResponse verbose r m s =
     (if \<not> verbose \<and> me_Code m < 400 then s
      else log_to (ResponseLine (log_request r) (log_response (ex_response s) m)) s)"

text \<open>
  \<open>measure_response\<close> stands for the metrics that \<open>httpsnoop.CaptureMetrics\<close> takes while the next handler
  runs, from the response before and after; a panic passes through.
\<close>

definition logging_Middleware ::
    "bool \<Rightarrow> (body_part response \<Rightarrow> body_part response \<Rightarrow> metrics) \<Rightarrow> ('op, 'z) handler \<Rightarrow> ('op, 'z) handler" where
  "logging_Middleware verbose measure_response next r s =
     (let s1 = logRequest verbose r s in
      case next r s1 of
        (Ok _, s2) \<Rightarrow> (Ok (), logResponse verbose r (measure_response (ex_response s1) (ex_response s2)) s2)
      | (x, s2) \<Rightarrow> (x, s2))"

section \<open>Capturing a response (capture.go, types.go)\<close>

record capture =
  cp_body :: string
  cp_code :: nat

definition NewCapture :: capture where
  "NewCapture = \<lparr>cp_body = '''', cp_code = 200\<rparr>"

definition StatusCode :: "capture \<Rightarrow> nat" where "StatusCode c = cp_code c"
definition Body :: "capture \<Rightarrow> string" where "Body c = cp_body c"

text \<open>
  What a handler does with a response writer.  The underlying writer takes the whole of what it is
  given; the hooks of the wrapper are run around it.
\<close>

datatype writer_op = DoWriteHeader nat | DoWrite string | DoReadFrom string | DoHeader string string

fun plain_op :: "writer_op \<Rightarrow> body_part response \<Rightarrow> body_part response" where
  "plain_op (DoWriteHeader st) rs = WriteHeader st rs"
| "plain_op (DoWrite p) rs = WriteBody (Payload p) rs"
| "plain_op (DoReadFrom p) rs = WriteBody (Payload p) rs"
| "plain_op (DoHeader k v) rs = AddHeader k v rs"

fun Wrap :: "writer_op \<Rightarrow> capture \<times> body_part response \<Rightarrow> capture \<times> body_part response" where
  "Wrap (DoWriteHeader st) (c, rs) = (c\<lparr>cp_code := st\<rparr>, plain_op (DoWriteHeader st) rs)"
| "Wrap (DoWrite p) (c, rs) = (c\<lparr>cp_body := cp_body c @ p\<rparr>, plain_op (DoWrite p) rs)"
| "Wrap (DoReadFrom p) (c, rs) = (c\<lparr>cp_body := cp_body c @ p\<rparr>, plain_op (DoReadFrom p) rs)"
| "Wrap (DoHeader k v) (c, rs) = (c, plain_op (DoHeader k v) rs)"

definition CaptureResponse :: "writer_op list \<Rightarrow> body_part response \<Rightarrow> capture \<times> body_part response" where
  "CaptureResponse ops rs = fold Wrap ops (NewCapture, rs)"

section \<open>Header names\<close>

lemma canonical_names [hdr_simps]:
  "CanonicalHeaderKey ''Access-Control-Allow-Origin'' = ''Access-Control-Allow-Origin''"
  "CanonicalHeaderKey ''Access-Control-Allow-Methods'' = ''Access-Control-Allow-Methods''"
  "CanonicalHeaderKey ''Access-Control-Allow-Headers'' = ''Access-Control-Allow-Headers''"
  "CanonicalHeaderKey ''Access-Control-Max-Age'' = ''Access-Control-Max-Age''"
  by code_simp+

lemma canonical_blacklist: "map CanonicalHeaderKey blacklist = blacklist"
  by code_simp

section \<open>Preflight requests\<close>

lemma setAllowOrigin_Ok:
  assumes "AllowedOrigins opts \<noteq> []"
  obtains origin where "setAllowOrigin opts r s = (Ok (), on_response (AddHeader ''Access-Control-Allow-Origin'' origin) s)"
    and "origin \<in> set (AllowedOrigins opts)"
    and "header_Get (hr_Header r) ''Origin'' \<noteq> '''' \<Longrightarrow> header_Get (hr_Header r) ''Origin'' \<in> set (AllowedOrigins opts) \<Longrightarrow>
      origin = header_Get (hr_Header r) ''Origin''"
proof (cases "header_Get (hr_Header r) ''Origin'' \<noteq> '''' \<and> header_Get (hr_Header r) ''Origin'' \<in> set (AllowedOrigins opts)")
  case True
  then show ?thesis by (intro that [of "header_Get (hr_Header r) ''Origin''"]) (auto simp: setAllowOrigin_def Let_def)
next
  case False
  from assms obtain first more where "AllowedOrigins opts = first # more" by (cases "AllowedOrigins opts") auto
  with False show ?thesis by (intro that [of first]) (auto simp: setAllowOrigin_def Let_def)
qed

text \<open>
  C38: a preflight request for a route of the schema is answered with 204 by the middlewares.  The answer
  names exactly one allowed origin, one of the configured ones, and the request's own if that is among
  them; it lists the methods of the path and \<open>OPTIONS\<close>.
\<close>

theorem preflight_answered:
  assumes "hr_Method r = MethodOptions"
    and "header_Get (hr_Header r) ''Access-Control-Request-Method'' = m" and "m \<noteq> ''''"
    and "FindRoute paths (r\<lparr>hr_Method := m\<rparr>) = Ok (route, parameters)"
    and "AllowedOrigins opts \<noteq> []" and "rs_sent (ex_response s) = None" and "rs_header (ex_response s) = fmempty"
  shows "\<exists>s' hdr origin.
    route_Middleware hwalk paths (cors_Middleware hwalk opwalk opts next) r s = (Ok (), s') \<and>
    rs_sent (ex_response s') = Some (204, hdr) \<and>
    header_values hdr ''Access-Control-Allow-Origin'' = [origin] \<and> origin \<in> set (AllowedOrigins opts) \<and>
    (header_Get (hr_Header r) ''Origin'' \<in> set (AllowedOrigins opts) - {''''} \<longrightarrow> origin = header_Get (hr_Header r) ''Origin'') \<and>
    header_values hdr ''Access-Control-Allow-Methods'' =
      [str_join '', '' (map fst (opwalk (pi_Operations (rt_PathItem route))) @ [''OPTIONS''])] \<and>
    ex_log s' = ex_log s"
proof -
  let ?r = "r\<lparr>hr_route := Some \<lparr>ri_Route = route, ri_Parameters = parameters\<rparr>\<rparr>"
  from setAllowOrigin_Ok [OF assms(5), of ?r s] obtain origin
    where set: "setAllowOrigin opts ?r s = (Ok (), on_response (AddHeader ''Access-Control-Allow-Origin'' origin) s)"
      and origin: "origin \<in> set (AllowedOrigins opts)"
        "header_Get (hr_Header r) ''Origin'' \<noteq> '''' \<Longrightarrow> header_Get (hr_Header r) ''Origin'' \<in> set (AllowedOrigins opts) \<Longrightarrow>
          origin = header_Get (hr_Header r) ''Origin''"
    by auto
  have "route_Middleware hwalk paths (cors_Middleware hwalk opwalk opts next) r s =
      (Ok (), on_response (preflight opwalk opts \<lparr>ri_Route = route, ri_Parameters = parameters\<rparr>)
        (on_response (AddHeader ''Access-Control-Allow-Origin'' origin) s))"
    using assms(1-4) set
    by (simp add: route_Middleware_def resolve_with_def cors_Middleware_def RouteFromContext_def Let_def)
  with origin assms(6,7) show ?thesis
    by (auto simp: on_response_def preflight_def AddHeader_def WriteHeader_def Let_def hdr_simps MethodOptions_def header_values_def [of fmempty])
qed

text \<open>
  No \<open>OPTIONS\<close> request gets through to the application: what the two middlewares do with one does
  not depend on the handler behind them.
\<close>

theorem preflight_stops:
  "hr_Method r = MethodOptions \<Longrightarrow>
   route_Middleware hwalk paths (cors_Middleware hwalk opwalk opts next) r s =
   route_Middleware hwalk paths (cors_Middleware hwalk opwalk opts next') r s"
  by (auto simp: route_Middleware_def resolve_with_def cors_Middleware_def Let_def
      split: outcome.splits prod.splits)

section \<open>Routes\<close>

lemma url_params_no_error: "url_params ks vs m \<noteq> Err e"
  by (induction ks vs m rule: url_params.induct) auto

lemma FindRoute_Err:
  assumes "FindRoute paths r = Err e"
  shows "IsHTTPNotFound e \<or> IsMethodNotAllowed e"
  using assms
  by (auto simp: FindRoute_def err_simps url_params_no_error
      split: option.splits prod.splits if_splits elim!: bind_outcome.elims dest!: sym [of "Err e"])

lemma FindRoute_Ok:
  assumes "FindRoute paths r = Ok (route, parameters)"
  shows "rt_Method route = hr_Method r" and "paths (rt_Path route) = Some (rt_PathItem route)"
    and "pi_GetOperation (rt_PathItem route) (hr_Method r) = Some (Some (rt_Operation route))"
  using assms
  by (auto simp: FindRoute_def bind_outcome_Ok_iff split: option.splits prod.splits if_splits)

lemma answer_error_sent:
  assumes "asError e = Some (HTTPError st c d h eo vs)" and "rs_sent (ex_response s) = None"
  shows "\<exists>s' hdr. answer_error hwalk e r s = (Ok (), s') \<and> rs_sent (ex_response s') = Some (st, hdr)"
  using assms Error_Write_sent(1) [of "ex_response s" hwalk "hr_trace r" st c d h eo vs]
  by (auto simp: answer_error_def HandleError_def log_to_def split: prod.splits)

lemma isErrorType_asError:
  "isErrorType e n \<Longrightarrow> \<exists>c d h eo vs. asError e = Some (HTTPError n c d h eo vs)"
  by (auto simp: isErrorType_def split: option.splits gerror.splits)

text \<open>
  A request other than a preflight reaches the handlers behind the resolver exactly when the schema
  has its path and method, and then with that route; otherwise it is answered with 404 or 405.  The only
  third case is a panic of the router or the schema.
\<close>

theorem route_Middleware_resolves:
  assumes "hr_Method r \<noteq> MethodOptions" and "rs_sent (ex_response s) = None"
  shows "(\<exists>route parameters. FindRoute paths r = Ok (route, parameters) \<and>
      route_Middleware hwalk paths next r s =
        next (r\<lparr>hr_route := Some \<lparr>ri_Route = route, ri_Parameters = parameters\<rparr>\<rparr>) s \<and>
      rt_Method route = hr_Method r \<and> paths (rt_Path route) = Some (rt_PathItem route) \<and>
      pi_GetOperation (rt_PathItem route) (hr_Method r) = Some (Some (rt_Operation route))) \<or>
    (\<exists>s' st hdr. route_Middleware hwalk paths next r s = (Ok (), s') \<and>
      rs_sent (ex_response s') = Some (st, hdr) \<and> (st = 404 \<or> st = 405)) \<or>
    FindRoute paths r = Panic"
proof (cases "FindRoute paths r")
  case (Ok x)
  obtain route parameters where x: "x = (route, parameters)" by (cases x)
  from assms(1) Ok x FindRoute_Ok [of paths r route parameters] show ?thesis
    by (auto simp: route_Middleware_def resolve_with_def)
next
  case (Err e)
  then have run: "route_Middleware hwalk paths next r s = answer_error hwalk e r s"
    using assms(1) by (simp add: route_Middleware_def resolve_with_def)
  from FindRoute_Err [OF Err] obtain st c d h eo vs
    where "asError e = Some (HTTPError st c d h eo vs)" "st = 404 \<or> st = 405"
    by (auto simp: IsHTTPNotFound_def IsMethodNotAllowed_def dest!: isErrorType_asError)
  with answer_error_sent [OF _ assms(2)] run show ?thesis by metis
qed simp

section \<open>Logging\<close>

lemma fmlookup_foldl_Del:
  "fmlookup (foldl (\<lambda>hs i. header_Del i hs) h ks) k =
     (if k \<in> CanonicalHeaderKey ` set ks then None else fmlookup h k)"
  by (induction ks arbitrary: h) (auto simp: header_Del_def)

lemma log_headers_values:
  "log_headers h = Some h' \<Longrightarrow>
   header_values h' k = (if CanonicalHeaderKey k \<in> set blacklist then [] else header_values h k)"
proof -
  assume "log_headers h = Some h'"
  then have "h' = foldl (\<lambda>hs i. header_Del i hs) h blacklist" by (auto simp: log_headers_def split: if_splits)
  moreover have "CanonicalHeaderKey ` set blacklist = set blacklist"
    using canonical_blacklist by (metis list.set_map)
  ultimately show ?thesis by (simp add: header_values_def fmlookup_foldl_Del)
qed

text \<open>A line shows none of the listed headers, in whatever case they are asked for.\<close>

definition discreet :: "header option \<Rightarrow> bool" where
  "discreet ho \<longleftrightarrow>
     (\<forall>h k. ho = Some h \<longrightarrow>
        CanonicalHeaderKey k \<in> {''Authorization'', ''Cookie'', ''User-Agent'', ''Set-Cookie'', ''X-Forwarded-For''} \<longrightarrow>
        header_values h k = [])"

fun discreet_line :: "log_line \<Rightarrow> bool" where
  "discreet_line (ErrorLine l) \<longleftrightarrow> True"
| "discreet_line (RequestLine q) \<longleftrightarrow> discreet (rl_Headers q)"
| "discreet_line (ResponseLine q p) \<longleftrightarrow> discreet (rl_Headers q) \<and> discreet (sl_Headers p)"

lemma discreet_log_headers [simp]: "discreet (log_headers h)"
  by (auto simp: discreet_def log_headers_values blacklist_def)


section \<open>Captured responses\<close>

fun op_body :: "writer_op \<Rightarrow> string" where
  "op_body (DoWrite p) = p" | "op_body (DoReadFrom p) = p" | "op_body (DoWriteHeader st) = ''''" | "op_body (DoHeader k v) = ''''"

fun part_text :: "body_part \<Rightarrow> string" where
  "part_text (Payload p) = p" | "part_text (ErrorBody e) = ''''"

definition statuses :: "writer_op list \<Rightarrow> nat list" where
  "statuses ops = concat (map (\<lambda>x. case x of DoWriteHeader st \<Rightarrow> [st] | _ \<Rightarrow> []) ops)"

text \<open>The status is written at most once, and before the body.\<close>

fun orderly :: "bool \<Rightarrow> writer_op list \<Rightarrow> bool" where
  "orderly sent [] \<longleftrightarrow> True"
| "orderly sent (DoWriteHeader st # ops) \<longleftrightarrow> \<not> sent \<and> orderly True ops"
| "orderly sent (DoWrite p # ops) \<longleftrightarrow> orderly True ops"
| "orderly sent (DoReadFrom p # ops) \<longleftrightarrow> orderly True ops"
| "orderly sent (DoHeader k v # ops) \<longleftrightarrow> orderly sent ops"

lemma capture_body:
  "cp_body (fst (fold Wrap ops (c, rs))) = cp_body c @ concat (map op_body ops)"
  "snd (fold Wrap ops (c, rs)) = fold plain_op ops rs"
  "concat (map part_text (rs_body (fold plain_op ops rs))) = concat (map part_text (rs_body rs)) @ concat (map op_body ops)"
proof (induction ops arbitrary: c rs)
  case (Cons x ops)
  { case 1 with Cons.IH(1) show ?case by (cases x) simp_all }
  { case 2 with Cons.IH(2) show ?case by (cases x) simp_all }
  { case 3 with Cons.IH(3) show ?case by (cases x) (simp_all add: WriteHeader_def WriteBody_def AddHeader_def Let_def) }
qed simp_all

lemma capture_code:
  "orderly (rs_sent rs \<noteq> None) ops \<Longrightarrow> (\<And>st hdr. rs_sent rs = Some (st, hdr) \<Longrightarrow> st = cp_code c) \<Longrightarrow>
   (rs_sent rs = None \<Longrightarrow> cp_code c = 200) \<Longrightarrow>
   (case rs_sent (fold plain_op ops rs) of
      None \<Rightarrow> cp_code (fst (fold Wrap ops (c, rs))) = 200
    | Some (st, hdr) \<Rightarrow> cp_code (fst (fold Wrap ops (c, rs))) = st)"
proof (induction ops arbitrary: c rs)
  case Nil
  then show ?case by (auto split: option.splits)
next
  case (Cons x ops)
  show ?case
  proof (cases x)
    case (DoWriteHeader st)
    with Cons.prems(1) have "rs_sent rs = None" "orderly True ops" by (cases "rs_sent rs"; simp)+
    with DoWriteHeader Cons.IH [of "plain_op x rs" "c\<lparr>cp_code := st\<rparr>"] show ?thesis
      by (auto simp: WriteHeader_def split: option.splits)
  next
    case (DoWrite p)
    with Cons.prems Cons.IH [of "plain_op x rs" "c\<lparr>cp_body := cp_body c @ p\<rparr>"] show ?thesis
      by (cases "rs_sent rs") (auto simp: WriteHeader_def WriteBody_def Let_def split: option.splits)
  next
    case (DoReadFrom p)
    with Cons.prems Cons.IH [of "plain_op x rs" "c\<lparr>cp_body := cp_body c @ p\<rparr>"] show ?thesis
      by (cases "rs_sent rs") (auto simp: WriteHeader_def WriteBody_def Let_def split: option.splits)
  next
    case (DoHeader k v)
    with Cons.prems Cons.IH [of "plain_op x rs" c] show ?thesis
      by (auto simp: AddHeader_def split: option.splits)
  qed
qed

text \<open>
  Capturing changes nothing of what the client gets, and the captured body is the body sent.  The
  captured status is the one sent, for a handler that writes the status once, before the body.
\<close>

theorem CaptureResponse_faithful:
  assumes "CaptureResponse ops fresh_response = (c, rs)"
  shows "rs = fold plain_op ops fresh_response" and "Body c = concat (map part_text (rs_body rs))"
    and "orderly False ops \<Longrightarrow> StatusCode c = (case rs_sent rs of None \<Rightarrow> 200 | Some (st, hdr) \<Rightarrow> st)"
proof -
  have rs: "fold plain_op ops fresh_response = rs" and c: "c = fst (fold Wrap ops (NewCapture, fresh_response))"
    using assms capture_body(2) [of ops NewCapture fresh_response] by (auto simp: CaptureResponse_def)
  then show "rs = fold plain_op ops fresh_response" by simp
  show "Body c = concat (map part_text (rs_body rs))"
    using capture_body(1) [of ops NewCapture fresh_response] capture_body(3) [of ops fresh_response] rs c
    by (simp add: Body_def NewCapture_def fresh_response_def)
  show "StatusCode c = (case rs_sent rs of None \<Rightarrow> 200 | Some (st, hdr) \<Rightarrow> st)" if "orderly False ops"
    using capture_code [of fresh_response ops NewCapture] that rs c
    by (auto simp: StatusCode_def NewCapture_def fresh_response_def split: option.splits)
qed

text \<open>For other handlers it need not be: the last status is captured, and the first one sent.\<close>

lemma capture_second_status:
  "StatusCode (fst (CaptureResponse [DoWriteHeader 404, DoWriteHeader 500] fresh_response)) = 500 \<and>
   rs_sent (snd (CaptureResponse [DoWriteHeader 404, DoWriteHeader 500] fresh_response)) = Some (404, fmempty)"
  by (simp add: CaptureResponse_def NewCapture_def StatusCode_def fresh_response_def WriteHeader_def)

text \<open>Without a configured origin every request panics.\<close>

lemma cors_no_origins: "cors_Middleware hwalk opwalk \<lparr>AllowedOrigins = [], MaxAge = a\<rparr> next r s = (Panic, s)"
  by (simp add: cors_Middleware_def setAllowOrigin_def Let_def)

section \<open>Instances\<close>

definition sample_path :: "string path_item" where
  "sample_path =
     \<lparr>pi_Operations = fmap_of_list [(''GET'', ''list'')],
      pi_GetOperation = (\<lambda>m. Some (if m = ''GET'' then Some ''list'' else None))\<rparr>"

definition sample_paths :: "string \<Rightarrow> string path_item option" where
  "sample_paths p = (if p = ''/things/{id}'' then Some sample_path else None)"

definition sample_request :: "string \<Rightarrow> header \<Rightarrow> string request" where
  "sample_request m h =
     \<lparr>hr_Method = m, hr_Header = h, hr_Proto = ''HTTP/1.1'', hr_Scheme = '''', hr_Host = '''', hr_Path = ''/things/1'',
      hr_RawQuery = '''', hr_Fragment = '''', hr_URL = ''/things/1'', hr_ContentLength = 0, hr_RemoteAddr = ''10.0.0.1:1234'',
      hr_router = Some (\<lambda>m p. (''/things/{id}'', [''id''], [''1''])), hr_route = None, hr_deadline = None, hr_trace = '''',
      hr_logValues = []\<rparr>"

definition sample_exchange :: exchange where
  "sample_exchange = \<lparr>ex_response = fresh_response, ex_log = []\<rparr>"

lemma sample_exchange_fresh [simp]:
  "rs_sent (ex_response sample_exchange) = None" "rs_header (ex_response sample_exchange) = fmempty" "ex_log sample_exchange = []"
  by (simp_all add: sample_exchange_def fresh_response_def)

lemma sample_route:
  "FindRoute sample_paths (sample_request ''GET'' h) =
     Ok (\<lparr>rt_Path = ''/things/{id}'', rt_PathItem = sample_path, rt_Method = ''GET'', rt_Operation = ''list''\<rparr>,
         fmap_of_list [(''id'', ''1'')])"
  by (simp add: FindRoute_def sample_request_def sample_paths_def sample_path_def)

definition sample_preflight :: header where
  "sample_preflight =
     fmap_of_list [(''Access-Control-Request-Method'', [''GET'']), (''Origin'', [''https://b''])]"

lemma sample_preflight_names:
  "header_Get sample_preflight ''Access-Control-Request-Method'' = ''GET''"
  "header_Get sample_preflight ''Origin'' = ''https://b''"
proof -
  have "CanonicalHeaderKey ''Access-Control-Request-Method'' = ''Access-Control-Request-Method''"
    "CanonicalHeaderKey ''Origin'' = ''Origin''"
    by code_simp+
  then show "header_Get sample_preflight ''Access-Control-Request-Method'' = ''GET''"
    "header_Get sample_preflight ''Origin'' = ''https://b''"
    by (simp_all add: header_Get_def header_values_def sample_preflight_def)
qed

lemma preflight_answered_witness:
  "\<exists>s' hdr. route_Middleware (\<lambda>_. []) sample_paths
       (cors_Middleware (\<lambda>_. []) (\<lambda>_. [(''GET'', ''list'')]) \<lparr>AllowedOrigins = [''https://a'', ''https://b''], MaxAge = 60\<rparr>
          (\<lambda>r s. (Panic, s)))
       (sample_request ''OPTIONS'' sample_preflight) sample_exchange = (Ok (), s') \<and>
     rs_sent (ex_response s') = Some (204, hdr) \<and>
     header_values hdr ''Access-Control-Allow-Origin'' = [''https://b''] \<and>
     header_values hdr ''Access-Control-Allow-Methods'' = [''GET, OPTIONS'']"
proof -
  let ?r = "sample_request ''OPTIONS'' sample_preflight"
  have r: "hr_Method ?r = MethodOptions" "hr_Header ?r = sample_preflight"
    "?r\<lparr>hr_Method := ''GET''\<rparr> = sample_request ''GET'' sample_preflight"
    by (simp_all add: sample_request_def MethodOptions_def)
  have route: "FindRoute sample_paths (?r\<lparr>hr_Method := ''GET''\<rparr>) =
      Ok (\<lparr>rt_Path = ''/things/{id}'', rt_PathItem = sample_path, rt_Method = ''GET'', rt_Operation = ''list''\<rparr>,
         fmap_of_list [(''id'', ''1'')])"
    unfolding r(3) by (rule sample_route)
  from preflight_answered [OF r(1) _ _ route, of "\<lparr>AllowedOrigins = [''https://a'', ''https://b''], MaxAge = 60\<rparr>" sample_exchange
      "\<lambda>_. []" "\<lambda>_. [(''GET'', ''list'')]" "\<lambda>r s. (Panic, s)"] r(2)
  show ?thesis by (force simp: sample_preflight_names)
qed

lemma preflight_stops_witness:
  "route_Middleware (\<lambda>_. []) sample_paths
       (cors_Middleware (\<lambda>_. []) (\<lambda>_. []) \<lparr>AllowedOrigins = [''*''], MaxAge = 60\<rparr> (\<lambda>r s. (Panic, s)))
       (sample_request ''OPTIONS'' sample_preflight) sample_exchange =
   route_Middleware (\<lambda>_. []) sample_paths
       (cors_Middleware (\<lambda>_. []) (\<lambda>_. []) \<lparr>AllowedOrigins = [''*''], MaxAge = 60\<rparr> (\<lambda>r s. (Ok (), s)))
       (sample_request ''OPTIONS'' sample_preflight) sample_exchange"
  by (rule preflight_stops) (simp add: sample_request_def MethodOptions_def)

lemma route_Middleware_resolves_witness:
  "\<exists>s' st hdr. route_Middleware (\<lambda>_. []) sample_paths (\<lambda>r s. (Panic, s)) (sample_request ''PUT'' fmempty) sample_exchange = (Ok (), s') \<and>
     rs_sent (ex_response s') = Some (st, hdr) \<and> (st = 404 \<or> st = 405)"
proof -
  have "\<exists>e. FindRoute sample_paths (sample_request ''PUT'' fmempty) = Err e"
    by (simp add: FindRoute_def sample_request_def sample_paths_def sample_path_def)
  moreover have "hr_Method (sample_request ''PUT'' fmempty) \<noteq> MethodOptions"
    by (simp add: sample_request_def MethodOptions_def)
  ultimately show ?thesis
    using route_Middleware_resolves [of "sample_request ''PUT'' fmempty" sample_exchange sample_paths "\<lambda>_. []" "\<lambda>r s. (Panic, s)"]
    by auto
qed


end
