(* ===== verification/Telemetry.thy ===== *)
theory Telemetry
  imports Middleware
begin

text \<open>
  Tracing (\<open>pkg/server/middleware/opentelemetry/opentelemetry.go\<close>): the attributes of a request and of a
  response, and the middleware that puts a span around an exchange.  Attributes are named after the
  semantic conventions they use.  The tracer is third-party: its span and trace identifiers are
  arguments, and so is the reason phrase of a status.
\<close>

section \<open>Attributes\<close>

datatype http_method_attr =
    MethodConnect | MethodDelete | MethodGet | MethodHead | MethodOptions' | MethodPatch | MethodPost | MethodPut
  | MethodTrace | MethodOther

datatype attribute =
    ServiceName string | ServiceVersion string
  | NetworkProtocolName string | NetworkProtocolVersion string
  | HTTPRequestMethod http_method_attr | HTTPRequestBodySize int
  | StringAttr string string | StringSliceAttr string "string list"
  | UserAgentOriginal string
  | URLScheme string | URLPath string | URLQuery string | URLFragment string
  | ServerAddress string | ServerPort int | ClientAddress string | ClientPort int
  | HTTPResponseStatusCode nat | HTTPResponseBodySize int

definition headerBlackList :: "string list" where
  "headerBlackList = [''authorization'', ''user-agent'']"

text \<open>\<open>strings.ToLower\<close> on the ASCII text that header names are.\<close>

definition ToLower :: "string \<Rightarrow> string" where "ToLower s = map to_lower s"

definition header_attribute :: "string \<Rightarrow> string \<times> string list \<Rightarrow> attribute list" where
  "header_attribute pre kv =
     (let normalizedKey = ToLower (fst kv); key = pre @ ''.'' @ normalizedKey in
      if normalizedKey \<in> set headerBlackList then []
      else case snd kv of [v] \<Rightarrow> [StringAttr key v] | values \<Rightarrow> [StringSliceAttr key values])"

text \<open>\<open>walk\<close> is the order in which the headers are visited.\<close>

definition httpHeaderAttributes ::
    "(header \<Rightarrow> (string \<times> string list) list) \<Rightarrow> header \<Rightarrow> string \<Rightarrow> attribute list" where
  "httpHeaderAttributes walk header pre = concat (map (header_attribute pre) (walk header))"

definition method_attr :: "string \<Rightarrow> http_method_attr" where
  "method_attr m =
     (if m = ''CONNECT'' then MethodConnect else if m = ''DELETE'' then MethodDelete else if m = ''GET'' then MethodGet
      else if m = ''HEAD'' then MethodHead else if m = ''OPTIONS'' then MethodOptions' else if m = ''PATCH'' then MethodPatch
      else if m = ''POST'' then MethodPost else if m = ''PUT'' then MethodPut else if m = ''TRACE'' then MethodTrace
      else MethodOther)"

definition second_part :: "string list \<Rightarrow> string result" where
  "second_part parts = (case parts of _ # p # _ \<Rightarrow> Ok p | _ \<Rightarrow> Panic)"

definition server_port :: "string list \<Rightarrow> int" where
  "server_port hostPort =
     (if length hostPort > 1 then (case Atoi (hostPort ! 1) of Some t \<Rightarrow> t | None \<Rightarrow> 80) else 80)"

definition httpRequestAttributes ::
    "(header \<Rightarrow> (string \<times> string list) list) \<Rightarrow> 'op request \<Rightarrow> attribute list result" where
  "httpRequestAttributes walk r =
     (let protoVersion = str_split (CHR ''/'') (hr_Proto r);
          userAgent = header_Get (hr_Header r) ''User-Agent'';
          serverHostPort = str_split (CHR '':'') (hr_Host r);
          clientHostPort = str_split (CHR '':'') (hr_RemoteAddr r)
      in bind_outcome (second_part protoVersion) (\<lambda>version.
         bind_outcome (second_part clientHostPort) (\<lambda>port.
         Ok ([NetworkProtocolName (hd protoVersion), NetworkProtocolVersion version,
              HTTPRequestMethod (method_attr (hr_Method r)), HTTPRequestBodySize (hr_ContentLength r)] @
             httpHeaderAttributes walk (hr_Header r) ''http.request.header'' @
             (if userAgent \<noteq> '''' then [UserAgentOriginal userAgent] else []) @
             [URLScheme (if hr_Scheme r \<noteq> '''' then hr_Scheme r else ''http''), URLPath (hr_Path r)] @
             (if hr_RawQuery r \<noteq> '''' then [URLQuery (hr_RawQuery r)] else []) @
             (if hr_Fragment r \<noteq> '''' then [URLFragment (hr_Fragment r)] else []) @
             [ServerAddress (hd serverHostPort), ServerPort (server_port serverHostPort), ClientAddress (hd clientHostPort)] @
             (case Atoi port of Some p \<Rightarrow> [ClientPort p] | None \<Rightarrow> [])))))"

definition httpResponseAttributes ::
    "(header \<Rightarrow> (string \<times> string list) list) \<Rightarrow> metrics \<Rightarrow> body_part response \<Rightarrow> attribute list" where
  "httpResponseAttributes walk m rs =
     [HTTPResponseStatusCode (me_Code m), HTTPResponseBodySize (me_Written m)] @
     httpHeaderAttributes walk (rs_header rs) ''http.response.header''"

datatype otel_code = OtelOk | OtelError

definition httpStatusToOtelCode :: "(nat \<Rightarrow> string) \<Rightarrow> nat \<Rightarrow> otel_code \<times> string" where
  "httpStatusToOtelCode statusText status = (if status \<ge> 400 then OtelError else OtelOk, statusText status)"

section \<open>The middleware\<close>

record span =
  sp_Name :: string
  sp_Attributes :: "attribute list"
  sp_Status :: "(otel_code \<times> string) option"

record traced = exchange +
  tr_ended :: "span list"

record otel =
  ot_serviceName :: string
  ot_version :: string

definition logValuesFromSpanContext :: "string \<Rightarrow> string \<Rightarrow> string \<Rightarrow> string list" where
  "logValuesFromSpanContext name spanID traceID = [''spanName'', name, ''spanID'', spanID, ''traceID'', traceID]"

text \<open>
  The span ends when the handler is left, by a panic too; then it has no response attributes and no
  status.  \<open>start\<close> gives the identifiers of the span that the tracer starts for a request.
\<close>

definition otel_Middleware ::
    "(header \<Rightarrow> (string \<times> string list) list) \<Rightarrow> (nat \<Rightarrow> string) \<Rightarrow> ('op request \<Rightarrow> string \<times> string) \<Rightarrow>
     (body_part response \<Rightarrow> body_part response \<Rightarrow> metrics) \<Rightarrow> otel \<Rightarrow>
     ('op request \<Rightarrow> 'z traced_scheme \<Rightarrow> unit result \<times> 'z traced_scheme) \<Rightarrow>
     'op request \<Rightarrow> 'z traced_scheme \<Rightarrow> unit result \<times> 'z traced_scheme" where
  "otel_Middleware walk statusText start measure_response ot next r s =
     (case httpRequestAttributes walk r of
        Ok ras \<Rightarrow>
          (let attr = ServiceName (ot_serviceName ot) # ServiceVersion (ot_version ot) # ras;
               name = hr_Path r
           in case start r of (spanID, traceID) \<Rightarrow>
             (let r' = r\<lparr>hr_trace := traceID, hr_logValues := logValuesFromSpanContext name spanID traceID\<rparr>
              in case next r' s of
                (Ok _, s') \<Rightarrow>
                  (let m = measure_response (ex_response s) (ex_response s');
                       sp = \<lparr>sp_Name = name, sp_Attributes = attr @ httpResponseAttributes walk m (ex_response s'),
                             sp_Status = Some (httpStatusToOtelCode statusText (me_Code m))\<rparr>
                   in (Ok (), s'\<lparr>tr_ended := tr_ended s' @ [sp]\<rparr>))
              | (x, s') \<Rightarrow>
                  (x, s'\<lparr>tr_ended := tr_ended s' @ [\<lparr>sp_Name = name, sp_Attributes = attr, sp_Status = None\<rparr>]\<rparr>)))
      | Err e \<Rightarrow> (Err e, s)
      | Panic \<Rightarrow> (Panic, s))"

section \<open>When a request can be traced\<close>

lemma second_part_split: "second_part (str_split c s) = Panic \<longleftrightarrow> c \<notin> set s"
proof -
  have "second_part (str_split c s) = Panic \<longleftrightarrow> length (str_split c s) \<le> 1"
    by (auto simp: second_part_def split: list.splits)
  then show ?thesis by (simp add: length_str_split count_list_0_iff)
qed

lemma second_part_not_Err: "second_part parts \<noteq> Err e"
  by (auto simp: second_part_def split: list.splits)

text \<open>
  The middleware serves every request whose protocol has a slash and whose remote address a colon, and
  panics on any other before the handler has run.
\<close>

theorem httpRequestAttributes_panics:
  "httpRequestAttributes walk r = Panic \<longleftrightarrow> CHR ''/'' \<notin> set (hr_Proto r) \<or> CHR '':'' \<notin> set (hr_RemoteAddr r)"
  using second_part_split [of "CHR ''/''" "hr_Proto r"] second_part_split [of "CHR '':''" "hr_RemoteAddr r"]
    second_part_not_Err [of "str_split (CHR ''/'') (hr_Proto r)"] second_part_not_Err [of "str_split (CHR '':'') (hr_RemoteAddr r)"]
  by (cases "second_part (str_split (CHR ''/'') (hr_Proto r))"; cases "second_part (str_split (CHR '':'') (hr_RemoteAddr r))")
    (auto simp: httpRequestAttributes_def Let_def)

text \<open>The address of an IPv6 client is recorded as an opening bracket, and its port is lost.\<close>

lemma ipv6_client:
  "hr_Proto r = ''HTTP/1.1'' \<Longrightarrow> hr_RemoteAddr r = ''[::1]:443'' \<Longrightarrow> httpRequestAttributes walk r = Ok as \<Longrightarrow>
   ClientAddress ''['' \<in> set as \<and> (\<forall>p. ClientPort p \<notin> set as \<or> ClientPort p \<in> set (httpHeaderAttributes walk (hr_Header r) ''http.request.header''))"
  by (auto simp: httpRequestAttributes_def Let_def second_part_def Atoi_def unsigned_value_def bind_outcome_Ok_iff
      split: if_splits)

section \<open>What spans show\<close>

definition attr_of :: "string \<Rightarrow> string \<Rightarrow> string list \<Rightarrow> attribute" where
  "attr_of pre k vs =
     (case vs of [v] \<Rightarrow> StringAttr (pre @ ''.'' @ ToLower k) v | _ \<Rightarrow> StringSliceAttr (pre @ ''.'' @ ToLower k) vs)"

lemma mem_header_attribute:
  "a \<in> set (header_attribute pre (k, vs)) \<longleftrightarrow> ToLower k \<notin> set headerBlackList \<and> a = attr_of pre k vs"
  by (auto simp: header_attribute_def attr_of_def Let_def split: list.splits)

lemma mem_httpHeaderAttributes:
  assumes "walk_of h (walk h)"
  shows "a \<in> set (httpHeaderAttributes walk h pre) \<longleftrightarrow>
    (\<exists>k vs. fmlookup h k = Some vs \<and> ToLower k \<notin> set headerBlackList \<and> a = attr_of pre k vs)"
proof -
  have "a \<in> set (httpHeaderAttributes walk h pre) \<longleftrightarrow> (\<exists>k vs. (k, vs) \<in> set (walk h) \<and> a \<in> set (header_attribute pre (k, vs)))"
    unfolding httpHeaderAttributes_def by force
  then show ?thesis unfolding mem_header_attribute walk_of_mem [OF assms] .
qed

lemma attr_of_eq:
  "StringAttr (pre @ ''.'' @ k) v = attr_of pre n vs \<longleftrightarrow> ToLower n = k \<and> vs = [v]"
  "StringSliceAttr (pre @ ''.'' @ k) vs' = attr_of pre n vs \<longleftrightarrow> ToLower n = k \<and> vs = vs' \<and> length vs \<noteq> 1"
  by (auto simp: attr_of_def length_Suc_conv split: list.splits)

text \<open>
  Every header but the two on the list is in the span, with all its values; the \<open>Authorization\<close> header
  is not, in whatever case it was sent.
\<close>

theorem httpHeaderAttributes_exact:
  assumes "walk_of h (walk h)"
  shows "StringAttr (pre @ ''.'' @ k) v \<in> set (httpHeaderAttributes walk h pre) \<longleftrightarrow>
      (\<exists>name. fmlookup h name = Some [v] \<and> ToLower name = k \<and> k \<noteq> ''authorization'' \<and> k \<noteq> ''user-agent'')"
    and "StringSliceAttr (pre @ ''.'' @ k) vs \<in> set (httpHeaderAttributes walk h pre) \<longleftrightarrow>
      (\<exists>name. fmlookup h name = Some vs \<and> length vs \<noteq> 1 \<and> ToLower name = k \<and> k \<noteq> ''authorization'' \<and> k \<noteq> ''user-agent'')"
  unfolding mem_httpHeaderAttributes [of h walk, OF assms] attr_of_eq headerBlackList_def by auto

text \<open>Cookies, which the logging middleware removes, are recorded.\<close>

lemma cookies_recorded:
  assumes "walk_of h (walk h)" and "fmlookup h ''Cookie'' = Some [v]"
  shows "StringAttr (''http.request.header'' @ ''.'' @ ''cookie'') v \<in> set (httpHeaderAttributes walk h ''http.request.header'')"
proof -
  have "ToLower ''Cookie'' = ''cookie''" by code_simp
  with assms show ?thesis unfolding httpHeaderAttributes_exact(1) [of h walk, OF assms(1)] by auto
qed

end
