(* ===== verification/Net_Types.thy ===== *)
theory Net_Types
  imports Http Utf8
begin

text \<open>
  The value types of the API (\<open>pkg/apis/unikorn/v1alpha1/types.go\<close>): IPv4 addresses and prefixes with their
  JSON forms and the patterns that the schema validates them by, and semantic versions.  Addresses are
  those of \<open>net\<close>: the dotted form is modelled, text with a colon is left to the argument \<open>parse_v6\<close>.
  The semantic version library is third-party.
\<close>

unbundle bit_operations_syntax

section \<open>JSON strings\<close>

text \<open>A JSON value as far as it is decoded into a string: \<open>null\<close> leaves the string empty.\<close>

datatype json_value = JString string | JNull | JOther

fun unmarshal_string :: "json_value \<Rightarrow> string result" where
  "unmarshal_string (JString s) = Ok s"
| "unmarshal_string JNull = Ok ''''"
| "unmarshal_string JOther = Err (OtherError ''json: cannot unmarshal into Go value of type string'')"

definition marshal_string :: "string \<Rightarrow> json_value" where
  "marshal_string s = JString (json_text s)"

section \<open>Addresses (net)\<close>

type_synonym ip = "8 word list"

text \<open>An octet of a dotted address: decimal digits, no leading zero, at most 255.\<close>

definition octet :: "string \<Rightarrow> 8 word option" where
  "octet f =
     (if 1 < length f \<and> hd f = CHR ''0'' then None
      else case unsigned_value f of Some n \<Rightarrow> if n \<le> 255 then Some (of_nat n) else None | None \<Rightarrow> None)"

fun all_some :: "'a option list \<Rightarrow> 'a list option" where
  "all_some [] = Some []"
| "all_some (None # xs) = None"
| "all_some (Some x # xs) = map_option (Cons x) (all_some xs)"

definition parse_v4 :: "string \<Rightarrow> ip option" where
  "parse_v4 s =
     (let fs = str_split (CHR ''.'') s in if length fs = 4 then all_some (map octet fs) else None)"

definition v4InV6Prefix :: ip where
  "v4InV6Prefix = replicate 10 0 @ [0xff, 0xff]"

text \<open>The first dot, colon or percent sign decides the form.\<close>

fun address_form :: "string \<Rightarrow> char option" where
  "address_form [] = None"
| "address_form (c # cs) = (if c = CHR ''.'' \<or> c = CHR '':'' \<or> c = CHR ''%'' then Some c else address_form cs)"

text \<open>An address with the number of its bits.\<close>

definition parse_addr :: "(string \<Rightarrow> ip option) \<Rightarrow> string \<Rightarrow> (ip \<times> nat) option" where
  "parse_addr parse_v6 s =
     (case address_form s of
        Some c \<Rightarrow>
          if c = CHR ''.'' then map_option (\<lambda>b. (v4InV6Prefix @ b, 32)) (parse_v4 s)
          else if c = CHR '':'' then map_option (\<lambda>b. (b, 128)) (parse_v6 s)
          else None
      | None \<Rightarrow> None)"

definition ParseIP :: "(string \<Rightarrow> ip option) \<Rightarrow> string \<Rightarrow> ip option" where
  "ParseIP parse_v6 s = map_option fst (parse_addr parse_v6 s)"

definition To4 :: "ip \<Rightarrow> ip option" where
  "To4 i =
     (if length i = 4 then Some i
      else if length i = 16 \<and> take 12 i = v4InV6Prefix then Some (drop 12 i) else None)"

definition dotted :: "ip \<Rightarrow> string" where
  "dotted b = str_join ''.'' (map (\<lambda>x. show_nat (unat x)) b)"

definition hex_ip :: "ip \<Rightarrow> string" where
  "hex_ip b = hex_bytes (map (\<lambda>x. char_of (unat x)) b)"

definition ip_String :: "(ip \<Rightarrow> string) \<Rightarrow> ip \<Rightarrow> string" where
  "ip_String show_v6 i =
     (if i = [] then ''<nil>''
      else case To4 i of
        Some b \<Rightarrow> dotted b
      | None \<Rightarrow> if length i = 16 then show_v6 i else CHR ''?'' # hex_ip i)"

fun cidr_mask :: "nat \<Rightarrow> nat \<Rightarrow> ip" where
  "cidr_mask n 0 = []"
| "cidr_mask n (Suc l) =
     (if n \<ge> 8 then 0xff # cidr_mask (n - 8) l else NOT (drop_bit n 0xff) # cidr_mask 0 l)"

definition apply_mask :: "ip \<Rightarrow> ip \<Rightarrow> ip" where
  "apply_mask i ms =
     (let i = (if length ms = 4 \<and> length i = 16 \<and> take 12 i = v4InV6Prefix then drop 12 i else i)
      in if length i \<noteq> length ms then [] else map2 (AND) i ms)"

record ipnet =
  net_IP :: ip
  net_Mask :: ip

text \<open>\<open>net.ParseCIDR\<close>; only the network is used.\<close>

definition ParseCIDR :: "(string \<Rightarrow> ip option) \<Rightarrow> string \<Rightarrow> ipnet option" where
  "ParseCIDR parse_v6 s =
     (if CHR ''/'' \<notin> set s then None
      else
        (let addr = takeWhile (\<lambda>c. c \<noteq> CHR ''/'') s; bits_text = drop (Suc (length addr)) s
         in case parse_addr parse_v6 addr of
              None \<Rightarrow> None
            | Some (i, bits) \<Rightarrow>
                (case unsigned_value bits_text of
                   Some n \<Rightarrow>
                     if n \<le> bits
                     then Some \<lparr>net_IP = apply_mask i (cidr_mask n (bits div 8)), net_Mask = cidr_mask n (bits div 8)\<rparr>
                     else None
                 | None \<Rightarrow> None)))"

text \<open>The number of leading ones of a mask that has ones only there.\<close>

fun byte_ones :: "nat \<Rightarrow> 8 word \<Rightarrow> nat" where
  "byte_ones 0 w = 0"
| "byte_ones (Suc k) w = (if bit w 7 then Suc (byte_ones k (push_bit 1 w)) else 0)"

fun mask_length :: "ip \<Rightarrow> nat option" where
  "mask_length [] = Some 0"
| "mask_length (b # bs) =
     (if b = 0xff then map_option (\<lambda>n. n + 8) (mask_length bs)
      else if b = NOT (drop_bit (byte_ones 8 b) 0xff) \<and> list_all (\<lambda>x. x = 0) bs then Some (byte_ones 8 b) else None)"

definition ipnet_String :: "(ip \<Rightarrow> string) \<Rightarrow> ipnet \<Rightarrow> string" where
  "ipnet_String show_v6 p =
     (let nn = (case To4 (net_IP p) of Some b \<Rightarrow> Some b
                | None \<Rightarrow> if length (net_IP p) = 16 then Some (net_IP p) else None);
          m = (case nn of None \<Rightarrow> None
               | Some nn \<Rightarrow>
                   if length (net_Mask p) = 4 \<and> length nn = 4 then Some (net_Mask p)
                   else if length (net_Mask p) = 16 then Some (if length nn = 4 then drop 12 (net_Mask p) else net_Mask p)
                   else None)
      in case (nn, m) of
           (Some nn, Some m) \<Rightarrow>
             ip_String show_v6 nn @ ''/'' @ (case mask_length m of Some l \<Rightarrow> show_nat l | None \<Rightarrow> hex_ip m)
         | _ \<Rightarrow> ''<nil>'')"

section \<open>IPv4Address\<close>

definition json_error :: "string \<Rightarrow> string \<Rightarrow> gerror" where
  "json_error what str = Wrapf '''' (Sentinel ErrJSONUnmarshal) ('': not an IPv4 '' @ what @ '' '' @ [CHR 0x27] @ str @ [CHR 0x27])"

definition IPv4Address_UnmarshalJSON :: "(string \<Rightarrow> ip option) \<Rightarrow> json_value \<Rightarrow> ip result" where
  "IPv4Address_UnmarshalJSON parse_v6 b =
     bind_outcome (unmarshal_string b) (\<lambda>str.
       case ParseIP parse_v6 str of None \<Rightarrow> Err (json_error ''address'' str) | Some i \<Rightarrow> Ok i)"

definition IPv4Address_MarshalJSON :: "(ip \<Rightarrow> string) \<Rightarrow> ip \<Rightarrow> json_value" where
  "IPv4Address_MarshalJSON show_v6 a = marshal_string (ip_String show_v6 a)"

definition IPv4Address_ToUnstructured :: "(ip \<Rightarrow> string) \<Rightarrow> ip \<Rightarrow> string" where
  "IPv4Address_ToUnstructured show_v6 a = ip_String show_v6 a"

definition IPv4AddressSliceFromIPSlice :: "ip list \<Rightarrow> ip list" where
  "IPv4AddressSliceFromIPSlice ins = map (\<lambda>i. i) ins"

section \<open>IPv4Prefix\<close>

definition IPv4Prefix_UnmarshalJSON :: "(string \<Rightarrow> ip option) \<Rightarrow> json_value \<Rightarrow> ipnet result" where
  "IPv4Prefix_UnmarshalJSON parse_v6 b =
     bind_outcome (unmarshal_string b) (\<lambda>str.
       case ParseCIDR parse_v6 str of None \<Rightarrow> Err (json_error ''prefix'' str) | Some network \<Rightarrow> Ok network)"

definition IPv4Prefix_MarshalJSON :: "(ip \<Rightarrow> string) \<Rightarrow> ipnet \<Rightarrow> json_value" where
  "IPv4Prefix_MarshalJSON show_v6 p = marshal_string (ipnet_String show_v6 p)"

definition IPv4Prefix_ToUnstructured :: "(ip \<Rightarrow> string) \<Rightarrow> ipnet \<Rightarrow> string" where
  "IPv4Prefix_ToUnstructured show_v6 p = ipnet_String show_v6 p"

text \<open>\<open>DeepCopyInto\<close>: a nil field of the source leaves the target's as it is.\<close>

definition IPv4Prefix_DeepCopyInto :: "ip option \<times> ip option \<Rightarrow> ip option \<times> ip option \<Rightarrow> ip option \<times> ip option" where
  "IPv4Prefix_DeepCopyInto p out =
     (case fst p of None \<Rightarrow> fst out | Some b \<Rightarrow> Some b, case snd p of None \<Rightarrow> snd out | Some b \<Rightarrow> Some b)"

section \<open>The schema's patterns\<close>

definition digit :: "char \<Rightarrow> bool" where "digit c \<longleftrightarrow> CHR ''0'' \<le> c \<and> c \<le> CHR ''9''"

text \<open>\<open>25[0-5]|2[0-4][0-9]|[01]?[0-9]?[0-9]\<close>.\<close>

fun octet_pattern :: "string \<Rightarrow> bool" where
  "octet_pattern [a] \<longleftrightarrow> digit a"
| "octet_pattern [a, b] \<longleftrightarrow> digit a \<and> digit b"
| "octet_pattern [a, b, c] \<longleftrightarrow>
     (a = CHR ''2'' \<and> b = CHR ''5'' \<and> CHR ''0'' \<le> c \<and> c \<le> CHR ''5'') \<or>
     (a = CHR ''2'' \<and> CHR ''0'' \<le> b \<and> b \<le> CHR ''4'' \<and> digit c) \<or>
     ((a = CHR ''0'' \<or> a = CHR ''1'') \<and> digit b \<and> digit c)"
| "octet_pattern _ \<longleftrightarrow> False"

definition address_pattern :: "string \<Rightarrow> bool" where
  "address_pattern s \<longleftrightarrow>
     (let fs = str_split (CHR ''.'') s in length fs = 4 \<and> list_all octet_pattern fs)"

definition length_pattern :: "string \<Rightarrow> bool" where
  "length_pattern s \<longleftrightarrow>
     (case s of
        [a] \<Rightarrow> digit a
      | [a, b] \<Rightarrow> (a = CHR ''3'' \<and> CHR ''0'' \<le> b \<and> b \<le> CHR ''2'') \<or> ((a = CHR ''1'' \<or> a = CHR ''2'') \<and> digit b)
      | _ \<Rightarrow> False)"

section \<open>Semantic versions\<close>

text \<open>The version library, and a version or a constraint as a value of it.\<close>

record ('v, 'c) semver_lib =
  sl_Compare :: "'v \<Rightarrow> 'v \<Rightarrow> int"
  sl_Equal :: "'v \<Rightarrow> 'v \<Rightarrow> bool"
  sl_UnmarshalJSON :: "json_value \<Rightarrow> 'v result"
  sl_Original :: "'v \<Rightarrow> string"
  sl_NewConstraint :: "string \<Rightarrow> 'c result"
  sl_Check :: "'c \<Rightarrow> 'v \<Rightarrow> bool"
  sl_String :: "'c \<Rightarrow> string"

definition SemanticVersion_Compare :: "('v, 'c) semver_lib \<Rightarrow> 'v \<Rightarrow> 'v \<Rightarrow> int" where
  "SemanticVersion_Compare lib v u = sl_Compare lib v u"

definition SemanticVersion_Equal :: "('v, 'c) semver_lib \<Rightarrow> 'v \<Rightarrow> 'v \<Rightarrow> bool" where
  "SemanticVersion_Equal lib v u = sl_Equal lib v u"

definition SemanticVersion_UnmarshalJSON :: "('v, 'c) semver_lib \<Rightarrow> json_value \<Rightarrow> 'v result" where
  "SemanticVersion_UnmarshalJSON lib b = sl_UnmarshalJSON lib b"

definition SemanticVersion_MarshalJSON :: "('v, 'c) semver_lib \<Rightarrow> 'v \<Rightarrow> json_value" where
  "SemanticVersion_MarshalJSON lib v = marshal_string (sl_Original lib v)"

definition SemanticVersion_ToUnstructured :: "('v, 'c) semver_lib \<Rightarrow> 'v \<Rightarrow> string" where
  "SemanticVersion_ToUnstructured lib v = sl_Original lib v"

definition Constraints_Check :: "('v, 'c) semver_lib \<Rightarrow> 'c \<Rightarrow> 'v \<Rightarrow> bool" where
  "Constraints_Check lib c v = sl_Check lib c v"

definition Constraints_UnmarshalJSON :: "('v, 'c) semver_lib \<Rightarrow> json_value \<Rightarrow> 'c result" where
  "Constraints_UnmarshalJSON lib b = bind_outcome (unmarshal_string b) (sl_NewConstraint lib)"

definition Constraints_MarshalJSON :: "('v, 'c) semver_lib \<Rightarrow> 'c \<Rightarrow> json_value" where
  "Constraints_MarshalJSON lib c = marshal_string (sl_String lib c)"

definition Constraints_ToUnstructured :: "('v, 'c) semver_lib \<Rightarrow> 'c \<Rightarrow> string" where
  "Constraints_ToUnstructured lib c = sl_String lib c"

text \<open>A copy goes through the text; when that cannot be read back, the target stays as it was.\<close>

definition Constraints_DeepCopyInto :: "('v, 'c) semver_lib \<Rightarrow> 'c \<Rightarrow> 'c \<Rightarrow> 'c" where
  "Constraints_DeepCopyInto lib c out = (case sl_NewConstraint lib (sl_String lib c) of Ok c' \<Rightarrow> c' | _ \<Rightarrow> out)"

section \<open>Specifications\<close>

text \<open>\<open>'q\<close> are quantities.\<close>

record 'q machine_generic =
  mg_ImageID :: string
  mg_FlavorID :: string
  mg_DiskSize :: "'q option"
  mg_Replicas :: int

record network_generic =
  ng_NodeNetwork :: ipnet
  ng_DNSNameservers :: "ip list"

definition ApplicationReferenceKindHelm :: string where
  "ApplicationReferenceKindHelm = ''HelmApplication''"

record 'v application_reference =
  ar_Kind :: "string option"
  ar_Name :: "string option"
  ar_Version :: 'v

record 'v application_named_reference =
  an_Name :: "string option"
  an_Reference :: "'v application_reference option"

section \<open>Octets\<close>

lemma digits_value_append:
  "digits_value n (xs @ ys) = (case digits_value n xs of None \<Rightarrow> None | Some m \<Rightarrow> digits_value m ys)"
  by (induction xs arbitrary: n) auto

lemma digits_value_ge: "digits_value n xs = Some m \<Longrightarrow> n \<le> m"
proof (induction xs arbitrary: n)
  case Nil
  then show ?case by simp
next
  case (Cons c cs)
  then have "10 * n + (of_char c - 48) \<le> m" by (auto split: if_splits)
  then show ?case by simp
qed

lemma digit_char: "digit c \<Longrightarrow> (of_char c :: nat) \<ge> 48 \<and> (of_char c :: nat) \<le> 57 \<and> char_of (48 + (of_char c - 48 :: nat)) = c"
  by (simp add: digit_def less_eq_char_def)

lemma char_of_digits [simp]:
  "char_of (48 :: nat) = CHR ''0''" "char_of (49 :: nat) = CHR ''1''" "char_of (50 :: nat) = CHR ''2''" "char_of (53 :: nat) = CHR ''5''"
  by code_simp+

lemma show_nat_digits:
  assumes "digits_value 0 (c # cs) = Some n" and "c = CHR ''0'' \<longrightarrow> cs = []"
  shows "show_nat n = c # cs"
  using assms
proof (induction cs arbitrary: n rule: rev_induct)
  case Nil
  then have "digit c" and n: "n = of_char c - 48" by (auto simp: digit_def split: if_splits)
  with digit_char [of c] have "n < 10" "char_of (48 + n) = c" by auto
  then show ?case by (simp add: show_nat.simps [of n])
next
  case (snoc d ds)
  then obtain m where m: "digits_value 0 (c # ds) = Some m" and d: "digit d" and n: "n = 10 * m + (of_char d - 48)"
    using digits_value_append [of 0 "c # ds" "[d]"] by (auto simp: digit_def split: option.splits if_splits)
  have "c \<noteq> CHR ''0''" using snoc.prems(2) by auto
  moreover have "digit c" using m by (auto simp: digit_def split: if_splits)
  ultimately have "(of_char c :: nat) - 48 > 0"
    using digit_char [of c] by (cases "(of_char c :: nat) = 48") (auto simp: of_char_eq_iff [symmetric, of c "CHR ''0''"])
  moreover have "(of_char c :: nat) - 48 \<le> m"
    using m digits_value_ge [of "of_char c - 48" ds m] by (auto split: if_splits)
  ultimately have "m > 0" by simp
  have "show_nat m = c # ds" using snoc.IH [OF m] \<open>c \<noteq> CHR ''0''\<close> by simp
  moreover obtain k :: nat where k: "k = of_char d - 48" "k < 10" "char_of (48 + k) = d" using digit_char [OF d] by auto
  moreover from n k have "n div 10 = m" "n mod 10 = k" by auto
  ultimately show ?case using \<open>m > 0\<close> by (simp add: show_nat.simps [of n])
qed

lemma octet_canonical: "octet f = Some w \<Longrightarrow> f = show_nat (unat w)"
proof -
  assume "octet f = Some w"
  then obtain n where n: "unsigned_value f = Some n" "n \<le> 255" "w = of_nat n" and z: "\<not> (1 < length f \<and> hd f = CHR ''0'')"
    by (auto simp: octet_def split: if_splits option.splits)
  then obtain c cs where f: "f = c # cs" by (cases f) (auto simp: unsigned_value_def)
  have "unat w = n" using n by (simp add: unat_of_nat)
  with n z f show_nat_digits [of c cs n] show ?thesis by (auto simp: unsigned_value_def)
qed

lemma digit_char_of: "k < 10 \<Longrightarrow> digit (char_of (48 + k))" "k < 10 \<Longrightarrow> of_char (char_of (48 + k)) = (48 + k :: nat)"
  by (simp_all add: digit_def less_eq_char_def)

lemma digits_value_show: "digits_value 0 (show_nat n) = Some n"
proof (induction n rule: show_nat.induct)
  case (1 n)
  show ?case
  proof (cases "n < 10")
    case True
    with digit_char_of [OF True] show ?thesis by (simp add: show_nat.simps [of n] digit_def)
  next
    case False
    have "digits_value m [char_of (48 + n mod 10)] = Some (10 * m + n mod 10)" for m
      using digit_char_of [of "n mod 10"] by (simp add: digit_def)
    with 1 [OF False] False show ?thesis
      by (subst show_nat.simps) (simp add: digits_value_append)
  qed
qed

lemma hd_show_nat: "n > 0 \<Longrightarrow> hd (show_nat n) \<noteq> CHR ''0''"
proof (induction n rule: show_nat.induct)
  case (1 n)
  show ?case
  proof (cases "n < 10")
    case True
    have "char_of (48 + n) \<noteq> CHR ''0''"
    proof
      assume "char_of (48 + n) = CHR ''0''"
      then have "of_char (char_of (48 + n)) = (of_char (CHR ''0'') :: nat)" by (rule arg_cong)
      with digit_char_of(2) [OF True] 1 show False by simp
    qed
    with True 1 show ?thesis by (simp add: show_nat.simps [of n])
  next
    case False
    with 1 show ?thesis by (subst show_nat.simps) simp
  qed
qed

lemma octet_show: "octet (show_nat (unat w)) = Some w"
proof -
  have "unat w \<le> 255" using unsigned_less [of w, where 'a = nat] by simp
  moreover have "\<not> (1 < length (show_nat (unat w)) \<and> hd (show_nat (unat w)) = CHR ''0'')"
    using hd_show_nat [of "unat w"] by (cases "unat w = 0") (simp_all add: show_nat.simps [of 0])
  ultimately show ?thesis
    by (simp add: octet_def unsigned_value_def digits_value_show)
qed

lemma three_digits: "n < 1000 \<Longrightarrow> 100 \<le> n \<Longrightarrow> show_nat n = [char_of (48 + n div 100), char_of (48 + n div 10 mod 10), char_of (48 + n mod 10)]"
  by (subst show_nat.simps, subst show_nat.simps, subst show_nat.simps) (auto simp: div_mult2_eq [symmetric])

lemma octet_pattern_show: "n \<le> 255 \<Longrightarrow> octet_pattern (show_nat n)"
proof -
  assume n: "n \<le> 255"
  consider "n < 10" | "10 \<le> n" "n < 100" | "100 \<le> n" by linarith
  then show ?thesis
  proof cases
    case 1
    then show ?thesis by (simp add: show_nat.simps [of n] digit_char_of)
  next
    case 2
    then have "show_nat n = [char_of (48 + n div 10), char_of (48 + n mod 10)]"
      by (subst show_nat.simps, subst show_nat.simps) simp
    with 2 show ?thesis by (simp add: digit_char_of)
  next
    case 3
    then have "n div 100 = 1 \<or> n div 100 = 2" using n by linarith
    then show ?thesis
    proof
      assume "n div 100 = 1"
      with 3 n show ?thesis by (simp add: three_digits digit_char_of)
    next
      assume h: "n div 100 = 2"
      have q: "10 * (n div 10 div 10) + n div 10 mod 10 = n div 10" "10 * (n div 10) + n mod 10 = n" "n div 10 div 10 = 2"
        using h mult_div_mod_eq [of 10 "n div 10"] mult_div_mod_eq [of 10 n] div_mult2_eq [of n 10 10] by linarith+
      with n have t: "n div 10 mod 10 \<le> 5" by linarith
      show ?thesis
      proof (cases "n div 10 mod 10 = 5")
        case True
        with q n have "n mod 10 \<le> 5" by linarith
        then have "CHR ''0'' \<le> char_of (48 + n mod 10) \<and> char_of (48 + n mod 10) \<le> CHR ''5''"
          by (simp add: less_eq_char_def)
        with True h 3 n show ?thesis by (simp add: three_digits)
      next
        case False
        with t have "CHR ''0'' \<le> char_of (48 + n div 10 mod 10) \<and> char_of (48 + n div 10 mod 10) \<le> CHR ''4''"
          by (simp add: less_eq_char_def)
        with h 3 n show ?thesis by (simp add: three_digits digit_char_of)
      qed
    qed
  qed
qed

section \<open>Addresses read back\<close>

lemma all_some_map_Some: "all_some (map Some xs) = Some xs"
  by (induction xs) auto

lemma all_some_eq: "all_some os = Some xs \<longleftrightarrow> os = map Some xs"
  by (induction os arbitrary: xs rule: all_some.induct) (auto simp: map_eq_Cons_conv)

lemma show_nat_no: "c \<in> set (show_nat n) \<Longrightarrow> digit c"
proof (induction n rule: show_nat.induct)
  case (1 n)
  then show ?case
    using digit_char_of(1) [of n] digit_char_of(1) [of "n mod 10"]
    by (cases "n < 10") (auto simp: show_nat.simps [of n])
qed

lemma str_split_join:
  assumes "\<forall>x \<in> set xs. c \<notin> set x" and "xs \<noteq> []"
  shows "str_split c (str_join [c] xs) = xs"
  using assms
proof (induction xs rule: induct_list012)
  case (3 x y zs)
  then show ?case by (simp add: str_split_append_sep)
qed (simp_all add: str_split_no_sep)

lemma dot_not_digit [simp]: "\<not> digit (CHR ''.'')" "\<not> digit (CHR ''/'')" "\<not> digit (CHR '':'')" "\<not> digit (CHR ''%'')"
  by code_simp+

lemma parse_v4_dotted: "length b = 4 \<Longrightarrow> parse_v4 (dotted b) = Some b"
proof -
  assume b: "length b = 4"
  then have "str_split (CHR ''.'') (dotted b) = map (\<lambda>x. show_nat (unat x)) b"
    unfolding dotted_def by (intro str_split_join) (auto dest: show_nat_no)
  then show ?thesis
    using b by (simp add: parse_v4_def Let_def comp_def octet_show all_some_map_Some)
qed

lemma parse_v4_canonical: "parse_v4 s = Some b \<Longrightarrow> length b = 4 \<and> s = dotted b"
proof -
  assume "parse_v4 s = Some b"
  then have l: "length (str_split (CHR ''.'') s) = 4" and m: "map octet (str_split (CHR ''.'') s) = map Some b"
    by (auto simp: parse_v4_def Let_def all_some_eq split: if_splits)
  then have "length b = 4" by (metis length_map)
  moreover have "str_split (CHR ''.'') s = map (\<lambda>x. show_nat (unat x)) b"
  proof (rule nth_equalityI)
    fix i assume i: "i < length (str_split (CHR ''.'') s)"
    with m have "octet (str_split (CHR ''.'') s ! i) = Some (b ! i)"
      by (metis l calculation nth_map)
    with i l calculation show "str_split (CHR ''.'') s ! i = map (\<lambda>x. show_nat (unat x)) b ! i"
      by (simp add: octet_canonical)
  qed (simp add: l calculation)
  ultimately show ?thesis using str_join_split [of "CHR ''.''" s] by (simp add: dotted_def)
qed

lemma address_form_dotted: "length b = 4 \<Longrightarrow> address_form (dotted b @ t) = Some (CHR ''.'')"
proof -
  assume "length b = 4"
  then obtain x y z where b: "b = x # y # z" by (cases b; cases "tl b") auto
  have skip: "(\<forall>c \<in> set u. digit c) \<Longrightarrow> address_form (u @ CHR ''.'' # v) = Some (CHR ''.'')" for u v
    by (induction u) auto
  from b obtain v where "dotted b @ t = show_nat (unat x) @ CHR ''.'' # v" by (simp add: dotted_def)
  with skip [of "show_nat (unat x)" v] show ?thesis by (auto dest: show_nat_no)
qed

lemma ascii_append [simp]: "ascii (a @ b) \<longleftrightarrow> ascii a \<and> ascii b" "ascii (c # b) \<longleftrightarrow> of_char c < (128 :: nat) \<and> ascii b" "ascii []"
  by (auto simp: ascii_def)

lemma ascii_show_nat [simp]: "ascii (show_nat n)"
  unfolding ascii_def
proof
  fix c assume "c \<in> set (show_nat n)"
  from digit_char [OF show_nat_no [OF this]] show "of_char c < (128 :: nat)" by linarith
qed

lemma ascii_dotted [simp]: "ascii (dotted b)"
proof -
  have "ascii (str_join ''.'' (map (\<lambda>x. show_nat (unat x)) b))"
    by (induction b rule: induct_list012) simp_all
  then show ?thesis by (simp add: dotted_def)
qed

lemma To4_mapped [simp]: "length b = 4 \<Longrightarrow> To4 (v4InV6Prefix @ b) = Some b"
  by (simp add: To4_def v4InV6Prefix_def)

lemma address_form_dot: "address_form s = Some (CHR ''.'') \<Longrightarrow> ParseIP parse_v6 s = map_option (\<lambda>b. v4InV6Prefix @ b) (parse_v4 s)"
  by (simp add: ParseIP_def parse_addr_def option.map_comp comp_def)

lemma octet_iff: "octet f \<noteq> None \<longleftrightarrow> octet_pattern f \<and> \<not> (1 < length f \<and> hd f = CHR ''0'')"
proof
  assume "octet f \<noteq> None"
  then obtain w where w: "octet f = Some w" by blast
  then have "f = show_nat (unat w)" by (rule octet_canonical)
  moreover have "unat w \<le> 255" using unsigned_less [of w, where 'a = nat] by simp
  ultimately show "octet_pattern f \<and> \<not> (1 < length f \<and> hd f = CHR ''0'')"
    using w octet_pattern_show [of "unat w"] by (auto simp: octet_def split: if_splits)
next
  assume p: "octet_pattern f \<and> \<not> (1 < length f \<and> hd f = CHR ''0'')"
  then have "octet_pattern f" by simp
  then have "\<exists>n. unsigned_value f = Some n \<and> n \<le> 255"
  proof (cases f rule: octet_pattern.cases)
    case (1 a)
    with p digit_char [of a] show ?thesis by (auto simp: unsigned_value_def digit_def)
  next
    case (2 a b)
    with p digit_char [of a] digit_char [of b] show ?thesis by (auto simp: unsigned_value_def digit_def)
  next
    case (3 a b c)
    have num: "(of_char (CHR ''0'') :: nat) = 48" "(of_char (CHR ''1'') :: nat) = 49" "(of_char (CHR ''2'') :: nat) = 50"
      "(of_char (CHR ''4'') :: nat) = 52" "(of_char (CHR ''5'') :: nat) = 53" "(of_char (CHR ''9'') :: nat) = 57"
      by simp_all
    from 3 p show ?thesis
      by (auto simp: unsigned_value_def digit_def less_eq_char_def num)
  qed auto
  with p show "octet f \<noteq> None" by (auto simp: octet_def)
qed

lemma parse_v4_iff:
  "parse_v4 s \<noteq> None \<longleftrightarrow>
   address_pattern s \<and> (\<forall>f \<in> set (str_split (CHR ''.'') s). \<not> (1 < length f \<and> hd f = CHR ''0''))"
proof -
  have "all_some (map octet fs) \<noteq> None \<longleftrightarrow> (\<forall>f \<in> set fs. octet f \<noteq> None)" for fs
  proof (induction fs)
    case (Cons f fs)
    then show ?case by (cases "octet f") auto
  qed simp
  then show ?thesis
    unfolding parse_v4_def address_pattern_def Let_def list_all_iff octet_iff by auto
qed

text \<open>
  A dotted address is accepted exactly when it matches the schema's pattern and no octet has a
  leading zero; what is accepted is written back as the same text.
\<close>

theorem IPv4Address_accepts:
  assumes "address_form s = Some (CHR ''.'')"
  shows "((\<exists>a. IPv4Address_UnmarshalJSON parse_v6 (JString s) = Ok a) \<longleftrightarrow>
       address_pattern s \<and> (\<forall>f \<in> set (str_split (CHR ''.'') s). \<not> (1 < length f \<and> hd f = CHR ''0''))) \<and>
    (\<forall>a. IPv4Address_UnmarshalJSON parse_v6 (JString s) = Ok a \<longrightarrow> IPv4Address_MarshalJSON show_v6 a = JString s)"
proof -
  have read: "IPv4Address_UnmarshalJSON parse_v6 (JString s) = Ok a \<longleftrightarrow> (\<exists>b. parse_v4 s = Some b \<and> a = v4InV6Prefix @ b)" for a
    using address_form_dot [OF assms, of parse_v6]
    by (auto simp: IPv4Address_UnmarshalJSON_def split: option.splits)
  have "IPv4Address_MarshalJSON show_v6 (v4InV6Prefix @ b) = JString s" if "parse_v4 s = Some b" for b
    using parse_v4_canonical [OF that]
    by (simp add: IPv4Address_MarshalJSON_def ip_String_def marshal_string_def json_text_ascii v4InV6Prefix_def [THEN arg_cong [of _ _ "\<lambda>x. x = []"]])
  with read parse_v4_iff [of s] show ?thesis by auto
qed

text \<open>So an address that the schema lets pass may be one that cannot be decoded.\<close>

lemma pattern_not_decodable:
  "address_pattern ''10.0.0.01'' \<and> (\<exists>e. IPv4Address_UnmarshalJSON parse_v6 (JString ''10.0.0.01'') = Err e)"
  by (simp add: IPv4Address_UnmarshalJSON_def ParseIP_def parse_addr_def parse_v4_def octet_def address_pattern_def
      unsigned_value_def digit_def)

text \<open>And the type takes any address with a colon that \<open>net.ParseIP\<close> takes.\<close>

lemma IPv4Address_takes_v6:
  "address_form s = Some (CHR '':'') \<Longrightarrow> parse_v6 s = Some i \<Longrightarrow> IPv4Address_UnmarshalJSON parse_v6 (JString s) = Ok i"
  by (simp add: IPv4Address_UnmarshalJSON_def ParseIP_def parse_addr_def)

section \<open>Prefixes read back\<close>

lemma cidr_masks:
  "list_all (\<lambda>n. mask_length (cidr_mask n 4) = Some n) [0..<33]"
  by code_simp

lemma mask_length_cidr: "n \<le> 32 \<Longrightarrow> mask_length (cidr_mask n 4) = Some n"
  using cidr_masks by (auto simp: list_all_iff)

lemma length_cidr_mask [simp]: "length (cidr_mask n l) = l"
  by (induction n l rule: cidr_mask.induct) auto

lemma apply_mask_mapped:
  "length b = 4 \<Longrightarrow> length ms = 4 \<Longrightarrow> apply_mask (v4InV6Prefix @ b) ms = map2 (AND) b ms"
  by (simp add: apply_mask_def v4InV6Prefix_def)

lemma map2_and_idem: "length b = length ms \<Longrightarrow> map2 (AND) (map2 (AND) b ms) ms = map2 (AND) b (ms :: 8 word list)"
  by (induction b ms rule: list_induct2) (auto simp: and.assoc)

lemma ParseCIDR_v4:
  assumes "length b = 4" and "n \<le> 32"
  shows "ParseCIDR parse_v6 (dotted b @ ''/'' @ show_nat n) =
    Some \<lparr>net_IP = map2 (AND) b (cidr_mask n 4), net_Mask = cidr_mask n 4\<rparr>"
proof -
  have no: "\<forall>c \<in> set (dotted b). c \<noteq> CHR ''/''"
  proof -
    have "c \<in> set (str_join ''.'' (map (\<lambda>x. show_nat (unat x)) b)) \<Longrightarrow> c = CHR ''.'' \<or> digit c" for c
      by (induction b rule: induct_list012) (auto dest: show_nat_no)
    then show ?thesis unfolding dotted_def by force
  qed
  then have "takeWhile (\<lambda>c. c \<noteq> CHR ''/'') (dotted b @ CHR ''/'' # show_nat n) = dotted b"
    by (simp add: takeWhile_append2)
  moreover have "parse_addr parse_v6 (dotted b) = Some (v4InV6Prefix @ b, 32)"
    using address_form_dotted [OF assms(1), of "[]"] parse_v4_dotted [OF assms(1)] by (simp add: parse_addr_def)
  ultimately show ?thesis
    using assms by (simp add: ParseCIDR_def Let_def unsigned_value_def digits_value_show apply_mask_mapped)
qed

lemma ipnet_String_v4:
  assumes "length b = 4" and "n \<le> 32"
  shows "ipnet_String show_v6 \<lparr>net_IP = b, net_Mask = cidr_mask n 4\<rparr> = dotted b @ ''/'' @ show_nat n"
proof -
  from assms(1) have "b \<noteq> []" by auto
  with assms show ?thesis
    by (simp add: ipnet_String_def Let_def To4_def ip_String_def mask_length_cidr)
qed

text \<open>
  A dotted prefix is decoded to its network, the bits behind the prefix cleared; writing that and
  reading it again yields the same network.
\<close>

theorem IPv4Prefix_roundtrip:
  assumes "IPv4Prefix_UnmarshalJSON parse_v6 (JString s) = Ok p" and "address_form s = Some (CHR ''.'')"
  shows "IPv4Prefix_UnmarshalJSON parse_v6' (IPv4Prefix_MarshalJSON show_v6 p) = Ok p \<and>
    (\<exists>b n. length b = 4 \<and> n \<le> 32 \<and> net_IP p = map2 (AND) b (cidr_mask n 4) \<and> net_Mask p = cidr_mask n 4)"
proof -
  let ?a = "takeWhile (\<lambda>c. c \<noteq> CHR ''/'') s"
  from assms(1) obtain i bits n where slash: "CHR ''/'' \<in> set s" and a: "parse_addr parse_v6 ?a = Some (i, bits)"
    and n: "n \<le> bits" and p: "p = \<lparr>net_IP = apply_mask i (cidr_mask n (bits div 8)), net_Mask = cidr_mask n (bits div 8)\<rparr>"
    by (auto simp: IPv4Prefix_UnmarshalJSON_def ParseCIDR_def Let_def split: option.splits if_splits)
  have form: "address_form ?a = Some c \<Longrightarrow> address_form s = Some c" for c
    using takeWhile_dropWhile_id [of "\<lambda>c. c \<noteq> CHR ''/''" s, symmetric]
  proof -
    assume f: "address_form ?a = Some c"
    have "address_form u = Some c \<Longrightarrow> address_form (u @ v) = Some c" for u v
      by (induction u) auto
    from this [OF f, of "dropWhile (\<lambda>c. c \<noteq> CHR ''/'') s"] show "address_form s = Some c" by simp
  qed
  from a form assms(2) obtain b where b: "parse_v4 ?a = Some b" and i: "i = v4InV6Prefix @ b" "bits = 32"
    by (auto simp: parse_addr_def split: option.splits if_splits)
  from parse_v4_canonical [OF b] have len: "length b = 4" by simp
  let ?m = "map2 (AND) b (cidr_mask n 4)"
  have p': "p = \<lparr>net_IP = ?m, net_Mask = cidr_mask n 4\<rparr>"
    using p i len by (simp add: apply_mask_mapped)
  have "IPv4Prefix_MarshalJSON show_v6 p = JString (dotted ?m @ ''/'' @ show_nat n)"
    using p' len n i ipnet_String_v4 [of ?m n show_v6]
    by (simp add: IPv4Prefix_MarshalJSON_def marshal_string_def json_text_ascii)
  with p' len n i ParseCIDR_v4 [of ?m n parse_v6'] map2_and_idem [of b "cidr_mask n 4"] show ?thesis
    by (auto simp: IPv4Prefix_UnmarshalJSON_def)
qed

lemma IPv4Address_accepts_witness:
  "IPv4Address_MarshalJSON (\<lambda>_. '''') (v4InV6Prefix @ [10, 0, 0, 1]) = JString ''10.0.0.1''"
proof -
  have "address_form ''10.0.0.1'' = Some (CHR ''.'')" by simp
  moreover have "IPv4Address_UnmarshalJSON (\<lambda>_. None) (JString ''10.0.0.1'') = Ok (v4InV6Prefix @ [10, 0, 0, 1])"
    by (simp add: IPv4Address_UnmarshalJSON_def ParseIP_def parse_addr_def parse_v4_def octet_def unsigned_value_def)
  ultimately show ?thesis
    using IPv4Address_accepts [of "''10.0.0.1''" "\<lambda>_. None" "\<lambda>_. ''''"] by blast
qed

lemma IPv4Prefix_roundtrip_witness:
  "IPv4Prefix_UnmarshalJSON (\<lambda>_. None) (IPv4Prefix_MarshalJSON (\<lambda>_. '''') \<lparr>net_IP = [10, 0, 0, 0], net_Mask = [255, 0, 0, 0]\<rparr>) =
     Ok \<lparr>net_IP = [10, 0, 0, 0], net_Mask = [255, 0, 0, 0]\<rparr>"
proof -
  have "IPv4Prefix_UnmarshalJSON (\<lambda>_. None) (JString ''10.1.2.3/8'') = Ok \<lparr>net_IP = [10, 0, 0, 0], net_Mask = [255, 0, 0, 0]\<rparr>"
    by code_simp
  from IPv4Prefix_roundtrip [OF this, of "\<lambda>_. None" "\<lambda>_. ''''"] show ?thesis by simp
qed

end
