(* ===== verification/Manager_Run.thy ===== *)
theory Manager_Run
  imports Proc
begin

text \<open>
  Starting a controller (\<open>pkg/manager/manager.go\<close>) and what that is made of: schemes and clients
  (\<open>pkg/client/client.go\<close>), the options with their flags (\<open>pkg/options\<close>, \<open>pkg/manager/options\<close>) and the
  set-up of tracing.  The controller runtime, the Kubernetes libraries and the exporters are a record of
  arguments; parsing the command line has been done.
\<close>

section \<open>Options\<close>

text \<open>A sampling ratio is a floating-point number; \<open>None\<close> is not a number.\<close>

type_synonym ratio = "rat option"

record core_options =
  co_Namespace :: string
  co_OTLPEndpoint :: string
  co_TraceSampingRatio :: ratio

record manager_options = core_options +
  mo_MaxConcurrentReconciles :: int
  mo_CDDriver :: string

record server_options =
  so_ListenAddress :: string
  so_ReadTimeout :: duration
  so_ReadHeaderTimeout :: duration
  so_WriteTimeout :: duration
  so_RequestTimeout :: duration

text \<open>Registering a flag stores its default.\<close>

definition CoreOptions_AddFlags :: "'a core_options_scheme \<Rightarrow> 'a core_options_scheme" where
  "CoreOptions_AddFlags opts =
     opts\<lparr>co_Namespace := '''', co_OTLPEndpoint := '''', co_TraceSampingRatio := Some 0\<rparr>"

definition ManagerOptions_AddFlags :: "int \<Rightarrow> manager_options \<Rightarrow> manager_options" where
  "ManagerOptions_AddFlags numCPU opts =
     (CoreOptions_AddFlags (opts\<lparr>mo_CDDriver := ''argocd''\<rparr>))\<lparr>mo_MaxConcurrentReconciles := numCPU\<rparr>"

definition ServerOptions_AddFlags :: "server_options \<Rightarrow> server_options" where
  "ServerOptions_AddFlags opts =
     opts\<lparr>so_ListenAddress := '':6080'', so_ReadTimeout := second, so_ReadHeaderTimeout := second,
          so_WriteTimeout := 10 * second, so_RequestTimeout := 30 * second\<rparr>"

section \<open>Tracing\<close>

datatype sampler = NeverSample | AlwaysSample | ParentBasedRatio ratio

definition sampler_of :: "ratio \<Rightarrow> sampler" where
  "sampler_of r =
     (case r of
        Some q \<Rightarrow> if q \<le> 0 then NeverSample else if q \<ge> 1 then AlwaysSample else ParentBasedRatio r
      | None \<Rightarrow> ParentBasedRatio r)"

text \<open>
  The providers that are installed: the tracer with its sampler and, if there is an endpoint, an
  exporter; the meter with its exporter.
\<close>

record ('te, 'me, 'w) otel_lib =
  ol_NewTraceExporter :: "string \<Rightarrow> ('w, 'te) proc"
  ol_NewMetricExporter :: "string \<Rightarrow> ('w, 'me) proc"
  ol_SetTracerProvider :: "'te option \<Rightarrow> sampler \<Rightarrow> 'w \<Rightarrow> 'w"
  ol_SetMeterProvider :: "'me option \<Rightarrow> 'w \<Rightarrow> 'w"

definition effect :: "('w \<Rightarrow> 'w) \<Rightarrow> ('w, unit) proc" where
  "effect f = call (\<lambda>w. (Ok (), f w))"

definition optional :: "bool \<Rightarrow> ('w, 'a) proc \<Rightarrow> ('w, 'a option) proc" where
  "optional b p = (if b then bindP p (\<lambda>x. return (Some x)) else return None)"

definition SetupOpenTelemetry ::
    "('te, 'me, 'w) otel_lib \<Rightarrow> 'a core_options_scheme \<Rightarrow> ('w, unit) proc" where
  "SetupOpenTelemetry lib opts =
     bindP (optional (co_OTLPEndpoint opts \<noteq> '''') (ol_NewTraceExporter lib (co_OTLPEndpoint opts))) (\<lambda>traceExporter.
     bindP (effect (ol_SetTracerProvider lib traceExporter (sampler_of (co_TraceSampingRatio opts)))) (\<lambda>_.
     bindP (optional (co_OTLPEndpoint opts \<noteq> '''') (ol_NewMetricExporter lib (co_OTLPEndpoint opts))) (\<lambda>metricExporter.
     effect (ol_SetMeterProvider lib metricExporter))))"

section \<open>Schemes and clients\<close>

type_synonym 'sch scheme_adder = "'sch \<Rightarrow> 'sch result"

fun add_schemes :: "'sch scheme_adder list \<Rightarrow> 'sch \<Rightarrow> 'sch result" where
  "add_schemes [] scheme = Ok scheme"
| "add_schemes (s # schemes) scheme = bind_outcome (s scheme) (add_schemes schemes)"

text \<open>\<open>builtin\<close> are the four that every scheme gets, in order: Kubernetes, Unikorn, its fake types, Argo CD.\<close>

definition NewScheme :: "'sch \<Rightarrow> 'sch scheme_adder list \<Rightarrow> 'sch scheme_adder list \<Rightarrow> 'sch result" where
  "NewScheme empty_scheme builtin schemes = add_schemes (builtin @ schemes) empty_scheme"

text \<open>The controller runtime, and what a process sees of its environment.\<close>

record ('cfg, 'sch, 'kc, 'm, 'c, 'rec, 'w) runtime =
  ru_InClusterConfig :: "('w, 'cfg) proc"
  ru_GetConfig :: "('w, 'cfg) proc"
  ru_EmptyScheme :: 'sch
  ru_Builtin :: "'sch scheme_adder list"
  ru_NewCachedClient :: "'cfg \<Rightarrow> 'sch \<Rightarrow> ('w, 'kc) proc"
  ru_NewManager :: "'cfg \<Rightarrow> 'sch \<Rightarrow> bool \<Rightarrow> string \<Rightarrow> ('w, 'm) proc"
  ru_NewController :: "string \<Rightarrow> 'm \<Rightarrow> int \<Rightarrow> bool \<Rightarrow> 'rec \<Rightarrow> ('w, 'c) proc"
  ru_Start :: "'m \<Rightarrow> ('w, unit) proc"

definition client_New ::
    "('cfg, 'sch, 'kc, 'm, 'c, 'rec, 'w) runtime \<Rightarrow> 'sch scheme_adder list \<Rightarrow> ('w, 'kc) proc" where
  "client_New rt schemes =
     bindP (ru_InClusterConfig rt) (\<lambda>config.
     bindP (Ret (NewScheme (ru_EmptyScheme rt) (ru_Builtin rt) schemes)) (\<lambda>scheme.
     ru_NewCachedClient rt config scheme))"

section \<open>Factories\<close>

text \<open>The two optional interfaces are \<open>None\<close> when the factory does not implement them.\<close>

record ('sch, 'kc, 'm, 'c, 'rec, 'w) factory =
  cf_Name :: string
  cf_Schemes :: "'sch scheme_adder list"
  cf_Reconciler :: "manager_options \<Rightarrow> 'm \<Rightarrow> 'rec"
  cf_RegisterWatches :: "'m \<Rightarrow> 'c \<Rightarrow> ('w, unit) proc"
  cf_Upgrade :: "('kc \<Rightarrow> manager_options \<Rightarrow> ('w, unit) proc) option"
  cf_Initialize :: "('m \<Rightarrow> manager_options \<Rightarrow> ('w, unit) proc) option"

definition getManager ::
    "('cfg, 'sch, 'kc, 'm, 'c, 'rec, 'w) runtime \<Rightarrow> ('sch, 'kc, 'm, 'c, 'rec, 'w) factory \<Rightarrow> ('w, 'm) proc" where
  "getManager rt f =
     bindP (ru_GetConfig rt) (\<lambda>config.
     bindP (Ret (NewScheme (ru_EmptyScheme rt) (ru_Builtin rt) (cf_Schemes f))) (\<lambda>scheme.
     ru_NewManager rt config scheme True (cf_Name f)))"

definition getController ::
    "('cfg, 'sch, 'kc, 'm, 'c, 'rec, 'w) runtime \<Rightarrow> manager_options \<Rightarrow> 'm \<Rightarrow>
     ('sch, 'kc, 'm, 'c, 'rec, 'w) factory \<Rightarrow> ('w, 'c) proc" where
  "getController rt opts manager f =
     ru_NewController rt (cf_Name f) manager (mo_MaxConcurrentReconciles opts) True (cf_Reconciler f opts manager)"

definition doUpgrade ::
    "('cfg, 'sch, 'kc, 'm, 'c, 'rec, 'w) runtime \<Rightarrow> ('sch, 'kc, 'm, 'c, 'rec, 'w) factory \<Rightarrow> manager_options \<Rightarrow> ('w, unit) proc" where
  "doUpgrade rt f opts =
     (case cf_Upgrade f of
        None \<Rightarrow> return ()
      | Some upgrade \<Rightarrow> bindP (client_New rt (cf_Schemes f)) (\<lambda>client. upgrade client opts))"

definition doInitialize ::
    "('sch, 'kc, 'm, 'c, 'rec, 'w) factory \<Rightarrow> 'm \<Rightarrow> manager_options \<Rightarrow> ('w, unit) proc" where
  "doInitialize f mgr opts = (case cf_Initialize f of None \<Rightarrow> return () | Some init \<Rightarrow> init mgr opts)"

text \<open>\<open>os.Exit(1)\<close> on an error; the value of the whole is the exit status.\<close>

definition or_exit :: "('w, 'a) proc \<Rightarrow> ('a \<Rightarrow> ('w, nat) proc) \<Rightarrow> ('w, nat) proc" where
  "or_exit p k = bindR p (\<lambda>r. case r of Ok x \<Rightarrow> k x | Err e \<Rightarrow> return 1 | Panic \<Rightarrow> Ret Panic)"

definition manager_Run ::
    "('te, 'me, 'w) otel_lib \<Rightarrow> ('cfg, 'sch, 'kc, 'm, 'c, 'rec, 'w) runtime \<Rightarrow>
     ('sch, 'kc, 'm, 'c, 'rec, 'w) factory \<Rightarrow> manager_options \<Rightarrow> ('w, nat) proc" where
  "manager_Run lib rt f opts =
     or_exit (SetupOpenTelemetry lib opts) (\<lambda>_.
     or_exit (doUpgrade rt f opts) (\<lambda>_.
     or_exit (getManager rt f) (\<lambda>manager.
     or_exit (doInitialize f manager opts) (\<lambda>_.
     or_exit (getController rt opts manager f) (\<lambda>controller.
     or_exit (cf_RegisterWatches f manager controller) (\<lambda>_.
     or_exit (ru_Start rt manager) (\<lambda>_. return 0)))))))"

section \<open>Nothing starts before it is prepared\<close>

lemma run_or_exit:
  "run (or_exit p k) w =
     (case run p w of (Ok x, w1) \<Rightarrow> run (k x) w1 | (Err e, w1) \<Rightarrow> (Ok 1, w1) | (Panic, w1) \<Rightarrow> (Panic, w1))"
  by (auto simp: or_exit_def run_bindR split: prod.splits outcome.splits)

lemma or_exit_0:
  "run (or_exit p k) w = (Ok 0, w') \<longleftrightarrow> (\<exists>x w1. run p w = (Ok x, w1) \<and> run (k x) w1 = (Ok 0, w'))"
  by (auto simp: run_or_exit split: prod.splits outcome.splits)

text \<open>
  A controller process exits with status 0 exactly when tracing was set up, the upgrade done, the manager
  made, the factory initialised, the controller made, the watches registered and the manager run to its
  end, in that order.
\<close>

theorem manager_Run_exit_0:
  "run (manager_Run lib rt f opts) w = (Ok 0, w') \<longleftrightarrow>
   (\<exists>w1 w2 m w3 w4 c w5 w6. run (SetupOpenTelemetry lib opts) w = (Ok (), w1) \<and> run (doUpgrade rt f opts) w1 = (Ok (), w2) \<and>
      run (getManager rt f) w2 = (Ok m, w3) \<and> run (doInitialize f m opts) w3 = (Ok (), w4) \<and>
      run (getController rt opts m f) w4 = (Ok c, w5) \<and> run (cf_RegisterWatches f m c) w5 = (Ok (), w6) \<and>
      run (ru_Start rt m) w6 = (Ok (), w'))"
  unfolding manager_Run_def or_exit_0 by simp

text \<open>A failed upgrade stops the process before it has a manager.\<close>

theorem failed_upgrade_exits:
  assumes "run (SetupOpenTelemetry lib opts) w = (Ok (), w1)" and "run (doUpgrade rt f opts) w1 = (Err e, w2)"
  shows "run (manager_Run lib rt f opts) w = (Ok 1, w2)"
  using assms by (simp add: manager_Run_def run_or_exit)

text \<open>Without an endpoint no exporter is made, and the sampler is the one of the ratio.\<close>

theorem SetupOpenTelemetry_no_endpoint:
  "co_OTLPEndpoint opts = '''' \<Longrightarrow>
   run (SetupOpenTelemetry lib opts) w =
     (Ok (), ol_SetMeterProvider lib None (ol_SetTracerProvider lib None (sampler_of (co_TraceSampingRatio opts)) w))"
  by (simp add: SetupOpenTelemetry_def optional_def effect_def run_bindP)

end
