(* ===== verification/Registration.thy ===== *)
theory Registration
  imports Manager_Run
begin

text \<open>
  The registration of the API types (\<open>register.go\<close> of \<open>pkg/apis/argoproj/v1alpha1\<close>,
  \<open>pkg/apis/unikorn/v1alpha1\<close> and its \<open>fake\<close> package) and the scheme that \<open>pkg/client/client.go\<close> builds out
  of it.  The scheme and its builder belong to the Kubernetes libraries: they are arguments, with the
  documented behaviour of registering a type as a hypothesis.  A Go type is its package and its name.
\<close>

section \<open>Groups\<close>

type_synonym gotype = "string \<times> string"

definition unikorn_GroupName :: string where "unikorn_GroupName = ''unikorn-cloud.org''"
definition fake_GroupName :: string where "fake_GroupName = ''unikorn.unikorn-cloud.org''"
definition argo_GroupName :: string where "argo_GroupName = ''argoproj.io''"

definition unikorn_GroupVersion :: string where "unikorn_GroupVersion = ''v1alpha1''"
definition fake_GroupVersion :: string where "fake_GroupVersion = ''v1alpha1''"
definition argo_GroupVersion :: string where "argo_GroupVersion = ''v1alpha1''"

definition unikorn_Group :: string where "unikorn_Group = unikorn_GroupName @ ''/'' @ unikorn_GroupVersion"
definition fake_Group :: string where "fake_Group = fake_GroupName @ ''/'' @ fake_GroupVersion"
definition argo_Group :: string where "argo_Group = argo_GroupName @ ''/'' @ argo_GroupVersion"

lemmas group_defs =
  unikorn_GroupName_def fake_GroupName_def argo_GroupName_def
  unikorn_GroupVersion_def fake_GroupVersion_def argo_GroupVersion_def

text \<open>A resource belongs to the group of its package, without the version.\<close>

definition unikorn_Resource :: "string \<Rightarrow> string \<times> string" where
  "unikorn_Resource resource = (unikorn_GroupName, resource)"
definition fake_Resource :: "string \<Rightarrow> string \<times> string" where
  "fake_Resource resource = (fake_GroupName, resource)"
definition argo_Resource :: "string \<Rightarrow> string \<times> string" where
  "argo_Resource resource = (argo_GroupName, resource)"

section \<open>Registration\<close>

text \<open>\<open>AddToScheme\<close> of a builder for a group and version with its registered types, and \<open>ObjectKinds\<close>.\<close>

record 'sch machinery =
  am_AddToScheme :: "string \<Rightarrow> string \<Rightarrow> gotype list \<Rightarrow> 'sch \<Rightarrow> 'sch result"
  am_ObjectKinds :: "'sch \<Rightarrow> gotype \<Rightarrow> gvk list"

definition unikorn_types :: "gotype list" where
  "unikorn_types = [(''unikorn/v1alpha1'', ''HelmApplication''), (''unikorn/v1alpha1'', ''HelmApplicationList'')]"

definition fake_types :: "gotype list" where
  "fake_types = [(''unikorn/v1alpha1/fake'', ''ManagedResource''), (''unikorn/v1alpha1/fake'', ''ManagedResourceList'')]"

definition argo_types :: "gotype list" where
  "argo_types = [(''argoproj/v1alpha1'', ''Application''), (''argoproj/v1alpha1'', ''ApplicationList'')]"

lemmas types_defs = unikorn_types_def fake_types_def argo_types_def

definition unikorn_AddToScheme :: "'sch machinery \<Rightarrow> 'sch scheme_adder" where
  "unikorn_AddToScheme am = am_AddToScheme am unikorn_GroupName unikorn_GroupVersion unikorn_types"

definition fake_AddToScheme :: "'sch machinery \<Rightarrow> 'sch scheme_adder" where
  "fake_AddToScheme am = am_AddToScheme am fake_GroupName fake_GroupVersion fake_types"

definition argo_AddToScheme :: "'sch machinery \<Rightarrow> 'sch scheme_adder" where
  "argo_AddToScheme am = am_AddToScheme am argo_GroupName argo_GroupVersion argo_types"

text \<open>The schemes that every scheme starts with; \<open>kubernetes\<close> is the one of the Kubernetes client.\<close>

definition builtin_schemes :: "'sch machinery \<Rightarrow> 'sch scheme_adder \<Rightarrow> 'sch scheme_adder list" where
  "builtin_schemes am kubernetes =
     [kubernetes, unikorn_AddToScheme am, fake_AddToScheme am, argo_AddToScheme am]"

section \<open>The machinery's part\<close>

text \<open>
  A type gets the kind of its name in the group.  Registering fails, by a panic, only when a kind is taken
  by another type; types that are not registered keep their kinds.
\<close>

definition kind_of :: "string \<Rightarrow> string \<Rightarrow> gotype \<Rightarrow> gvk" where
  "kind_of g v t = \<lparr>gvk_group = g, gvk_version = v, gvk_kind = snd t\<rparr>"

definition kinds_free :: "'sch machinery \<Rightarrow> 'sch \<Rightarrow> string \<Rightarrow> bool" where
  "kinds_free am s g \<longleftrightarrow> (\<forall>t. \<forall>k \<in> set (am_ObjectKinds am s t). gvk_group k \<noteq> g)"

definition machinery_ok :: "'sch machinery \<Rightarrow> bool" where
  "machinery_ok am \<longleftrightarrow>
     (\<forall>g v ts s. distinct ts \<longrightarrow> distinct (map snd ts) \<longrightarrow> kinds_free am s g \<longrightarrow>
        (\<exists>s'. am_AddToScheme am g v ts s = Ok s' \<and>
           (\<forall>t. am_ObjectKinds am s' t =
              (if t \<in> set ts then am_ObjectKinds am s t @ [kind_of g v t] else am_ObjectKinds am s t))))"

lemma registered:
  assumes "machinery_ok am" and "distinct ts" "distinct (map snd ts)" and "kinds_free am s g"
  obtains s' where "am_AddToScheme am g v ts s = Ok s'"
    and "\<And>t. am_ObjectKinds am s' t =
      (if t \<in> set ts then am_ObjectKinds am s t @ [kind_of g v t] else am_ObjectKinds am s t)"
    and "\<And>g'. g' \<noteq> g \<Longrightarrow> kinds_free am s g' \<Longrightarrow> kinds_free am s' g'"
proof -
  from assms obtain s' where s': "am_AddToScheme am g v ts s = Ok s'"
    "\<And>t. am_ObjectKinds am s' t =
      (if t \<in> set ts then am_ObjectKinds am s t @ [kind_of g v t] else am_ObjectKinds am s t)"
    unfolding machinery_ok_def by blast
  show ?thesis
    by (rule that [OF s']) (auto simp: kinds_free_def s'(2) kind_of_def split: if_splits)
qed

text \<open>
  The three packages do not get into each other's way: when the Kubernetes types take none of their groups
  and none of their types, the scheme is built, and each of the types has exactly the kind of its name, so
  that a description of a resource names that kind.
\<close>

theorem scheme_knows_types:
  assumes am: "machinery_ok am"
    and kubernetes: "kubernetes empty_scheme = Ok s0"
    and free: "kinds_free am s0 unikorn_GroupName" "kinds_free am s0 fake_GroupName" "kinds_free am s0 argo_GroupName"
    and none: "\<And>t. t \<in> set (unikorn_types @ fake_types @ argo_types) \<Longrightarrow> am_ObjectKinds am s0 t = []"
  shows "\<exists>s. NewScheme empty_scheme (builtin_schemes am kubernetes) [] = Ok s \<and>
    (\<forall>t \<in> set unikorn_types. am_ObjectKinds am s t = [kind_of unikorn_GroupName unikorn_GroupVersion t]) \<and>
    (\<forall>t \<in> set fake_types. am_ObjectKinds am s t = [kind_of fake_GroupName fake_GroupVersion t]) \<and>
    (\<forall>t \<in> set argo_types. am_ObjectKinds am s t = [kind_of argo_GroupName argo_GroupVersion t])"
proof -
  have neq: "fake_GroupName \<noteq> unikorn_GroupName" "argo_GroupName \<noteq> unikorn_GroupName" "argo_GroupName \<noteq> fake_GroupName"
    by (simp_all add: group_defs)
  have ts: "distinct unikorn_types" "distinct (map snd unikorn_types)" "distinct fake_types" "distinct (map snd fake_types)"
    "distinct argo_types" "distinct (map snd argo_types)"
    by (simp_all add: types_defs)
  have apart: "set unikorn_types \<inter> set fake_types = {}" "set unikorn_types \<inter> set argo_types = {}"
    "set fake_types \<inter> set argo_types = {}"
    by (simp_all add: types_defs)
  obtain s1 where s1: "unikorn_AddToScheme am s0 = Ok s1"
    "\<And>t. am_ObjectKinds am s1 t = (if t \<in> set unikorn_types then am_ObjectKinds am s0 t @
       [kind_of unikorn_GroupName unikorn_GroupVersion t] else am_ObjectKinds am s0 t)"
    "kinds_free am s1 fake_GroupName" "kinds_free am s1 argo_GroupName"
    unfolding unikorn_AddToScheme_def using registered [OF am ts(1,2) free(1)] free neq by metis
  obtain s2 where s2: "fake_AddToScheme am s1 = Ok s2"
    "\<And>t. am_ObjectKinds am s2 t = (if t \<in> set fake_types then am_ObjectKinds am s1 t @
       [kind_of fake_GroupName fake_GroupVersion t] else am_ObjectKinds am s1 t)"
    "kinds_free am s2 argo_GroupName"
    unfolding fake_AddToScheme_def using registered [OF am ts(3,4) s1(3)] s1(4) neq by metis
  obtain s3 where s3: "argo_AddToScheme am s2 = Ok s3"
    "\<And>t. am_ObjectKinds am s3 t = (if t \<in> set argo_types then am_ObjectKinds am s2 t @
       [kind_of argo_GroupName argo_GroupVersion t] else am_ObjectKinds am s2 t)"
    unfolding argo_AddToScheme_def using registered [OF am ts(5,6) s2(3)] by metis
  have "NewScheme empty_scheme (builtin_schemes am kubernetes) [] = Ok s3"
    by (simp add: NewScheme_def builtin_schemes_def kubernetes s1(1) s2(1) s3(1))
  then show ?thesis
    using none apart by (auto simp: s1(2) s2(2) s3(2))
qed

text \<open>An object of a registered type is described by the kind of its type.\<close>

lemma described_by_kind:
  "am_ObjectKinds am s t = [kind_of g v t] \<Longrightarrow> str_at labels NameLabel = '''' \<Longrightarrow>
   describeResource (Some (am_ObjectKinds am s t)) n labels = snd t @ '' '' @ n"
  by (simp add: describeResource_def kind_of_def)

section \<open>Logging\<close>

text \<open>The logger made of the options is installed in three libraries.\<close>

record 'lg loggers =
  lg_controller :: "'lg option"
  lg_klog :: "'lg option"
  lg_otel :: "'lg option"

definition SetupLogging :: "('z \<Rightarrow> 'lg) \<Rightarrow> 'z \<Rightarrow> 'lg loggers \<Rightarrow> 'lg loggers" where
  "SetupLogging zap_New zap g =
     (let logr = zap_New zap in g\<lparr>lg_controller := Some logr, lg_klog := Some logr, lg_otel := Some logr\<rparr>)"

section \<open>The manager in a context\<close>

text \<open>The manager is asserted to be in the context: a context without one is a panic.\<close>

definition manager_NewContext :: "'m option \<Rightarrow> 'm \<Rightarrow> 'm option" where
  "manager_NewContext ctx manager = Some manager"

definition manager_FromContext :: "'m option \<Rightarrow> 'm result" where
  "manager_FromContext ctx = (case ctx of Some m \<Rightarrow> Ok m | None \<Rightarrow> Panic)"

lemma manager_context: "manager_FromContext (manager_NewContext ctx m) = Ok m"
  by (simp add: manager_FromContext_def manager_NewContext_def)

section \<open>An instance\<close>

text \<open>A scheme as the list of its registrations.\<close>

definition list_machinery :: "(gvk \<times> gotype) list machinery" where
  "list_machinery =
     \<lparr>am_AddToScheme = (\<lambda>g v ts s.
        if list_ex (\<lambda>t. list_ex (\<lambda>(k, t'). k = kind_of g v t \<and> t' \<noteq> t) s) ts then Panic
        else Ok (s @ map (\<lambda>t. (kind_of g v t, t)) ts)),
      am_ObjectKinds = (\<lambda>s t. map fst (filter (\<lambda>(k, t'). t' = t) s))\<rparr>"

lemma kinds_of_types:
  "distinct ts \<Longrightarrow>
   map fst (filter (\<lambda>(k, t'). t' = t) (map (\<lambda>t. (kind_of g v t, t)) ts)) = (if t \<in> set ts then [kind_of g v t] else [])"
  by (induction ts) auto

lemma list_machinery_ok: "machinery_ok list_machinery"
  unfolding machinery_ok_def
proof (intro allI impI)
  fix g v and ts :: "gotype list" and s assume ts: "distinct ts" and free: "kinds_free list_machinery s g"
  have "k \<noteq> kind_of g v t" if "(k, t') \<in> set s" for k t t'
  proof -
    from that have "k \<in> set (am_ObjectKinds list_machinery s t')" by (force simp: list_machinery_def)
    with free have "gvk_group k \<noteq> g" unfolding kinds_free_def by blast
    then show ?thesis by (auto simp: kind_of_def)
  qed
  then have "\<not> list_ex (\<lambda>t. list_ex (\<lambda>(k, t'). k = kind_of g v t \<and> t' \<noteq> t) s) ts"
    by (auto simp: list_ex_iff; blast)
  with kinds_of_types [OF ts] show "\<exists>s'. am_AddToScheme list_machinery g v ts s = Ok s' \<and>
      (\<forall>t. am_ObjectKinds list_machinery s' t =
         (if t \<in> set ts then am_ObjectKinds list_machinery s t @ [kind_of g v t] else am_ObjectKinds list_machinery s t))"
    by (simp add: list_machinery_def)
qed

theorem scheme_knows_types_witness:
  "\<exists>s. NewScheme [] (builtin_schemes list_machinery (am_AddToScheme list_machinery ''apps'' ''v1'' [(''apps'', ''Deployment'')])) [] = Ok s \<and>
     am_ObjectKinds list_machinery s (''argoproj/v1alpha1'', ''Application'') =
       [kind_of argo_GroupName argo_GroupVersion (''argoproj/v1alpha1'', ''Application'')]"
proof -
  let ?k = "am_AddToScheme list_machinery ''apps'' ''v1'' [(''apps'', ''Deployment'')]"
  let ?s = "[(kind_of ''apps'' ''v1'' (''apps'', ''Deployment''), (''apps'', ''Deployment''))]"
  have "?k [] = Ok ?s" by (simp add: list_machinery_def)
  moreover have "kinds_free list_machinery ?s unikorn_GroupName" "kinds_free list_machinery ?s fake_GroupName"
    "kinds_free list_machinery ?s argo_GroupName"
    by (simp_all add: kinds_free_def list_machinery_def kind_of_def group_defs)
  moreover have "am_ObjectKinds list_machinery ?s t = []" if "t \<in> set (unikorn_types @ fake_types @ argo_types)" for t
    using that by (auto simp: list_machinery_def types_defs)
  ultimately show ?thesis
    using scheme_knows_types [OF list_machinery_ok, of ?k "[]" ?s] by (auto simp: argo_types_def)
qed

end
