(* ===== verification/Openapi_Lint.thy ===== *)
theory Openapi_Lint
  imports Http
begin

text \<open>
  The validator of OpenAPI schemas (\<open>hack/validate_openapi/main.go\<close>): what it demands of every operation,
  and what it reports.  The document is the structure that the OpenAPI library has loaded; a reference
  has a value once it is resolved.
\<close>

section \<open>The document\<close>

record 'b ref =
  rf_Ref :: string
  rf_Value :: "'b option"

record parameter =
  pa_In :: string
  pa_Name :: string

text \<open>Content: for every media type, whether it has a schema.  An absent map is \<open>None\<close> where it matters.\<close>

type_synonym content = "(string, bool) fmap"

record req_body = rb_Content :: content
record resp = rp_Content :: "content option"

text \<open>
  \<open>op_Extensions\<close> tells of every extension whether its value is other than nil; \<open>op_Security\<close> is the
  number of security requirements, if there is such a list; \<open>op_Status\<close> answers for a status code.
\<close>

record operation =
  op_Extensions :: "(string, bool) fmap"
  op_Summary :: string
  op_Tags :: "string list"
  op_Security :: "nat option"
  op_Parameters :: "parameter ref list"
  op_RequestBody :: "req_body ref option"
  op_Status :: "nat \<Rightarrow> resp ref option"

record path_doc =
  pd_Parameters :: "parameter ref list"
  pd_Operations :: "(string, operation) fmap"

record spec =
  sp_Paths :: "(string \<times> path_doc) list"
  sp_RequestBodies :: "(string, req_body ref) fmap"
  sp_Responses :: "(string, resp ref) fmap"

section \<open>Reporting\<close>

definition extensionHidden :: string where "extensionHidden = ''x-hidden''"
definition extensionNoSecurityRequirements :: string where
  "extensionNoSecurityRequirements = ''x-no-security-requirements''"
definition extensionNoAuthorization :: string where "extensionNoAuthorization = ''x-no-authorization''"
definition extensionNoBody :: string where "extensionNoBody = ''x-no-body''"

record validationContext =
  vc_spec :: spec
  vc_method :: string
  vc_path :: path_doc
  vc_operation :: operation
  vc_pathName :: string
  vc_failed :: bool
  vc_failures :: "string list"

definition notify :: "operand list \<Rightarrow> validationContext \<Rightarrow> validationContext" where
  "notify v c = c\<lparr>vc_failures := vc_failures c @ [Sprintln v], vc_failed := True\<rparr>"

definition mustIncludeStatusCode :: "nat \<Rightarrow> validationContext \<Rightarrow> validationContext" where
  "mustIncludeStatusCode code c =
     (if op_Status (vc_operation c) code = None
      then notify [Text ''status code'', Value (show_nat code), Text ''should be defined''] c else c)"

type_synonym validationFunc = "validationContext \<Rightarrow> validationContext result"

section \<open>Validators\<close>

definition has_extension :: "operation \<Rightarrow> string \<Rightarrow> bool" where
  "has_extension op k \<longleftrightarrow> fmlookup (op_Extensions op) k \<noteq> None"

definition validateOperationDocumentation :: validationFunc where
  "validateOperationDocumentation c =
     (let op = vc_operation c in
      if fmlookup (op_Extensions op) extensionHidden = Some True then Ok c
      else
        (let c = (if op_Summary op = '''' then notify [Text ''no documentation summary provided''] c else c);
             c = (if op_Tags op = [] then notify [Text ''no documentation tag grouping provided''] c else c)
         in Ok c))"

definition validateOperationSecurity :: validationFunc where
  "validateOperationSecurity c =
     (let op = vc_operation c in
      if has_extension op extensionNoSecurityRequirements then Ok c
      else case op_Security op of
        None \<Rightarrow> Ok (notify [Text ''no security requirements set''] c)
      | Some n \<Rightarrow>
          (let c = (if n \<noteq> 1 then notify [Text ''security requirements must have only one security requirement''] c else c);
               c = mustIncludeStatusCode 401 c;
               c = (if \<not> has_extension op extensionNoAuthorization then mustIncludeStatusCode 403 c else c)
           in Ok c))"

definition non404 :: "string list" where "non404 = [''organizationID'', ''projectID'']"

definition ParameterInPath :: string where "ParameterInPath = ''path''"

text \<open>The parameters that are left after the deletion; an unresolved one is dereferenced.\<close>

fun resource_parameters :: "parameter ref list \<Rightarrow> parameter list result" where
  "resource_parameters [] = Ok []"
| "resource_parameters (p # ps) =
     (case rf_Value p of
        None \<Rightarrow> Panic
      | Some v \<Rightarrow>
          bind_outcome (resource_parameters ps) (\<lambda>rest.
            Ok (if pa_In v \<noteq> ParameterInPath \<or> pa_Name v \<in> set non404 then rest else v # rest)))"

definition validateOperationFoundness :: validationFunc where
  "validateOperationFoundness c =
     bind_outcome (resource_parameters (pd_Parameters (vc_path c) @ op_Parameters (vc_operation c))) (\<lambda>parameters.
       Ok (if length parameters > 0 then mustIncludeStatusCode 404 c else c))"

text \<open>The value of a reference, or that of the component it names.\<close>

definition resolve :: "(string, 'b ref) fmap \<Rightarrow> 'b ref \<Rightarrow> 'b result" where
  "resolve components r =
     (case rf_Value r of
        Some b \<Rightarrow> Ok b
      | None \<Rightarrow>
          (case fmlookup components (rf_Ref r) of
             None \<Rightarrow> Panic
           | Some r' \<Rightarrow> (case rf_Value r' of None \<Rightarrow> Panic | Some b \<Rightarrow> Ok b)))"

text \<open>\<open>walk\<close> is the order in which the media types are visited.\<close>

definition check_request_schemas :: "(string \<times> bool) list \<Rightarrow> validationContext \<Rightarrow> validationContext" where
  "check_request_schemas kvs c =
     foldl (\<lambda>c kv. if \<not> snd kv then notify [Text ''no request schema set for mime type'', Text (fst kv)] c else c) c kvs"

definition validateRequestValidation :: "(content \<Rightarrow> (string \<times> bool) list) \<Rightarrow> validationFunc" where
  "validateRequestValidation walk c =
     (if vc_method c \<noteq> ''POST'' \<and> vc_method c \<noteq> ''PUT'' then Ok c
      else if has_extension (vc_operation c) extensionNoBody then Ok c
      else
        (let c = (if op_RequestBody (vc_operation c) = None then notify [Text ''no request body set''] c else c)
         in case op_RequestBody (vc_operation c) of
              None \<Rightarrow> Panic
            | Some r \<Rightarrow>
                bind_outcome (resolve (sp_RequestBodies (vc_spec c)) r) (\<lambda>body.
                  Ok (check_request_schemas (walk (rb_Content body)) c))))"

definition check_response_schemas :: "nat \<Rightarrow> (string \<times> bool) list \<Rightarrow> validationContext \<Rightarrow> validationContext" where
  "check_response_schemas code kvs c =
     foldl (\<lambda>c kv. if fst kv = ''application/json'' \<and> \<not> snd kv
        then notify [Text ''no schema set for'', Text (fst kv), Value (show_nat code), Text ''response''] c else c) c kvs"

definition validate_response :: "(content \<Rightarrow> (string \<times> bool) list) \<Rightarrow> nat \<Rightarrow> validationFunc" where
  "validate_response walk code c =
     (case op_Status (vc_operation c) code of
        None \<Rightarrow> Ok c
      | Some r \<Rightarrow>
          if code \<noteq> 200 then Ok c
          else bind_outcome (resolve (sp_Responses (vc_spec c)) r) (\<lambda>response.
            (let c = (if rp_Content response = None
                      then notify [Text ''no content type set for'', Value (show_nat code), Text ''response''] c else c)
             in Ok (case rp_Content response of
                      None \<Rightarrow> c
                    | Some content \<Rightarrow> check_response_schemas code (walk content) c))))"

fun each_code :: "(nat \<Rightarrow> validationFunc) \<Rightarrow> nat list \<Rightarrow> validationFunc" where
  "each_code f [] c = Ok c"
| "each_code f (n # ns) c = bind_outcome (f n c) (each_code f ns)"

definition validateResponseValidation :: "(content \<Rightarrow> (string \<times> bool) list) \<Rightarrow> validationFunc" where
  "validateResponseValidation walk c =
     (if vc_method c \<noteq> ''GET'' then Ok c else each_code (validate_response walk) [100..<600] c)"

section \<open>The run\<close>

definition validators :: "(content \<Rightarrow> (string \<times> bool) list) \<Rightarrow> validationFunc list" where
  "validators walk =
     [validateOperationDocumentation, validateOperationSecurity, validateOperationFoundness,
      validateRequestValidation walk, validateResponseValidation walk]"

text \<open>
  The report of an endpoint, in the colours of the terminal, and what the line for one failure adds to it.
  The operands of \<open>fmt.Sprint\<close> and \<open>fmt.Print\<close> are strings, between which no space is put.
\<close>

definition bold :: "string \<Rightarrow> string" where "bold s = CHR 0x1B # ''[1m'' @ s @ CHR 0x1B # ''[0m''"

definition red :: "string \<Rightarrow> string" where "red s = CHR 0x1B # ''[1;31m'' @ s @ CHR 0x1B # ''[0m''"

definition report :: "validationContext \<Rightarrow> string" where
  "report c =
     bold (''Validation failure for endpoint '' @ vc_method c @ '' '' @ vc_pathName c) @ [CHR 0x0A] @
     concat (map (\<lambda>f. red ''*'' @ '' '' @ f) (vc_failures c)) @ [CHR 0x0A]"

fun run_validators :: "validationFunc list \<Rightarrow> validationContext \<Rightarrow> string list result" where
  "run_validators [] fresh = Ok []"
| "run_validators (v # vs) fresh =
     bind_outcome (v fresh) (\<lambda>c.
     bind_outcome (run_validators vs fresh) (\<lambda>rest.
     Ok ((if vc_failed c then [report c] else []) @ rest)))"

definition fresh_context :: "spec \<Rightarrow> string \<Rightarrow> path_doc \<Rightarrow> string \<Rightarrow> operation \<Rightarrow> validationContext" where
  "fresh_context sp pathName path m op =
     \<lparr>vc_spec = sp, vc_method = m, vc_path = path, vc_operation = op, vc_pathName = pathName, vc_failed = False, vc_failures = []\<rparr>"

fun collect :: "('a \<Rightarrow> 'r list result) \<Rightarrow> 'a list \<Rightarrow> 'r list result" where
  "collect f [] = Ok []"
| "collect f (x # xs) = bind_outcome (f x) (\<lambda>a. bind_outcome (collect f xs) (\<lambda>b. Ok (a @ b)))"

text \<open>
  \<open>opwalk\<close> is the order in which the operations of a path are visited.  The result is the list of
  reports; the process exits with status 1 if there is one.
\<close>

definition validate ::
    "(content \<Rightarrow> (string \<times> bool) list) \<Rightarrow> ((string, operation) fmap \<Rightarrow> (string \<times> operation) list) \<Rightarrow> spec \<Rightarrow>
     string list result" where
  "validate walk opwalk sp =
     collect (\<lambda>(pathName, path).
       collect (\<lambda>(m, op). run_validators (validators walk) (fresh_context sp pathName path m op))
         (opwalk (pd_Operations path))) (sp_Paths sp)"

text \<open>
  The whole run, to the status of the process and what it prints: \<open>load\<close> reads the document and \<open>check\<close>
  is the library's own validation.  A panic ends the process with status 2; what was printed before it is
  left out.
\<close>

definition validate_main ::
    "(string \<Rightarrow> spec result) \<Rightarrow> (spec \<Rightarrow> unit result) \<Rightarrow> (content \<Rightarrow> (string \<times> bool) list) \<Rightarrow>
     ((string, operation) fmap \<Rightarrow> (string \<times> operation) list) \<Rightarrow> string \<Rightarrow> nat \<times> string list" where
  "validate_main load check walk opwalk path =
     (case load path of
        Panic \<Rightarrow> (2, [])
      | Err e \<Rightarrow> (1, [Sprintln [Text ''failed to lead schema'', Text (error_text e)]])
      | Ok sp \<Rightarrow>
          (case check sp of
             Panic \<Rightarrow> (2, [])
           | Err e \<Rightarrow> (1, [Sprintln [Text ''failed to validate spec'', Text (error_text e)]])
           | Ok _ \<Rightarrow>
               (case validate walk opwalk sp of
                  Ok [] \<Rightarrow> (0, [])
                | Ok reports \<Rightarrow> (1, reports)
                | _ \<Rightarrow> (2, []))))"

section \<open>What an operation must have\<close>

definition documented :: "operation \<Rightarrow> bool" where
  "documented op \<longleftrightarrow>
     fmlookup (op_Extensions op) ''x-hidden'' = Some True \<or> (op_Summary op \<noteq> '''' \<and> op_Tags op \<noteq> [])"

definition secured :: "operation \<Rightarrow> bool" where
  "secured op \<longleftrightarrow>
     has_extension op ''x-no-security-requirements'' \<or>
     (op_Security op = Some 1 \<and> op_Status op 401 \<noteq> None \<and>
      (has_extension op ''x-no-authorization'' \<or> op_Status op 403 \<noteq> None))"

definition findable :: "path_doc \<Rightarrow> operation \<Rightarrow> bool" where
  "findable path op \<longleftrightarrow>
     (\<forall>p \<in> set (pd_Parameters path @ op_Parameters op). rf_Value p \<noteq> None) \<and>
     ((\<exists>p \<in> set (pd_Parameters path @ op_Parameters op). \<exists>v. rf_Value p = Some v \<and> pa_In v = ''path'' \<and>
         pa_Name v \<noteq> ''organizationID'' \<and> pa_Name v \<noteq> ''projectID'') \<longrightarrow> op_Status op 404 \<noteq> None)"

definition request_checked :: "spec \<Rightarrow> string \<Rightarrow> operation \<Rightarrow> bool" where
  "request_checked sp m op \<longleftrightarrow>
     m \<noteq> ''POST'' \<and> m \<noteq> ''PUT'' \<or> has_extension op ''x-no-body'' \<or>
     (\<exists>r body. op_RequestBody op = Some r \<and> resolve (sp_RequestBodies sp) r = Ok body \<and>
        (\<forall>t. fmlookup (rb_Content body) t \<noteq> Some False))"

definition response_checked :: "spec \<Rightarrow> string \<Rightarrow> operation \<Rightarrow> bool" where
  "response_checked sp m op \<longleftrightarrow>
     m \<noteq> ''GET'' \<or> op_Status op 200 = None \<or>
     (\<exists>r response content. op_Status op 200 = Some r \<and> resolve (sp_Responses sp) r = Ok response \<and>
        rp_Content response = Some content \<and> fmlookup content ''application/json'' \<noteq> Some False)"

definition conforms :: "spec \<Rightarrow> path_doc \<Rightarrow> string \<Rightarrow> operation \<Rightarrow> bool" where
  "conforms sp path m op \<longleftrightarrow>
     documented op \<and> secured op \<and> findable path op \<and> request_checked sp m op \<and> response_checked sp m op"

section \<open>Passing means conforming\<close>

lemma notify_fields [simp]:
  "vc_spec (notify v c) = vc_spec c" "vc_method (notify v c) = vc_method c" "vc_path (notify v c) = vc_path c"
  "vc_operation (notify v c) = vc_operation c" "vc_pathName (notify v c) = vc_pathName c" "vc_failed (notify v c)"
  by (simp_all add: notify_def)

lemma must_failed [simp]:
  "vc_failed (mustIncludeStatusCode code c) \<longleftrightarrow> vc_failed c \<or> op_Status (vc_operation c) code = None"
  "vc_operation (mustIncludeStatusCode code c) = vc_operation c"
  by (auto simp: mustIncludeStatusCode_def)

lemma resource_parameters_Ok:
  "resource_parameters ps = Ok vs \<longleftrightarrow>
   (\<forall>p \<in> set ps. rf_Value p \<noteq> None) \<and>
   vs = filter (\<lambda>v. pa_In v = ''path'' \<and> pa_Name v \<notin> set non404) (map (\<lambda>p. the (rf_Value p)) ps)"
  by (induction ps arbitrary: vs) (auto simp: bind_outcome_Ok_iff ParameterInPath_def split: option.splits)

lemma foldl_notify_failed:
  "vc_failed (foldl (\<lambda>c kv. if P kv then notify (msg kv) c else c) c kvs) \<longleftrightarrow> vc_failed c \<or> (\<exists>kv \<in> set kvs. P kv)"
proof (induction kvs arbitrary: c)
  case (Cons kv kvs)
  then show ?case by (cases "P kv") simp_all
qed simp

lemma check_request_failed:
  "vc_failed (check_request_schemas kvs c) \<longleftrightarrow> vc_failed c \<or> (\<exists>kv \<in> set kvs. \<not> snd kv)"
  unfolding check_request_schemas_def by (rule foldl_notify_failed)

lemma check_response_failed:
  "vc_failed (check_response_schemas code kvs c) \<longleftrightarrow>
   vc_failed c \<or> (\<exists>kv \<in> set kvs. fst kv = ''application/json'' \<and> \<not> snd kv)"
  unfolding check_response_schemas_def by (rule foldl_notify_failed)

lemma each_code_other:
  "200 \<notin> set ns \<Longrightarrow> each_code (validate_response walk) ns c = Ok c"
  by (induction ns) (auto simp: validate_response_def split: option.splits)

lemma each_code_append:
  "each_code f (ns @ ms) c = bind_outcome (each_code f ns c) (each_code f ms)"
proof (induction ns arbitrary: c)
  case (Cons n ns)
  then show ?case by (cases "f n c") simp_all
qed simp

lemma response_codes:
  assumes "a \<le> 200" and "200 < b"
  shows "each_code (validate_response walk) [a..<b] c = validate_response walk 200 c"
proof -
  have "[a..<b] = [a..<200] @ [200..<b]"
    using upt_add_eq_append [OF assms(1), of "b - 200"] assms(2) by simp
  then have s: "[a..<b] = [a..<200] @ 200 # [Suc 200..<b]"
    using upt_conv_Cons [OF assms(2)] by simp
  have "each_code (validate_response walk) [Suc 200..<b] d = Ok d" for d by (rule each_code_other) simp
  then have "each_code (validate_response walk) [Suc 200..<b] = Ok" by (rule ext)
  then show ?thesis
    unfolding s each_code_append by (cases "validate_response walk 200 c") (simp_all add: each_code_other)
qed

text \<open>Each validator, on a fresh context, passes exactly when its demand is met.\<close>

definition passes :: "validationFunc \<Rightarrow> validationContext \<Rightarrow> bool" where
  "passes v c \<longleftrightarrow> (\<exists>c'. v c = Ok c' \<and> \<not> vc_failed c')"

lemma passes_documentation:
  "\<not> vc_failed c \<Longrightarrow> passes validateOperationDocumentation c \<longleftrightarrow> documented (vc_operation c)"
  by (auto simp: passes_def validateOperationDocumentation_def documented_def extensionHidden_def Let_def)

lemma passes_security:
  "\<not> vc_failed c \<Longrightarrow> passes validateOperationSecurity c \<longleftrightarrow> secured (vc_operation c)"
  by (auto simp: passes_def validateOperationSecurity_def secured_def extensionNoSecurityRequirements_def
      extensionNoAuthorization_def Let_def split: option.splits)

lemma filter_resolved:
  "(\<forall>p \<in> set ps. rf_Value p \<noteq> None) \<Longrightarrow>
   filter Q (map (\<lambda>p. the (rf_Value p)) ps) = [] \<longleftrightarrow> \<not> (\<exists>p \<in> set ps. \<exists>v. rf_Value p = Some v \<and> Q v)"
  by (induction ps) auto

lemma passes_foundness:
  assumes "\<not> vc_failed c"
  shows "passes validateOperationFoundness c \<longleftrightarrow> findable (vc_path c) (vc_operation c)"
proof -
  define ps where "ps = pd_Parameters (vc_path c) @ op_Parameters (vc_operation c)"
  define Q where "Q v \<longleftrightarrow> pa_In v = ''path'' \<and> pa_Name v \<notin> set non404" for v :: parameter
  have find: "findable (vc_path c) (vc_operation c) \<longleftrightarrow>
      (\<forall>p \<in> set ps. rf_Value p \<noteq> None) \<and>
      ((\<exists>p \<in> set ps. \<exists>v. rf_Value p = Some v \<and> Q v) \<longrightarrow> op_Status (vc_operation c) 404 \<noteq> None)"
    unfolding findable_def ps_def [symmetric] Q_def non404_def by simp
  have pass: "passes validateOperationFoundness c \<longleftrightarrow>
      (\<exists>vs. resource_parameters ps = Ok vs \<and> (vs \<noteq> [] \<longrightarrow> op_Status (vc_operation c) 404 \<noteq> None))"
    using assms unfolding passes_def validateOperationFoundness_def ps_def [symmetric]
    by (cases "resource_parameters ps") auto
  show ?thesis
    unfolding find pass resource_parameters_Ok Q_def [symmetric]
    using filter_resolved [of ps Q] by blast
qed

lemma passes_request:
  assumes "\<And>m. walk_of m (walk m)" and "\<not> vc_failed c"
  shows "passes (validateRequestValidation walk) c \<longleftrightarrow> request_checked (vc_spec c) (vc_method c) (vc_operation c)"
proof -
  have "(\<exists>kv \<in> set (walk m). \<not> snd kv) \<longleftrightarrow> (\<exists>t. (t, False) \<in> set (walk m))" for m by force
  then have "(\<exists>kv \<in> set (walk m). \<not> snd kv) \<longleftrightarrow> (\<exists>t. fmlookup m t = Some False)" for m
    by (simp only: walk_of_mem [of m "walk m", OF assms(1)])
  then show ?thesis
    using assms(2)
    by (auto simp: passes_def validateRequestValidation_def request_checked_def extensionNoBody_def Let_def
        bind_outcome_Ok_iff check_request_failed split: option.splits)
qed

lemma passes_response:
  assumes "\<And>m. walk_of m (walk m)" and "\<not> vc_failed c"
  shows "passes (validateResponseValidation walk) c \<longleftrightarrow> response_checked (vc_spec c) (vc_method c) (vc_operation c)"
proof -
  have "(\<exists>kv \<in> set (walk m). fst kv = t \<and> \<not> snd kv) \<longleftrightarrow> (t, False) \<in> set (walk m)" for m t by force
  then have "(\<exists>kv \<in> set (walk m). fst kv = t \<and> \<not> snd kv) \<longleftrightarrow> fmlookup m t = Some False" for m t
    by (simp only: walk_of_mem [of m "walk m", OF assms(1)])
  note json = this [of _ "''application/json''"]
  have codes: "(100 :: nat) \<le> 200" "(200 :: nat) < 600" by simp_all
  show ?thesis
  proof (cases "vc_method c = ''GET''")
    case False
    with assms(2) show ?thesis by (simp add: passes_def validateResponseValidation_def response_checked_def)
  next
    case True
    then have "passes (validateResponseValidation walk) c \<longleftrightarrow> passes (validate_response walk 200) c"
      unfolding passes_def validateResponseValidation_def response_codes [of 100 600 walk c, OF codes] by simp
    also have "\<dots> \<longleftrightarrow> response_checked (vc_spec c) (vc_method c) (vc_operation c)"
    proof (cases "op_Status (vc_operation c) 200")
      case None
      with assms(2) show ?thesis by (simp add: passes_def validate_response_def response_checked_def)
    next
      case (Some r)
      show ?thesis
      proof (cases "resolve (sp_Responses (vc_spec c)) r")
        case (Ok response)
        then show ?thesis
          using assms(2) True Some json
          by (cases "rp_Content response")
            (simp_all add: passes_def validate_response_def response_checked_def check_response_failed Let_def)
      qed (use True Some in \<open>simp_all add: passes_def validate_response_def response_checked_def\<close>)
    qed
    finally show ?thesis .
  qed
qed

lemma run_validators_pass:
  "run_validators vs c = Ok [] \<longleftrightarrow> (\<forall>v \<in> set vs. passes v c)"
  by (induction vs) (auto simp: passes_def bind_outcome_Ok_iff split: if_splits)

lemma collect_pass: "collect f xs = Ok [] \<longleftrightarrow> (\<forall>x \<in> set xs. f x = Ok [])"
  by (induction xs) (auto simp: bind_outcome_Ok_iff)


text \<open>The status of the process: success only for a document that loads, is valid and has no failure.\<close>

lemma validate_main_0:
  "fst (validate_main load check walk opwalk path) = 0 \<longleftrightarrow>
   (\<exists>sp. load path = Ok sp \<and> check sp = Ok () \<and> validate walk opwalk sp = Ok [])"
  by (auto simp: validate_main_def split: outcome.splits list.splits)

text \<open>
  An operation that should have a body and has none is noticed, and then dereferenced: the validator
  crashes before it reports anything.
\<close>

lemma missing_body_panics:
  assumes "vc_method c = ''POST''" and "\<not> has_extension (vc_operation c) extensionNoBody"
    and "op_RequestBody (vc_operation c) = None"
  shows "validateRequestValidation walk c = Panic"
  using assms by (simp add: validateRequestValidation_def Let_def)

section \<open>An instance\<close>

definition sample_operation :: operation where
  "sample_operation =
     \<lparr>op_Extensions = fmempty, op_Summary = ''lists things'', op_Tags = [''things''], op_Security = Some 1, op_Parameters = [],
      op_RequestBody = None,
      op_Status = (\<lambda>c. if c \<in> {200, 401, 403}
        then Some \<lparr>rf_Ref = '''', rf_Value = Some \<lparr>rp_Content = Some (fmap_of_list [(''application/json'', True)])\<rparr>\<rparr> else None)\<rparr>"

definition sample_spec :: "string \<Rightarrow> spec" where
  "sample_spec m =
     \<lparr>sp_Paths = [(''/things'', \<lparr>pd_Parameters = [], pd_Operations = fmap_of_list [(m, sample_operation)]\<rparr>)],
      sp_RequestBodies = fmempty, sp_Responses = fmempty\<rparr>"


end
