(* ===== verification/License_Check.thy ===== *)
theory License_Check
  imports Http
begin

text \<open>
  The checker of license headers (\<open>hack/check_license/main.go\<close>).  Reading and parsing files is an
  argument: a file has its lines and the comments of its syntax tree.  The regular expression for a
  copyright line is spelled out.
\<close>

section \<open>Text\<close>

definition newline :: char where "newline = CHR 0x0A"

definition has_prefix :: "string \<Rightarrow> string \<Rightarrow> bool" where
  "has_prefix s pre \<longleftrightarrow> take (length pre) s = pre"

definition has_suffix :: "string \<Rightarrow> string \<Rightarrow> bool" where
  "has_suffix s suf \<longleftrightarrow> length suf \<le> length s \<and> drop (length s - length suf) s = suf"

text \<open>\<open>unicode.IsSpace\<close> on ASCII text.\<close>

definition is_space :: "char \<Rightarrow> bool" where
  "is_space c \<longleftrightarrow> c \<in> {CHR 0x09, CHR 0x0A, CHR 0x0B, CHR 0x0C, CHR 0x0D, CHR '' ''}"

definition TrimSpace :: "string \<Rightarrow> string" where
  "TrimSpace s = rev (dropWhile is_space (rev (dropWhile is_space s)))"

fun contains :: "string \<Rightarrow> string \<Rightarrow> bool" where
  "contains [] sub \<longleftrightarrow> sub = []"
| "contains (c # cs) sub \<longleftrightarrow> has_prefix (c # cs) sub \<or> contains cs sub"

section \<open>Copyright lines\<close>

definition is_digit :: "char \<Rightarrow> bool" where "is_digit c \<longleftrightarrow> CHR ''0'' \<le> c \<and> c \<le> CHR ''9''"

definition four_digits :: "string \<Rightarrow> bool" where
  "four_digits s \<longleftrightarrow> length s = 4 \<and> list_all is_digit s"

text \<open>
  \<open>^Copyright (\d{4})(?:-(\d{4}))? (.*)$\<close>: the two years, the second empty when it is not there, and the
  rest, which has no newline.
\<close>

definition owner_part :: "string \<Rightarrow> string option" where
  "owner_part t =
     (case t of c # rest \<Rightarrow> if c = CHR '' '' \<and> newline \<notin> set rest then Some rest else None | [] \<Rightarrow> None)"

definition copyright_match :: "string \<Rightarrow> (string \<times> string \<times> string) option" where
  "copyright_match s =
     (if \<not> has_prefix s ''Copyright '' then None
      else
        (let t = drop 10 s; y1 = take 4 t; t1 = drop 4 t
         in if \<not> four_digits y1 then None
            else if has_prefix t1 ''-'' \<and> four_digits (take 4 (drop 1 t1))
            then map_option (\<lambda>r. (y1, take 4 (drop 1 t1), r)) (owner_part (drop 5 t1))
            else map_option (\<lambda>r. (y1, '''', r)) (owner_part t1)))"

section \<open>One file\<close>

datatype license_error =
    NotCStyle | NotEndingInLicense | NoCopyright | NoSpace | BadCopyright string | BadYear string | NotThisYear int
  | WrongOwner string | NoComments string | ParseError gerror | GlobError gerror | Fail

definition apache2LicenseHeader :: string where
  "apache2LicenseHeader = str_join [newline]
     [''Licensed under the Apache License, Version 2.0 (the \"License\");'',
      ''you may not use this file except in compliance with the License.'',
      ''You may obtain a copy of the License at'',
      '''',
      ''    http://www.apache.org/licenses/LICENSE-2.0'',
      '''',
      ''Unless required by applicable law or agreed to in writing, software'',
      ''distributed under the License is distributed on an \"AS IS\" BASIS,'',
      ''WITHOUT WARRANTIES OR CONDITIONS OF ANY KIND, either express or implied.'',
      ''See the License for the specific language governing permissions and'',
      ''limitations under the License.'']"

text \<open>\<open>license\<close> is the text of the license and \<open>thisYear\<close> the current year.  A comment of fewer than four
  characters is sliced out of range.\<close>

definition license_body :: "string \<Rightarrow> string option" where
  "license_body t = (if length t < 4 then None else Some (TrimSpace (take (length t - 4) (drop 2 t))))"

fun first_bad :: "string list \<Rightarrow> string option" where
  "first_bad [] = None"
| "first_bad (l # ls) = (if copyright_match l = None then Some l else first_bad ls)"

definition check_owner :: "int \<Rightarrow> string \<Rightarrow> (license_error, unit) outcome" where
  "check_owner thisYear lastCopyright =
     (case copyright_match lastCopyright of
        None \<Rightarrow> Panic
      | Some (y1, y2, owner) \<Rightarrow>
          (let yearString = (if y2 \<noteq> '''' then y2 else y1)
           in case Atoi yearString of
                None \<Rightarrow> Err (BadYear yearString)
              | Some year \<Rightarrow>
                  if year \<noteq> thisYear then Err (NotThisYear year)
                  else if owner \<noteq> ''Nscale.'' then Err (WrongOwner owner)
                  else Ok ()))"

definition checkLicense :: "string \<Rightarrow> int \<Rightarrow> string \<Rightarrow> (license_error, unit) outcome" where
  "checkLicense license thisYear comment =
     (if \<not> has_prefix comment ''/*'' then Err NotCStyle
      else case license_body comment of
        None \<Rightarrow> Panic
      | Some body \<Rightarrow>
          if \<not> has_suffix body license then Err NotEndingInLicense
          else
            (let header = TrimSuffix body license;
                 headerLines = str_split newline header
             in if length headerLines < 3 then Err NoCopyright
                else
                  (let lastHeaderLineIndex = length headerLines - 2
                   in if headerLines ! lastHeaderLineIndex \<noteq> '''' then Err NoSpace
                      else
                        (let copyrights = take lastHeaderLineIndex headerLines
                         in case first_bad copyrights of
                              Some l \<Rightarrow> Err (BadCopyright l)
                            | None \<Rightarrow> check_owner thisYear (copyrights ! (lastHeaderLineIndex - 1))))))"

definition commentIsGoBuild :: "string \<Rightarrow> bool" where
  "commentIsGoBuild comment \<longleftrightarrow> has_prefix comment ''//go:build''"

text \<open>The comment groups of a file; none of them is empty.\<close>

definition checkGoLicenseInComments ::
    "string \<Rightarrow> int \<Rightarrow> string \<Rightarrow> string list list \<Rightarrow> (license_error, unit) outcome" where
  "checkGoLicenseInComments license thisYear path comments =
     (case comments of
        [] \<Rightarrow> Err (NoComments path)
      | g # gs \<Rightarrow>
          (let index = (if commentIsGoBuild (hd g) then 1 else 0)
           in if index < length comments then checkLicense license thisYear (hd (comments ! index)) else Panic))"

section \<open>The tree\<close>

text \<open>A file: its lines, if it can be read, and its comment groups, if it can be parsed.\<close>

record go_file =
  gf_path :: string
  gf_lines :: "string list result"
  gf_comments :: "string list list result"

definition checkGoLicenseFile :: "string \<Rightarrow> int \<Rightarrow> go_file \<Rightarrow> (license_error, unit) outcome" where
  "checkGoLicenseFile license thisYear f =
     (case gf_comments f of
        Err e \<Rightarrow> Err (ParseError e)
      | Panic \<Rightarrow> Panic
      | Ok comments \<Rightarrow> checkGoLicenseInComments license thisYear (gf_path f) comments)"

definition ignoreFile :: "go_file \<Rightarrow> bool result" where
  "ignoreFile f =
     bind_outcome (gf_lines f) (\<lambda>lines. Ok (list_ex (\<lambda>l. contains l ''Code generated by'') lines))"

text \<open>The paths with an error, in order; a file that cannot be read is reported and then checked as well.\<close>

fun check_files :: "string \<Rightarrow> int \<Rightarrow> go_file list \<Rightarrow> (license_error, string list) outcome" where
  "check_files license thisYear [] = Ok []"
| "check_files license thisYear (f # fs) =
     (let rest = check_files license thisYear fs;
          check = (case checkGoLicenseFile license thisYear f of
                     Ok _ \<Rightarrow> Ok [] | Err e \<Rightarrow> Ok [gf_path f] | Panic \<Rightarrow> Panic)
      in case ignoreFile f of
           Ok True \<Rightarrow> rest
         | Ok False \<Rightarrow> bind_outcome check (\<lambda>a. bind_outcome rest (\<lambda>b. Ok (a @ b)))
         | Err e \<Rightarrow> bind_outcome check (\<lambda>a. bind_outcome rest (\<lambda>b. Ok (gf_path f # a @ b)))
         | Panic \<Rightarrow> Panic)"

text \<open>
  \<open>filepath.Ext\<close>: from the last dot of the last element of a path on.
\<close>

definition Ext :: "string \<Rightarrow> string" where
  "Ext path =
     (let base = rev (takeWhile (\<lambda>c. c \<noteq> CHR ''/'') (rev path))
      in if CHR ''.'' \<in> set base then CHR ''.'' # rev (takeWhile (\<lambda>c. c \<noteq> CHR ''.'') (rev base)) else '''')"

text \<open>
  An entry of the walk: its path and whether it is a directory, or \<open>None\<close> when the file could not be
  examined, so that the callback is handed a nil description, which it dereferences.
\<close>

type_synonym walk_entry = "string \<times> bool option"

fun glob_entries :: "string \<Rightarrow> walk_entry list \<Rightarrow> (license_error, string list) outcome" where
  "glob_entries extension [] = Ok []"
| "glob_entries extension ((path, info) # es) =
     (case info of
        None \<Rightarrow> Panic
      | Some True \<Rightarrow> glob_entries extension es
      | Some False \<Rightarrow>
          if Ext path \<noteq> extension then glob_entries extension es
          else bind_outcome (glob_entries extension es) (\<lambda>files. Ok (path # files)))"

text \<open>\<open>walk\<close> lists the entries below a directory; the walk itself fails only where the callback does.\<close>

definition glob :: "string result \<Rightarrow> (string \<Rightarrow> walk_entry list) \<Rightarrow> string \<Rightarrow> (license_error, string list) outcome" where
  "glob wd walk extension =
     (case wd of
        Err e \<Rightarrow> Err (GlobError e)
      | Panic \<Rightarrow> Panic
      | Ok dir \<Rightarrow> glob_entries extension (walk dir))"

definition checkGoLicense ::
    "string \<Rightarrow> int \<Rightarrow> string result \<Rightarrow> (string \<Rightarrow> walk_entry list) \<Rightarrow> (string \<Rightarrow> go_file) \<Rightarrow> (license_error, unit) outcome" where
  "checkGoLicense license thisYear wd walk file =
     bind_outcome (glob wd walk ''.go'') (\<lambda>paths.
     bind_outcome (check_files license thisYear (map file paths)) (\<lambda>errs.
       if errs \<noteq> [] then Err Fail else Ok ()))"

text \<open>The status of the process.\<close>

definition license_main ::
    "string \<Rightarrow> int \<Rightarrow> string result \<Rightarrow> (string \<Rightarrow> walk_entry list) \<Rightarrow> (string \<Rightarrow> go_file) \<Rightarrow> nat" where
  "license_main license thisYear wd walk file =
     (case checkGoLicense license thisYear wd walk file of Ok _ \<Rightarrow> 0 | Err _ \<Rightarrow> 1 | Panic \<Rightarrow> 2)"

section \<open>What is accepted\<close>

lemma TrimSpace_around:
  assumes "s \<noteq> ''''" and "\<not> is_space (hd s)" and "\<not> is_space (last s)" and "is_space a" and "is_space b"
  shows "TrimSpace (a # s @ [b]) = s"
proof -
  have keep: "x \<noteq> [] \<Longrightarrow> \<not> is_space (hd x) \<Longrightarrow> dropWhile is_space x = x" for x by (cases x) auto
  have "dropWhile is_space (a # s @ [b]) = s @ [b]" using keep [of "s @ [b]"] assms by simp
  moreover have "dropWhile is_space (rev (s @ [b])) = rev s" using keep [of "rev s"] assms by (simp add: hd_rev)
  ultimately show ?thesis by (simp add: TrimSpace_def)
qed

lemma license_body_comment: "license_body (''/*'' @ t @ ''*/'') = Some (TrimSpace t)"
  by (simp add: license_body_def)

lemma has_suffix_append: "has_suffix (s @ suf) suf"
  by (simp add: has_suffix_def)

lemma copyright_single:
  "four_digits y \<Longrightarrow> newline \<notin> set owner \<Longrightarrow> copyright_match (''Copyright '' @ y @ '' '' @ owner) = Some (y, '''', owner)"
  by (auto simp: copyright_match_def has_prefix_def four_digits_def owner_part_def Let_def)

text \<open>
  A header in the documented form passes: the copyright line of this year, a blank line, and the license.
\<close>

theorem documented_header_passes:
  assumes "four_digits y" and "Atoi y = Some thisYear" and "license \<noteq> ''''" and "\<not> is_space (last license)"
  shows "checkLicense license thisYear
      (''/*'' @ [newline] @ (''Copyright '' @ y @ '' Nscale.'') @ [newline, newline] @ license @ [newline] @ ''*/'') = Ok ()"
proof -
  let ?line = "''Copyright '' @ y @ '' Nscale.''"
  let ?body = "?line @ [newline, newline] @ license"
  have nl: "newline \<notin> set ?line"
  proof -
    have "c \<noteq> newline" if "c \<in> set y" for c
      using assms(1) that by (auto simp: four_digits_def list_all_iff is_digit_def newline_def less_eq_char_def)
    then show ?thesis by (auto simp: newline_def)
  qed
  have sp: "is_space newline" by (simp add: is_space_def newline_def)
  have trim: "TrimSpace (newline # ?body @ [newline]) = ?body"
    by (rule TrimSpace_around) (use assms(3,4) sp in \<open>auto simp: is_space_def\<close>)
  from license_body_comment [of "newline # ?body @ [newline]"]
  have body: "license_body (''/*'' @ [newline] @ ?line @ [newline, newline] @ license @ [newline] @ ''*/'') = Some ?body"
    unfolding trim by simp
  have "str_split newline (?line @ [newline, newline]) = [?line, '''', '''']"
    using str_split_append_sep [OF nl, of "[newline]"] by simp
  moreover have "copyright_match ?line = Some (y, '''', ''Nscale.'')"
    using copyright_single [OF assms(1), of "''Nscale.''"] by (simp add: newline_def)
  moreover have "has_suffix ?body license" using has_suffix_append [of "?line @ [newline, newline]" license] by simp
  moreover have "TrimSuffix ?body license = ?line @ [newline, newline]"
    using TrimSuffix_append [of "?line @ [newline, newline]" license] by simp
  ultimately show ?thesis
    using body assms(2) by (simp add: checkLicense_def check_owner_def Let_def has_prefix_def)
qed

text \<open>The header of the files of the repository.\<close>

lemma apache_header_passes:
  "checkLicense apache2LicenseHeader 2026
     (''/*'' @ [newline] @ (''Copyright '' @ ''2026'' @ '' Nscale.'') @ [newline, newline] @
      apache2LicenseHeader @ [newline] @ ''*/'') = Ok ()"
proof (rule documented_header_passes)
  show "four_digits ''2026''" by code_simp
  show "Atoi ''2026'' = Some 2026" by code_simp
  show "apache2LicenseHeader \<noteq> ''''" by (simp add: apache2LicenseHeader_def)
  show "\<not> is_space (last apache2LicenseHeader)" by (simp add: apache2LicenseHeader_def is_space_def)
qed

text \<open>A file whose only comment is a build constraint makes the checker crash.\<close>

lemma only_build_constraint_panics:
  "commentIsGoBuild c \<Longrightarrow> checkGoLicenseInComments license thisYear path [[c]] = Panic"
  by (simp add: checkGoLicenseInComments_def)

section \<open>The whole tree\<close>

text \<open>The files the checker looks at: those it could examine, that are no directories and end in the extension.\<close>

lemma glob_entries_Ok:
  "glob_entries extension es = Ok files \<longleftrightarrow>
   (\<forall>e \<in> set es. snd e \<noteq> None) \<and>
   files = map fst (filter (\<lambda>e. snd e = Some False \<and> Ext (fst e) = extension) es)"
  by (induction extension es arbitrary: files rule: glob_entries.induct)
    (auto simp: bind_outcome_Ok_iff split: option.splits bool.splits)

definition file_passes :: "string \<Rightarrow> int \<Rightarrow> go_file \<Rightarrow> bool" where
  "file_passes license thisYear f \<longleftrightarrow>
     (\<exists>lines. gf_lines f = Ok lines \<and>
        (list_ex (\<lambda>l. contains l ''Code generated by'') lines \<or> checkGoLicenseFile license thisYear f = Ok ()))"

lemma ignoreFile_cases:
  "ignoreFile f = Ok b \<longleftrightarrow> (\<exists>lines. gf_lines f = Ok lines \<and> b = list_ex (\<lambda>l. contains l ''Code generated by'') lines)"
  by (auto simp: ignoreFile_def bind_outcome_Ok_iff)

lemma check_files_clean:
  "check_files license thisYear fs = Ok [] \<longleftrightarrow> (\<forall>f \<in> set fs. file_passes license thisYear f)"
proof (induction fs)
  case (Cons f fs)
  show ?case
  proof (cases "gf_lines f")
    case (Ok lines)
    then have "ignoreFile f = Ok (list_ex (\<lambda>l. contains l ''Code generated by'') lines)" by (simp add: ignoreFile_cases)
    with Ok Cons show ?thesis
      by (cases "list_ex (\<lambda>l. contains l ''Code generated by'') lines")
        (auto simp: file_passes_def bind_outcome_Ok_iff Let_def split: outcome.splits)
  qed (auto simp: file_passes_def ignoreFile_def bind_outcome_Ok_iff Let_def)
qed simp

text \<open>
  The checker ends with success exactly when the tree can be walked and every Go file in it can be
  read and either is generated or carries a valid header.
\<close>

theorem license_main_sound_complete:
  "license_main license thisYear wd walk file = 0 \<longleftrightarrow>
   (\<exists>dir. wd = Ok dir \<and> (\<forall>e \<in> set (walk dir). snd e \<noteq> None) \<and>
      (\<forall>e \<in> set (walk dir). snd e = Some False \<longrightarrow> Ext (fst e) = ''.go'' \<longrightarrow> file_passes license thisYear (file (fst e))))"
proof -
  have "license_main license thisYear wd walk file = 0 \<longleftrightarrow> checkGoLicense license thisYear wd walk file = Ok ()"
    by (simp add: license_main_def split: outcome.splits)
  also have "\<dots> \<longleftrightarrow> (\<exists>dir paths. wd = Ok dir \<and> glob_entries ''.go'' (walk dir) = Ok paths \<and>
      check_files license thisYear (map file paths) = Ok [])"
    by (auto simp: checkGoLicense_def glob_def bind_outcome_Ok_iff split: outcome.splits)
  also have "\<dots> \<longleftrightarrow> (\<exists>dir. wd = Ok dir \<and> (\<forall>e \<in> set (walk dir). snd e \<noteq> None) \<and>
      (\<forall>e \<in> set (walk dir). snd e = Some False \<longrightarrow> Ext (fst e) = ''.go'' \<longrightarrow> file_passes license thisYear (file (fst e))))"
    unfolding glob_entries_Ok check_files_clean by auto force
  finally show ?thesis .
qed

lemma unreadable_entry_panics:
  "(path, None) \<in> set es \<Longrightarrow> glob_entries extension es = Panic"
  by (induction extension es rule: glob_entries.induct) (auto split: option.splits bool.splits)

end
