(* ===== verification/Docs_Generate.thy ===== *)
theory Docs_Generate
  imports Go_Errors
begin

text \<open>
  The generator of documentation (\<open>hack/docs-generate/main.go\<close>): variables are looked up in YAML
  documents, and templates are rendered with them.  The file system maps paths to contents.  YAML, JSON
  pointers and templates are arguments, collected in a record.
\<close>

section \<open>Configuration\<close>

record yaml_variable =
  yv_File :: string
  yv_Pointer :: string

record doc_variable =
  dv_Name :: string
  dv_Yaml :: "yaml_variable option"

record doc_file =
  df_In :: string
  df_Out :: string

record doc_config =
  dc_Variables :: "doc_variable list"
  dc_Files :: "doc_file list"

type_synonym files = smap

text \<open>
  A template writes a part of its output even if it fails; \<open>dl_Create\<close> tells which paths can be created.
\<close>

record ('doc, 'ptr, 'val, 'tpl) doc_lib =
  dl_UnmarshalConfig :: "string \<Rightarrow> doc_config result"
  dl_Unmarshal :: "string \<Rightarrow> 'doc result"
  dl_Pointer :: "string \<Rightarrow> 'ptr result"
  dl_Get :: "'ptr \<Rightarrow> 'doc \<Rightarrow> 'val result"
  dl_Parse :: "string \<Rightarrow> 'tpl result"
  dl_Execute :: "'tpl \<Rightarrow> (string, 'val) fmap \<Rightarrow> string \<times> unit result"
  dl_Create :: "string \<Rightarrow> unit result"

definition os_ReadFile :: "files \<Rightarrow> string \<Rightarrow> string result" where
  "os_ReadFile fs path =
     (case fmlookup fs path of Some s \<Rightarrow> Ok s | None \<Rightarrow> Err (OtherError (''open '' @ path @ '': no such file or directory'')))"

definition loadConfig :: "('doc, 'ptr, 'val, 'tpl) doc_lib \<Rightarrow> files \<Rightarrow> doc_config result" where
  "loadConfig lib fs =
     bind_outcome (os_ReadFile fs ''docs-generate.yaml'') (\<lambda>configRaw.
     bind_outcome (dl_UnmarshalConfig lib configRaw) (\<lambda>config. Ok config))"

section \<open>Variables\<close>

definition loadVariable :: "('doc, 'ptr, 'val, 'tpl) doc_lib \<Rightarrow> files \<Rightarrow> yaml_variable \<Rightarrow> 'val result" where
  "loadVariable lib fs y =
     bind_outcome (os_ReadFile fs (yv_File y)) (\<lambda>data.
     bind_outcome (dl_Unmarshal lib data) (\<lambda>document.
     bind_outcome (dl_Pointer lib (yv_Pointer y)) (\<lambda>pointer.
     dl_Get lib pointer document)))"

fun loadVariables_from ::
    "('doc, 'ptr, 'val, 'tpl) doc_lib \<Rightarrow> files \<Rightarrow> doc_variable list \<Rightarrow> (string, 'val) fmap \<Rightarrow> (string, 'val) fmap result" where
  "loadVariables_from lib fs [] variables = Ok variables"
| "loadVariables_from lib fs (v # vs) variables =
     (case dv_Yaml v of
        None \<Rightarrow> loadVariables_from lib fs vs variables
      | Some y \<Rightarrow>
          bind_outcome (loadVariable lib fs y) (\<lambda>value.
            loadVariables_from lib fs vs (fmupd (dv_Name v) value variables)))"

definition loadVariables ::
    "('doc, 'ptr, 'val, 'tpl) doc_lib \<Rightarrow> files \<Rightarrow> doc_config \<Rightarrow> (string, 'val) fmap result" where
  "loadVariables lib fs config = loadVariables_from lib fs (dc_Variables config) fmempty"

section \<open>Rendering\<close>

definition banner :: string where
  "banner = ''<!-- THIS FILE IS AUTO-GENERATED. DO NOT EDIT -->'' @ [CHR 0x0A, CHR 0x0A]"

text \<open>
  The output file is truncated before anything is rendered into it.  Writes to an open file do not fail
  here.
\<close>

definition renderFile ::
    "('doc, 'ptr, 'val, 'tpl) doc_lib \<Rightarrow> doc_file \<Rightarrow> (string, 'val) fmap \<Rightarrow> files \<Rightarrow> unit result \<times> files" where
  "renderFile lib file variables fs =
     (case bind_outcome (os_ReadFile fs (df_In file)) (dl_Parse lib) of
        Err e \<Rightarrow> (Err e, fs)
      | Panic \<Rightarrow> (Panic, fs)
      | Ok template \<Rightarrow>
          (case dl_Create lib (df_Out file) of
             Ok _ \<Rightarrow>
               (case dl_Execute lib template variables of
                  (output, r) \<Rightarrow> (r, fmupd (df_Out file) (banner @ output) fs))
           | r \<Rightarrow> (r, fs)))"

fun renderFiles ::
    "('doc, 'ptr, 'val, 'tpl) doc_lib \<Rightarrow> doc_file list \<Rightarrow> (string, 'val) fmap \<Rightarrow> files \<Rightarrow> unit result \<times> files" where
  "renderFiles lib [] variables fs = (Ok (), fs)"
| "renderFiles lib (f # fls) variables fs =
     (case renderFile lib f variables fs of
        (Ok _, fs') \<Rightarrow> renderFiles lib fls variables fs'
      | (r, fs') \<Rightarrow> (r, fs'))"

text \<open>The status of the process, and the files it leaves behind; an error is printed.\<close>

definition docs_main :: "('doc, 'ptr, 'val, 'tpl) doc_lib \<Rightarrow> files \<Rightarrow> nat \<times> files" where
  "docs_main lib fs =
     (case bind_outcome (loadConfig lib fs) (\<lambda>config.
           bind_outcome (loadVariables lib fs config) (\<lambda>variables. Ok (config, variables))) of
        Err e \<Rightarrow> (1, fs)
      | Panic \<Rightarrow> (2, fs)
      | Ok (config, variables) \<Rightarrow>
          (case renderFiles lib (dc_Files config) variables fs of
             (Ok _, fs') \<Rightarrow> (0, fs')
           | (Err e, fs') \<Rightarrow> (1, fs')
           | (Panic, fs') \<Rightarrow> (2, fs')))"

section \<open>What is generated\<close>

definition rendering ::
    "('doc, 'ptr, 'val, 'tpl) doc_lib \<Rightarrow> files \<Rightarrow> (string, 'val) fmap \<Rightarrow> doc_file \<Rightarrow> string option" where
  "rendering lib fs variables f =
     (case bind_outcome (os_ReadFile fs (df_In f)) (dl_Parse lib) of
        Ok t \<Rightarrow> (case dl_Execute lib t variables of (output, Ok _) \<Rightarrow> Some (banner @ output) | _ \<Rightarrow> None)
      | _ \<Rightarrow> None)"

lemma renderFile_Ok:
  assumes "renderFile lib f variables fs = (Ok u, fs')"
  shows "\<exists>t. rendering lib fs variables f = Some t \<and> fs' = fmupd (df_Out f) t fs"
  using assms by (auto simp: renderFile_def rendering_def split: outcome.splits prod.splits)

lemma rendering_other: "df_In f \<noteq> p \<Longrightarrow> rendering lib (fmupd p s fs) variables f = rendering lib fs variables f"
  by (simp add: rendering_def os_ReadFile_def)

lemma renderFiles_other:
  "renderFiles lib fls variables fs = (r, fs') \<Longrightarrow> p \<notin> df_Out ` set fls \<Longrightarrow> fmlookup fs' p = fmlookup fs p"
proof (induction fls arbitrary: fs)
  case (Cons f fls)
  obtain r1 fs1 where f: "renderFile lib f variables fs = (r1, fs1)" by fastforce
  then have "fmlookup fs1 p = fmlookup fs p"
    using Cons.prems(2) by (auto simp: renderFile_def split: outcome.splits prod.splits)
  with f Cons show ?case by (auto split: outcome.splits)
qed simp

text \<open>
  When no template is the output of another and the outputs are distinct, a successful run leaves every
  output with the banner and the rendering of its template, and touches nothing else.
\<close>

theorem renderFiles_Ok:
  assumes "renderFiles lib fls variables fs = (Ok u, fs')"
    and "distinct (map df_Out fls)" and "df_In ` set fls \<inter> df_Out ` set fls = {}"
  shows "\<forall>f \<in> set fls. \<exists>t. rendering lib fs variables f = Some t \<and> fmlookup fs' (df_Out f) = Some t"
    and "p \<notin> df_Out ` set fls \<Longrightarrow> fmlookup fs' p = fmlookup fs p"
proof -
  show "p \<notin> df_Out ` set fls \<Longrightarrow> fmlookup fs' p = fmlookup fs p"
    using assms(1) renderFiles_other by blast
  show "\<forall>f \<in> set fls. \<exists>t. rendering lib fs variables f = Some t \<and> fmlookup fs' (df_Out f) = Some t"
    using assms
  proof (induction fls arbitrary: fs)
    case (Cons f fls)
    then obtain fs1 where f: "renderFile lib f variables fs = (Ok (), fs1)" and rest: "renderFiles lib fls variables fs1 = (Ok u, fs')"
      by (auto split: prod.splits outcome.splits)
    then obtain t where t: "rendering lib fs variables f = Some t" "fs1 = fmupd (df_Out f) t fs"
      using renderFile_Ok by blast
    have "fmlookup fs' (df_Out f) = Some t"
      using renderFiles_other [OF rest, of "df_Out f"] Cons.prems(2) t(2) by simp
    moreover have "\<forall>g \<in> set fls. \<exists>t. rendering lib fs1 variables g = Some t \<and> fmlookup fs' (df_Out g) = Some t"
      by (rule Cons.IH [OF rest]) (use Cons.prems in auto)
    moreover have "rendering lib fs1 variables g = rendering lib fs variables g" if "g \<in> set fls" for g
      using imageI [OF that, of df_In] Cons.prems(3) unfolding t(2) by (intro rendering_other) auto
    ultimately show ?case using t(1) by auto
  qed simp
qed

text \<open>A template that fails while it runs leaves a truncated output behind.\<close>

lemma failed_template_truncates:
  assumes "bind_outcome (os_ReadFile fs (df_In f)) (dl_Parse lib) = Ok t" and "dl_Create lib (df_Out f) = Ok ()"
    and "dl_Execute lib t variables = (output, Err e)"
  shows "renderFile lib f variables fs = (Err e, fmupd (df_Out f) (banner @ output) fs)"
  using assms by (simp add: renderFile_def)

text \<open>A variable without a source is skipped, and a name that is given twice has the later value.\<close>

lemma loadVariables_last:
  assumes "loadVariables_from lib fs (vs @ [v]) m = Ok m'" and "dv_Yaml v = Some y"
  shows "\<exists>x. loadVariable lib fs y = Ok x \<and> fmlookup m' (dv_Name v) = Some x"
  using assms(1)
proof (induction vs arbitrary: m)
  case Nil
  then show ?case using assms(2) by (auto simp: bind_outcome_Ok_iff)
next
  case (Cons w vs)
  then show ?case by (auto simp: bind_outcome_Ok_iff split: option.splits)
qed

end
