(* ===== verification/Api_Client.thy ===== *)
theory Api_Client
  imports Http Constants
begin

text \<open>
  The client that the API tests of the services are built on (\<open>pkg/testing/client\<close>), the loading of
  their configuration (\<open>pkg/testing/config\<close>), names (\<open>pkg/testing/util\<close>) and contract tests
  (\<open>pkg/testing/contract\<close>).  The transport, the decoding of JSON and the configuration
  library are arguments, and so are the random bytes and the rendering of the time a request took.
  Every function that logs returns the lines it hands to the logger.
\<close>

section \<open>Trace contexts\<close>

text \<open>The arguments are the random bytes: sixteen for the trace and eight for the span.\<close>

definition generateTraceID :: "string \<Rightarrow> string" where "generateTraceID bytes = hex_bytes bytes"

definition generateSpanID :: "string \<Rightarrow> string" where "generateSpanID bytes = hex_bytes bytes"

definition CreateTraceParent :: "string \<Rightarrow> string \<Rightarrow> string" where
  "CreateTraceParent r1 r2 = ''00-'' @ generateTraceID r1 @ ''-'' @ generateSpanID r2 @ ''-01''"

definition ExtractTraceID :: "string \<Rightarrow> string" where
  "ExtractTraceID traceParent =
     (let parts = str_split (CHR ''-'') traceParent in if length parts \<ge> 2 then parts ! 1 else traceParent)"

definition ExtractSpanID :: "string \<Rightarrow> string" where
  "ExtractSpanID traceParent =
     (let parts = str_split (CHR ''-'') traceParent in if length parts \<ge> 3 then parts ! 2 else '''')"

definition FormatTraceContext :: "string \<Rightarrow> string" where
  "FormatTraceContext traceParent =
     ''traceID='' @ ExtractTraceID traceParent @ '' spanID='' @ ExtractSpanID traceParent"

section \<open>The client\<close>

record api_config =
  ac_BaseURL :: string
  ac_RequestTimeout :: duration
  ac_LogRequests :: bool
  ac_LogResponses :: bool

text \<open>\<open>cl_logger\<close> tells whether there is a logger.\<close>

record api_client =
  cl_baseURL :: string
  cl_timeout :: duration
  cl_authToken :: string
  cl_config :: api_config
  cl_logger :: bool

definition NewAPIClientWithConfig :: "api_config \<Rightarrow> string \<Rightarrow> bool \<Rightarrow> api_client" where
  "NewAPIClientWithConfig config authToken logger =
     \<lparr>cl_baseURL = TrimSuffix (ac_BaseURL config) ''/'', cl_timeout = ac_RequestTimeout config, cl_authToken = authToken,
      cl_config = config, cl_logger = logger\<rparr>"

definition NewAPIClient :: "string \<Rightarrow> string \<Rightarrow> duration \<Rightarrow> bool \<Rightarrow> api_client" where
  "NewAPIClient baseURL authToken timeout logger =
     (let config = \<lparr>ac_BaseURL = baseURL, ac_RequestTimeout = timeout, ac_LogRequests = False, ac_LogResponses = False\<rparr>
      in NewAPIClientWithConfig config authToken logger)"

definition SetAuthToken :: "string \<Rightarrow> api_client \<Rightarrow> api_client" where
  "SetAuthToken token c = c\<lparr>cl_authToken := token\<rparr>"

definition SetLogRequests :: "bool \<Rightarrow> api_client \<Rightarrow> api_client" where
  "SetLogRequests enabled c = c\<lparr>cl_config := (cl_config c)\<lparr>ac_LogRequests := enabled\<rparr>\<rparr>"

definition SetLogResponses :: "bool \<Rightarrow> api_client \<Rightarrow> api_client" where
  "SetLogResponses enabled c = c\<lparr>cl_config := (cl_config c)\<lparr>ac_LogResponses := enabled\<rparr>\<rparr>"

section \<open>Logging\<close>

text \<open>\<open>endpoint\<close> is the prefix of the lines; \<open>took\<close> is the rendered duration.\<close>

definition endpoint :: "string \<Rightarrow> string \<Rightarrow> string" where
  "endpoint meth path = ''['' @ meth @ '' '' @ path @ '']''"

definition logTraceContext :: "api_client \<Rightarrow> string \<Rightarrow> string list" where
  "logTraceContext c traceParent =
     (if cl_logger c
      then [''TRACE CONTEXT: Use '' @ FormatTraceContext traceParent @ '' to search logs for this request'' @ [CHR 0x0A]]
      else [])"

definition logError :: "api_client \<Rightarrow> string \<Rightarrow> string \<Rightarrow> string \<Rightarrow> string \<Rightarrow> gerror \<Rightarrow> string \<Rightarrow> string list" where
  "logError c meth path took traceParent err ctx =
     (if cl_logger c
      then [endpoint meth path @ '' ERROR '' @ ctx @ '' duration='' @ took @ '' '' @ FormatTraceContext traceParent @
              '' error='' @ error_text err @ [CHR 0x0A]] @ logTraceContext c traceParent
      else [])"

definition logErrorWithStatus ::
    "api_client \<Rightarrow> string \<Rightarrow> string \<Rightarrow> string \<Rightarrow> nat \<Rightarrow> string \<Rightarrow> gerror \<Rightarrow> string \<Rightarrow> string list" where
  "logErrorWithStatus c meth path took statusCode traceParent err ctx =
     (if cl_logger c
      then [endpoint meth path @ '' ERROR '' @ ctx @ '' duration='' @ took @ '' status='' @ show_nat statusCode @ '' '' @
              FormatTraceContext traceParent @ '' error='' @ error_text err @ [CHR 0x0A]] @ logTraceContext c traceParent
      else [])"

definition show_int :: "int \<Rightarrow> string" where
  "show_int i = (if i < 0 then ''-'' @ show_nat (nat (- i)) else show_nat (nat i))"

definition logUnexpectedStatus ::
    "api_client \<Rightarrow> string \<Rightarrow> string \<Rightarrow> int \<Rightarrow> nat \<Rightarrow> string \<Rightarrow> string \<Rightarrow> string list" where
  "logUnexpectedStatus c meth path expectedStatus actualStatus body traceParent =
     (if cl_logger c
      then [endpoint meth path @ '' UNEXPECTED STATUS expected='' @ show_int expectedStatus @ '' got='' @
              show_nat actualStatus @ '' body='' @ body @ '' '' @ FormatTraceContext traceParent @ [CHR 0x0A]] @
           logTraceContext c traceParent
      else [])"

section \<open>Requests\<close>

record raw_request =
  rq_method :: string
  rq_url :: string
  rq_header :: header
  rq_body :: "string option"

text \<open>A response: its status, and what reading its body gives.\<close>

record raw_response =
  rr_StatusCode :: nat
  rr_Body :: "string result"

text \<open>\<open>new_request\<close> is what \<open>http.NewRequestWithContext\<close> says of a method and an URL.\<close>

definition buildHTTPRequest ::
    "(string \<Rightarrow> string \<Rightarrow> unit result) \<Rightarrow> string \<Rightarrow> string \<Rightarrow> api_client \<Rightarrow> string \<Rightarrow> string \<Rightarrow> string option \<Rightarrow>
     (raw_request \<times> string) result" where
  "buildHTTPRequest new_request r1 r2 c meth fullURL body =
     (case new_request meth fullURL of
        Err e \<Rightarrow> Err (Wrapf ''creating request: '' e '''')
      | Panic \<Rightarrow> Panic
      | Ok _ \<Rightarrow>
          (let traceParent = CreateTraceParent r1 r2;
               h = header_Set ''Traceparent'' traceParent fmempty;
               h = header_Set ''Tracestate'' ''test-automation=true'' h;
               h = (if body \<noteq> None then header_Set ''Content-Type'' ''application/json'' h else h);
               h = (if cl_authToken c \<noteq> '''' then header_Set ''Authorization'' (''Bearer '' @ cl_authToken c) h else h)
           in Ok (\<lparr>rq_method = meth, rq_url = fullURL, rq_header = h, rq_body = body\<rparr>, traceParent)))"

text \<open>\<open>send\<close> is the transport; its result comes with the rendered time it took.\<close>

type_synonym transport = "raw_request \<Rightarrow> raw_response result \<times> string"

definition executeHTTPRequest ::
    "transport \<Rightarrow> api_client \<Rightarrow> raw_request \<Rightarrow> string \<Rightarrow> string \<Rightarrow> string \<Rightarrow> raw_response result \<times> string \<times> string list" where
  "executeHTTPRequest send c req meth path traceParent =
     (case send req of
        (Err e, took) \<Rightarrow>
          (Err (Wrapf ''http request failed: '' e ''''), took, logError c meth path took traceParent e ''http request failed'')
      | (r, took) \<Rightarrow> (r, took, []))"

definition readResponseBody ::
    "api_client \<Rightarrow> raw_response \<Rightarrow> string \<Rightarrow> string \<Rightarrow> string \<Rightarrow> string \<Rightarrow> string result \<times> string list" where
  "readResponseBody c resp meth path traceParent took =
     (case rr_Body resp of
        Err e \<Rightarrow>
          (Err (Wrapf ''reading response body: '' e ''''),
           logErrorWithStatus c meth path took (rr_StatusCode resp) traceParent e ''reading response body'')
      | r \<Rightarrow> (r, []))"

definition logRequestResponse ::
    "api_client \<Rightarrow> string \<Rightarrow> string \<Rightarrow> nat \<Rightarrow> string \<Rightarrow> string \<Rightarrow> string \<Rightarrow> string list" where
  "logRequestResponse c meth path statusCode took traceParent respBody =
     (if ac_LogRequests (cl_config c) \<and> cl_logger c
      then [endpoint meth path @ '' status='' @ show_nat statusCode @ '' duration='' @ took @ '' traceparent='' @ traceParent @
              [CHR 0x0A]]
      else []) @
     (if ac_LogResponses (cl_config c) \<and> length respBody > 0 \<and> cl_logger c
      then [endpoint meth path @ '' response body: '' @ respBody @ [CHR 0x0A]]
      else [])"

definition validateStatusCode ::
    "api_client \<Rightarrow> string \<Rightarrow> string \<Rightarrow> int \<Rightarrow> nat \<Rightarrow> string \<Rightarrow> string \<Rightarrow> unit result \<times> string list" where
  "validateStatusCode c meth path expectedStatus actualStatus respBody traceParent =
     (if expectedStatus > 0 \<and> int actualStatus \<noteq> expectedStatus
      then (Err (Wrapf (''expected '' @ show_int expectedStatus @ '', got '' @ show_nat actualStatus @ '', body: '' @ respBody @
                   '' ('' @ FormatTraceContext traceParent @ ''): '') (Sentinel ClientErrUnexpectedStatusCode) ''''),
            logUnexpectedStatus c meth path expectedStatus actualStatus respBody traceParent)
      else (Ok (), []))"

text \<open>The three results of a request (response, body, error) and the lines it logs.\<close>

record request_outcome =
  ro_response :: "raw_response option"
  ro_body :: "string option"
  ro_error :: "unit result"
  ro_log :: "string list"

definition DoRequest ::
    "(string \<Rightarrow> string \<Rightarrow> unit result) \<Rightarrow> transport \<Rightarrow> string \<Rightarrow> string \<Rightarrow> api_client \<Rightarrow> string \<Rightarrow> string \<Rightarrow> string option \<Rightarrow> int \<Rightarrow>
     request_outcome" where
  "DoRequest new_request send r1 r2 c meth path body expectedStatus =
     (let fullURL = cl_baseURL c @ path in
      case buildHTTPRequest new_request r1 r2 c meth fullURL body of
        Err e \<Rightarrow> \<lparr>ro_response = None, ro_body = None, ro_error = Err e, ro_log = []\<rparr>
      | Panic \<Rightarrow> \<lparr>ro_response = None, ro_body = None, ro_error = Panic, ro_log = []\<rparr>
      | Ok (req, traceParent) \<Rightarrow>
          (case executeHTTPRequest send c req meth path traceParent of
             (Err e, took, l1) \<Rightarrow> \<lparr>ro_response = None, ro_body = None, ro_error = Err e, ro_log = l1\<rparr>
           | (Panic, took, l1) \<Rightarrow> \<lparr>ro_response = None, ro_body = None, ro_error = Panic, ro_log = l1\<rparr>
           | (Ok resp, took, l1) \<Rightarrow>
               (case readResponseBody c resp meth path traceParent took of
                  (Err e, l2) \<Rightarrow> \<lparr>ro_response = Some resp, ro_body = None, ro_error = Err e, ro_log = l1 @ l2\<rparr>
                | (Panic, l2) \<Rightarrow> \<lparr>ro_response = None, ro_body = None, ro_error = Panic, ro_log = l1 @ l2\<rparr>
                | (Ok respBody, l2) \<Rightarrow>
                    (let l3 = logRequestResponse c meth path (rr_StatusCode resp) took traceParent respBody in
                     case validateStatusCode c meth path expectedStatus (rr_StatusCode resp) respBody traceParent of
                       (r, l4) \<Rightarrow>
                         \<lparr>ro_response = Some resp, ro_body = Some respBody, ro_error = r, ro_log = l1 @ l2 @ l3 @ l4\<rparr>))))"

section \<open>Lists of resources\<close>

record response_config =
  rc_ResourceType :: string
  rc_ResourceID :: string
  rc_ResourceIDType :: string
  rc_AllowForbidden :: bool
  rc_AllowNotFound :: bool

text \<open>\<open>json\<close> decodes a list; the two flags choose between branches that are the same.\<close>

definition resource_error :: "response_config \<Rightarrow> nat \<Rightarrow> sentinel \<Rightarrow> gerror" where
  "resource_error config status s =
     Wrapf (rc_ResourceIDType config @ '' '' @ [CHR 0x27] @ rc_ResourceID config @ [CHR 0x27] @ '' (status: '' @ show_nat status @ ''): '') (Sentinel s) ''''"

definition HandleResourceListResponse ::
    "(string \<Rightarrow> 't list result) \<Rightarrow> raw_response \<Rightarrow> string \<Rightarrow> response_config \<Rightarrow> 't list result" where
  "HandleResourceListResponse json resp respBody config =
     (let status = rr_StatusCode resp in
      if status = 200 then
        (case json respBody of
           Err e \<Rightarrow> Err (Wrapf (''unmarshaling '' @ rc_ResourceType config @ '' response: '') e '''')
         | r \<Rightarrow> r)
      else if status = 404 then
        (if rc_AllowNotFound config then Err (resource_error config status ClientErrResourceNotFound)
         else Err (resource_error config status ClientErrResourceNotFound))
      else if status = 403 then
        (if rc_AllowForbidden config then Err (resource_error config status ClientErrAccessDenied)
         else Err (resource_error config status ClientErrAccessDenied))
      else if status = 500 then
        Err (Wrapf (''reading '' @ rc_ResourceType config @ '' for '' @ rc_ResourceIDType config @ '' '' @ [CHR 0x27] @ rc_ResourceID config @
               [CHR 0x27] @ '' (status: '' @ show_nat status @ ''): '' @ respBody @ '': '') (Sentinel ClientErrServerError) '''')
      else Err (Wrapf (''status code '' @ show_nat status @ '': '') (Sentinel ClientErrUnexpectedStatus) ''''))"

text \<open>A request without an error has a response and a body.\<close>

definition ListResource ::
    "(string \<Rightarrow> string \<Rightarrow> unit result) \<Rightarrow> transport \<Rightarrow> (string \<Rightarrow> 't list result) \<Rightarrow> string \<Rightarrow> string \<Rightarrow> api_client \<Rightarrow> string \<Rightarrow>
     response_config \<Rightarrow> 't list result" where
  "ListResource new_request send json r1 r2 c path config =
     (let ro = DoRequest new_request send r1 r2 c ''GET'' path None 0 in
      case ro_error ro of
        Err e \<Rightarrow> Err (Wrapf (''listing '' @ rc_ResourceType config @ '': '') e '''')
      | Panic \<Rightarrow> Panic
      | Ok _ \<Rightarrow> HandleResourceListResponse json (the (ro_response ro)) (the (ro_body ro)) config)"

section \<open>Configuration\<close>

text \<open>What the code asks of the configuration library; keys are given by the caller.\<close>

record 'v viper =
  vp_New :: 'v
  vp_SetConfigName :: "string \<Rightarrow> 'v \<Rightarrow> 'v"
  vp_SetConfigType :: "string \<Rightarrow> 'v \<Rightarrow> 'v"
  vp_AddConfigPath :: "string \<Rightarrow> 'v \<Rightarrow> 'v"
  vp_SetDefault :: "string \<Rightarrow> string \<Rightarrow> 'v \<Rightarrow> 'v"
  vp_ReadInConfig :: "'v \<Rightarrow> unit result \<times> 'v"
  vp_IsNotFound :: "gerror \<Rightarrow> bool"
  vp_AutomaticEnv :: "'v \<Rightarrow> 'v"
  vp_GetDuration :: "'v \<Rightarrow> string \<Rightarrow> duration"
  vp_GetInt :: "'v \<Rightarrow> string \<Rightarrow> int"

text \<open>The arithmetic of durations is that of 64-bit integers.\<close>

definition int64 :: "int \<Rightarrow> int" where "int64 i = sint (word_of_int i :: 64 word)"

definition millisecond :: duration where "millisecond = 1000000"

definition GetDurationFromViper :: "'v viper \<Rightarrow> 'v \<Rightarrow> string \<Rightarrow> duration \<Rightarrow> duration" where
  "GetDurationFromViper vp v key defaultValue =
     (let duration = vp_GetDuration vp v key; seconds = vp_GetInt vp v key in
      if duration < millisecond \<and> seconds > 0 then int64 (seconds * second)
      else if duration > 0 then duration
      else defaultValue)"

text \<open>\<open>walk\<close> is the order in which the required fields are visited.\<close>

definition missing_fields :: "(string \<times> string) list \<Rightarrow> string list" where
  "missing_fields required = map fst (filter (\<lambda>kv. snd kv = '''') required)"

definition ConfigError :: "string \<Rightarrow> gerror" where
  "ConfigError missing =
     OtherError (''missing required configuration: '' @ missing @
       ''. Please set these environment variables or add them to a .env file, or the gh secrets'')"

definition ValidateRequiredFields :: "(smap \<Rightarrow> (string \<times> string) list) \<Rightarrow> smap \<Rightarrow> unit result" where
  "ValidateRequiredFields walk required =
     (let missing = missing_fields (walk required) in
      if length missing > 0 then Err (ConfigError (str_join '', '' missing)) else Ok ())"

definition SetupViper ::
    "'v viper \<Rightarrow> (smap \<Rightarrow> (string \<times> string) list) \<Rightarrow> string \<Rightarrow> string list \<Rightarrow> smap \<Rightarrow> 'v result" where
  "SetupViper vp walk configName configPaths defaults =
     (let v = vp_SetConfigType vp ''env'' (vp_SetConfigName vp configName (vp_New vp));
          v = fold (vp_AddConfigPath vp) configPaths v;
          v = fold (\<lambda>(key, value). vp_SetDefault vp key value) (walk defaults) v
      in case vp_ReadInConfig vp v of
           (Err e, v) \<Rightarrow>
             if \<not> vp_IsNotFound vp e then Err (Wrapf ''error reading config file: '' e '''') else Ok (vp_AutomaticEnv vp v)
         | (Panic, v) \<Rightarrow> Panic
         | (Ok _, v) \<Rightarrow> Ok (vp_AutomaticEnv vp v))"

section \<open>Requests can be found again\<close>

lemma hex_digit_not_dash: "n < 16 \<Longrightarrow> hex_digit n \<noteq> CHR ''-''"
proof -
  have "\<forall>k \<in> set [0 ..< 16]. hex_digit k \<noteq> CHR ''-''"
    by (simp add: upt_rec hex_digit_def char_of_def bit_0)
  then show "n < 16 \<Longrightarrow> hex_digit n \<noteq> CHR ''-''" by simp
qed

lemma hex_bytes_no_dash: "CHR ''-'' \<notin> set (hex_bytes s)"
  using hex_bytes_digits [of "CHR ''-''" s] hex_digit_not_dash by metis

lemma split_trace_parent:
  "str_split (CHR ''-'') (CreateTraceParent r1 r2) = [''00'', hex_bytes r1, hex_bytes r2, ''01'']"
proof -
  have "str_split (CHR ''-'') (''00'' @ CHR ''-'' # hex_bytes r1 @ CHR ''-'' # hex_bytes r2 @ CHR ''-'' # ''01'') =
      [''00'', hex_bytes r1, hex_bytes r2, ''01'']"
    by (subst str_split_append_sep, simp)+ (simp_all add: str_split_append_sep hex_bytes_no_dash)
  then show ?thesis by (simp add: CreateTraceParent_def generateTraceID_def generateSpanID_def)
qed

text \<open>The ids that were put into a trace parent are the ones that are taken out of it.\<close>

theorem trace_parent_roundtrip:
  "ExtractTraceID (CreateTraceParent r1 r2) = generateTraceID r1 \<and>
   ExtractSpanID (CreateTraceParent r1 r2) = generateSpanID r2"
  by (simp add: ExtractTraceID_def ExtractSpanID_def split_trace_parent generateTraceID_def generateSpanID_def)

section \<open>What a request does\<close>

lemma request_header_names:
  "CanonicalHeaderKey ''Traceparent'' = ''Traceparent''" "CanonicalHeaderKey ''Tracestate'' = ''Tracestate''"
  "CanonicalHeaderKey ''Content-Type'' = ''Content-Type''" "CanonicalHeaderKey ''Authorization'' = ''Authorization''"
  by code_simp+

lemma header_Get_empty [simp]: "header_Get fmempty k = ''''"
  by (simp add: header_Get_def header_values_def)

lemma built_request:
  assumes "buildHTTPRequest nr r1 r2 c meth url body = Ok (req, tp)"
  shows "tp = CreateTraceParent r1 r2" and "header_Get (rq_header req) ''Traceparent'' = tp"
    and "header_Get (rq_header req) ''Authorization'' = (if cl_authToken c = '''' then '''' else ''Bearer '' @ cl_authToken c)"
    and "header_Get (rq_header req) ''Content-Type'' = (if body = None then '''' else ''application/json'')"
    and "rq_method req = meth" and "rq_url req = url" and "rq_body req = body"
  using assms
  by (auto simp: buildHTTPRequest_def Let_def hdr_simps request_header_names split: outcome.splits)

text \<open>
  A request succeeds exactly when it could be built, the transport answers, the body can be read, and
  the status is the expected one, if one is expected; then the response and its body are returned.
\<close>

theorem DoRequest_Ok_iff:
  "ro_error (DoRequest nr send r1 r2 c meth path body expected) = Ok () \<longleftrightarrow>
   (\<exists>req tp resp took bytes.
      buildHTTPRequest nr r1 r2 c meth (cl_baseURL c @ path) body = Ok (req, tp) \<and> send req = (Ok resp, took) \<and>
      rr_Body resp = Ok bytes \<and> (0 < expected \<longrightarrow> int (rr_StatusCode resp) = expected) \<and>
      ro_response (DoRequest nr send r1 r2 c meth path body expected) = Some resp \<and>
      ro_body (DoRequest nr send r1 r2 c meth path body expected) = Some bytes)"
  by (auto simp: DoRequest_def executeHTTPRequest_def readResponseBody_def validateStatusCode_def Let_def
      split: outcome.splits prod.splits if_splits)

text \<open>
  Every failure of a request that was sent can be found in the logs of the services: the lines of the
  client name the trace and span ids that the request carried.
\<close>

theorem DoRequest_failure_traceable:
  assumes "buildHTTPRequest nr r1 r2 c meth (cl_baseURL c @ path) body = Ok (req, tp)" and "cl_logger c"
    and "ro_error (DoRequest nr send r1 r2 c meth path body expected) = Err e"
  shows "header_Get (rq_header req) ''Traceparent'' = CreateTraceParent r1 r2"
    and "''TRACE CONTEXT: Use traceID='' @ generateTraceID r1 @ '' spanID='' @ generateSpanID r2 @
           '' to search logs for this request'' @ [CHR 0x0A]
         \<in> set (ro_log (DoRequest nr send r1 r2 c meth path body expected))"
proof -
  note built = built_request [OF assms(1)]
  show "header_Get (rq_header req) ''Traceparent'' = CreateTraceParent r1 r2" by (simp add: built)
  let ?line = "''TRACE CONTEXT: Use '' @ FormatTraceContext tp @ '' to search logs for this request'' @ [CHR 0x0A]"
  have "?line \<in> set (ro_log (DoRequest nr send r1 r2 c meth path body expected))"
    using assms
    by (auto simp: DoRequest_def executeHTTPRequest_def readResponseBody_def validateStatusCode_def Let_def
        logError_def logErrorWithStatus_def logUnexpectedStatus_def logTraceContext_def
        split: outcome.splits prod.splits if_splits)
  then show "''TRACE CONTEXT: Use traceID='' @ generateTraceID r1 @ '' spanID='' @ generateSpanID r2 @
           '' to search logs for this request'' @ [CHR 0x0A]
         \<in> set (ro_log (DoRequest nr send r1 r2 c meth path body expected))"
    using trace_parent_roundtrip [of r1 r2] by (simp add: built(1) FormatTraceContext_def)
qed

lemma token_unlogged [simp]:
  "logTraceContext (SetAuthToken t c) = logTraceContext c"
  "logError (SetAuthToken t c) = logError c"
  "logErrorWithStatus (SetAuthToken t c) = logErrorWithStatus c"
  "logUnexpectedStatus (SetAuthToken t c) = logUnexpectedStatus c"
  "logRequestResponse (SetAuthToken t c) = logRequestResponse c"
  "cl_baseURL (SetAuthToken t c) = cl_baseURL c"
  by (intro ext, simp add: SetAuthToken_def logTraceContext_def logError_def logErrorWithStatus_def
      logUnexpectedStatus_def logRequestResponse_def)+ (simp add: SetAuthToken_def)

lemma token_unseen [simp]:
  "executeHTTPRequest send (SetAuthToken t c) = executeHTTPRequest send c"
  "readResponseBody (SetAuthToken t c) = readResponseBody c"
  "validateStatusCode (SetAuthToken t c) = validateStatusCode c"
  unfolding executeHTTPRequest_def readResponseBody_def validateStatusCode_def token_unlogged by (rule refl)+

text \<open>
  The token reaches the service only: whatever the client returns and logs is the same for any two
  tokens, as long as the answers are.
\<close>

theorem DoRequest_token_private:
  assumes "\<And>a b. rq_method a = rq_method b \<Longrightarrow> rq_url a = rq_url b \<Longrightarrow> rq_body a = rq_body b \<Longrightarrow> send a = send b"
  shows "DoRequest nr send r1 r2 (SetAuthToken token c) meth path body expected =
         DoRequest nr send r1 r2 (SetAuthToken token' c) meth path body expected"
proof (cases "nr meth (cl_baseURL c @ path)")
  case (Ok u)
  let ?b = "\<lambda>t. buildHTTPRequest nr r1 r2 (SetAuthToken t c) meth (cl_baseURL c @ path) body"
  obtain q q' tp tp' where b: "?b token = Ok (q, tp)" "?b token' = Ok (q', tp')"
    using Ok by (simp add: buildHTTPRequest_def Let_def)
  have tp: "tp' = tp" using built_request(1) [OF b(1)] built_request(1) [OF b(2)] by simp
  have "send q = send q'"
    by (rule assms) (simp_all add: built_request(5-7) [OF b(1)] built_request(5-7) [OF b(2)])
  then have "executeHTTPRequest send c q = executeHTTPRequest send c q'" by (intro ext) (simp add: executeHTTPRequest_def)
  then show ?thesis unfolding DoRequest_def token_unlogged token_unseen using b tp by simp
qed (simp_all add: DoRequest_def buildHTTPRequest_def)

section \<open>What a list gives\<close>

text \<open>A list is returned only for a 200 whose body decodes, and every other status is told apart.\<close>

theorem HandleResourceListResponse_spec:
  "(HandleResourceListResponse json resp b config = Ok xs \<longleftrightarrow> rr_StatusCode resp = 200 \<and> json b = Ok xs) \<and>
   (rr_StatusCode resp = 404 \<longrightarrow> (\<exists>e. HandleResourceListResponse json resp b config = Err e \<and> errors_Is e ClientErrResourceNotFound)) \<and>
   (rr_StatusCode resp = 403 \<longrightarrow> (\<exists>e. HandleResourceListResponse json resp b config = Err e \<and> errors_Is e ClientErrAccessDenied)) \<and>
   (rr_StatusCode resp = 500 \<longrightarrow> (\<exists>e. HandleResourceListResponse json resp b config = Err e \<and> errors_Is e ClientErrServerError)) \<and>
   (rr_StatusCode resp \<notin> {200, 403, 404, 500} \<longrightarrow>
      (\<exists>e. HandleResourceListResponse json resp b config = Err e \<and> errors_Is e ClientErrUnexpectedStatus))"
  by (auto simp: HandleResourceListResponse_def resource_error_def Let_def split: outcome.splits)

text \<open>The flags that allow a missing or forbidden resource make no difference.\<close>

lemma allow_flags_ignored:
  "HandleResourceListResponse json resp b (config\<lparr>rc_AllowNotFound := x, rc_AllowForbidden := y\<rparr>) =
   HandleResourceListResponse json resp b config"
  by (simp add: HandleResourceListResponse_def resource_error_def Let_def split: outcome.splits)

section \<open>Configuration values\<close>

lemma int64_id: "- (2 ^ 63) \<le> i \<Longrightarrow> i < 2 ^ 63 \<Longrightarrow> int64 i = i"
  by (simp add: int64_def sint_sbintrunc' signed_take_bit_int_eq_self)

text \<open>
  An integer in the configuration is a number of seconds, below a million; from there on it is taken
  as nanoseconds.  A value of zero or less gives the default.
\<close>

theorem GetDurationFromViper_integer:
  assumes "vp_GetDuration vp v key = n" and "vp_GetInt vp v key = n"
  shows "GetDurationFromViper vp v key d =
    (if n \<le> 0 then d else if n < 1000000 then n * second else n)"
proof (cases "0 < n \<and> n < 1000000")
  case True
  then have "int64 (n * second) = n * second" by (intro int64_id) (simp_all add: second_def)
  with True assms show ?thesis by (simp add: GetDurationFromViper_def millisecond_def)
qed (use assms in \<open>auto simp: GetDurationFromViper_def millisecond_def\<close>)

theorem ValidateRequiredFields_Ok_iff:
  assumes "walk_of required (walk required)"
  shows "ValidateRequiredFields walk required = Ok () \<longleftrightarrow> (\<forall>k. fmlookup required k \<noteq> Some '''')"
proof -
  have "ValidateRequiredFields walk required = Ok () \<longleftrightarrow> (\<forall>k v. (k, v) \<in> set (walk required) \<longrightarrow> v \<noteq> '''')"
    by (auto simp: ValidateRequiredFields_def missing_fields_def Let_def filter_empty_conv)
  then show ?thesis by (auto simp: walk_of_mem [OF assms])
qed

text \<open>A configuration file that is not there is no error; one that cannot be read is.\<close>

lemma SetupViper_missing_file:
  "(\<And>v. fst (vp_ReadInConfig vp v) = Err e) \<Longrightarrow>
   (\<exists>v. SetupViper vp walk name paths defaults = Ok v) \<longleftrightarrow> vp_IsNotFound vp e"
  by (auto simp: SetupViper_def Let_def split: prod.splits outcome.splits) (metis fst_conv outcome.inject outcome.distinct)+

section \<open>Contract tests (pkg/testing/contract)\<close>

record pact_config =
  pc_Consumer :: string
  pc_Provider :: string
  pc_PactDir :: string

text \<open>
  Both constructors quieten the library and make its mock provider of the configuration; they differ in
  the provider.  The library's level is the state, its constructor an argument.
\<close>

definition wrap_outcome :: "string \<Rightarrow> 'a result \<Rightarrow> 'a result" where
  "wrap_outcome pre r = (case r of Err e \<Rightarrow> Err (Wrapf pre e '''') | Ok x \<Rightarrow> Ok x | Panic \<Rightarrow> Panic)"

definition NewPact ::
    "(string \<Rightarrow> 'w \<Rightarrow> unit result \<times> 'w) \<Rightarrow> (pact_config \<Rightarrow> 'w \<Rightarrow> 'v2 result \<times> 'w) \<Rightarrow> pact_config \<Rightarrow> 'w \<Rightarrow> 'v2 result \<times> 'w" where
  "NewPact setLogLevel newV2Pact config w =
     (case setLogLevel ''ERROR'' w of
        (Ok _, w1) \<Rightarrow> (case newV2Pact config w1 of (r, w2) \<Rightarrow> (wrap_outcome ''creating pact provider: '' r, w2))
      | (Err e, w1) \<Rightarrow> (Err (Wrapf ''setting pact log level: '' e ''''), w1)
      | (Panic, w1) \<Rightarrow> (Panic, w1))"

definition NewV4Pact ::
    "(string \<Rightarrow> 'w \<Rightarrow> unit result \<times> 'w) \<Rightarrow> (pact_config \<Rightarrow> 'w \<Rightarrow> 'v4 result \<times> 'w) \<Rightarrow> pact_config \<Rightarrow> 'w \<Rightarrow> 'v4 result \<times> 'w" where
  "NewV4Pact setLogLevel newV4Pact config w =
     (case setLogLevel ''ERROR'' w of
        (Ok _, w1) \<Rightarrow> (case newV4Pact config w1 of (r, w2) \<Rightarrow> (wrap_outcome ''creating pact provider: '' r, w2))
      | (Err e, w1) \<Rightarrow> (Err (Wrapf ''setting pact log level: '' e ''''), w1)
      | (Panic, w1) \<Rightarrow> (Panic, w1))"

text \<open>A failure keeps its cause, and no provider is made before the library is quiet.\<close>

lemma NewPact_failure:
  assumes "NewPact setLogLevel newV2Pact config w = (Err e, w')"
  shows "\<exists>cause. (\<forall>t. errors_Is e t \<longleftrightarrow> errors_Is cause t) \<and>
    (setLogLevel ''ERROR'' w = (Err cause, w') \<or>
     (\<exists>w1. setLogLevel ''ERROR'' w = (Ok (), w1) \<and> newV2Pact config w1 = (Err cause, w')))"
proof (cases "setLogLevel ''ERROR'' w")
  case (Pair r w1)
  with assms show ?thesis
    by (cases r; cases "newV2Pact config w1"; cases "fst (newV2Pact config w1)")
      (auto simp: NewPact_def wrap_outcome_def)
qed

section \<open>Names and defaults of tests\<close>

text \<open>\<open>rand.String\<close> gives the eight characters; a configuration starts with these defaults.\<close>

definition GenerateRandomName :: "(nat \<Rightarrow> string) \<Rightarrow> string \<Rightarrow> string" where
  "GenerateRandomName rand_String pre = pre @ ''-'' @ rand_String 8"

definition GenerateTestID :: "(nat \<Rightarrow> string) \<Rightarrow> string" where
  "GenerateTestID rand_String = GenerateRandomName rand_String ''test''"

record base_config =
  bc_BaseURL :: string
  bc_AuthToken :: string
  bc_RequestTimeout :: duration
  bc_TestTimeout :: duration
  bc_SkipIntegration :: bool
  bc_DebugLogging :: bool
  bc_LogRequests :: bool
  bc_LogResponses :: bool

definition NewBaseConfig :: base_config where
  "NewBaseConfig =
     \<lparr>bc_BaseURL = '''', bc_AuthToken = '''', bc_RequestTimeout = 30 * second, bc_TestTimeout = 1200 * second,
      bc_SkipIntegration = False, bc_DebugLogging = False, bc_LogRequests = False, bc_LogResponses = False\<rparr>"

lemma GenerateTestID_inj:
  "GenerateTestID r = GenerateTestID r' \<longleftrightarrow> r 8 = r' 8"
  by (simp add: GenerateTestID_def GenerateRandomName_def)

end
