(* ===== verification/Saga.thy ===== *)
theory Saga
  imports Proc
begin

text \<open>
  Sagas (\<open>pkg/server/saga\<close>): actions run in order; when one fails, the compensations of the actions
  before it run backwards, and the error of the failing action is returned whatever becomes of them.
\<close>

section \<open>The algorithm\<close>

record 'w action =
  act_name :: string
  act_action :: "('w, unit) proc"
  act_compensate :: "('w, unit) proc option"

definition NewAction :: "string \<Rightarrow> ('w, unit) proc \<Rightarrow> ('w, unit) proc option \<Rightarrow> 'w action" where
  "NewAction name action compensate =
     \<lparr>act_name = name, act_action = action, act_compensate = compensate\<rparr>"

text \<open>The inner loop: \<open>saga_undo err actions (j + 1)\<close> handles index \<open>j\<close>, then the smaller ones.\<close>

fun saga_undo :: "gerror \<Rightarrow> 'w action list \<Rightarrow> nat \<Rightarrow> ('w, unit) proc" where
  "saga_undo err actions 0 = throw err"
| "saga_undo err actions (Suc j) =
     (case act_compensate (actions ! j) of
        None \<Rightarrow> saga_undo err actions j
      | Some compensate \<Rightarrow>
          bindR compensate (\<lambda>r.
            case r of
              Ok _ \<Rightarrow> saga_undo err actions j
            | Err cerr \<Rightarrow> throw err
            | Panic \<Rightarrow> Ret Panic))"

function saga_from :: "'w action list \<Rightarrow> nat \<Rightarrow> ('w, unit) proc" where
  "saga_from actions i =
     (if i < length actions
      then bindR (act_action (actions ! i)) (\<lambda>r.
             case r of
               Ok _ \<Rightarrow> saga_from actions (Suc i)
             | Err err \<Rightarrow> saga_undo err actions i
             | Panic \<Rightarrow> Ret Panic)
      else return ())"
  by pat_completeness auto
termination
  by (relation "measure (\<lambda>(actions, i). length actions - i)") auto

declare saga_from.simps [simp del]

definition saga_Run :: "'w action list \<Rightarrow> ('w, unit) proc" where
  "saga_Run actions = saga_from actions 0"

section \<open>All or nothing\<close>

text \<open>
  What an action and its compensation promise each other about what \<open>v\<close> sees of the world: a failed
  action has changed nothing, a missing compensation is only allowed if the action changes nothing,
  and the compensation takes back what the action did, whatever else has happened since as long as
  \<open>v\<close> looks as the action left it.
\<close>

definition undoes :: "('w \<Rightarrow> 'v) \<Rightarrow> 'w action \<Rightarrow> bool" where
  "undoes v a \<longleftrightarrow>
     (\<forall>w e w'. run (act_action a) w = (Err e, w') \<longrightarrow> v w' = v w) \<and>
     (\<forall>w w1. run (act_action a) w = (Ok (), w1) \<longrightarrow>
        (case act_compensate a of
           None \<Rightarrow> v w1 = v w
         | Some c \<Rightarrow> \<forall>w2. v w2 = v w1 \<longrightarrow> (\<exists>w3. run c w2 = (Ok (), w3) \<and> v w3 = v w)))"

lemma undo_restores:
  "(\<And>a. a \<in> set actions \<Longrightarrow> undoes v a) \<Longrightarrow> j \<le> length actions \<Longrightarrow> length ws = Suc j \<Longrightarrow>
   (\<And>k. k < j \<Longrightarrow> run (act_action (actions ! k)) (ws ! k) = (Ok (), ws ! Suc k)) \<Longrightarrow>
   v w = v (ws ! j) \<Longrightarrow>
   \<exists>w'. run (saga_undo err actions j) w = (Err err, w') \<and> v w' = v (ws ! 0)"
proof (induction j arbitrary: w ws)
  case 0
  then show ?case by auto
next
  case (Suc j)
  let ?a = "actions ! j"
  have u: "undoes v ?a" using Suc.prems(2) by (intro Suc.prems(1)) simp
  have ok: "run (act_action ?a) (ws ! j) = (Ok (), ws ! Suc j)" using Suc.prems(4) [of j] by simp
  have step: "\<exists>w'. run (saga_undo err actions j) w2 = (Err err, w') \<and> v w' = v (ws ! 0)"
    if "v w2 = v (ws ! j)" for w2
  proof -
    have "\<exists>w'. run (saga_undo err actions j) w2 = (Err err, w') \<and> v w' = v (take (Suc j) ws ! 0)"
    proof (rule Suc.IH)
      show "length (take (Suc j) ws) = Suc j" using Suc.prems(3) by simp
      show "v w2 = v (take (Suc j) ws ! j)" using that by simp
      show "run (act_action (actions ! k)) (take (Suc j) ws ! k) = (Ok (), take (Suc j) ws ! Suc k)" if "k < j" for k
        using Suc.prems(4) [of k] that by simp
    qed (use Suc.prems(1,2) in auto)
    then show ?thesis by simp
  qed
  show ?case
  proof (cases "act_compensate ?a")
    case None
    with u ok have "v (ws ! Suc j) = v (ws ! j)" by (force simp: undoes_def)
    with None Suc.prems(5) step [of w] show ?thesis by simp
  next
    case (Some c)
    with u ok have "\<forall>w2. v w2 = v (ws ! Suc j) \<longrightarrow> (\<exists>w3. run c w2 = (Ok (), w3) \<and> v w3 = v (ws ! j))"
      by (force simp: undoes_def)
    then obtain w3 where "run c w = (Ok (), w3)" "v w3 = v (ws ! j)"
      using Suc.prems(5) by blast
    with Some step [of w3] show ?thesis by (simp add: run_bindR)
  qed
qed

lemma from_restores:
  "(\<And>a. a \<in> set actions \<Longrightarrow> undoes v a) \<Longrightarrow> run (saga_from actions i) w = (Err err, w') \<Longrightarrow> i \<le> length actions \<Longrightarrow> length ws = Suc i \<Longrightarrow>
   (\<And>k. k < i \<Longrightarrow> run (act_action (actions ! k)) (ws ! k) = (Ok (), ws ! Suc k)) \<Longrightarrow> ws ! i = w \<Longrightarrow>
   v w' = v (ws ! 0)"
proof (induction "length actions - i" arbitrary: i w ws)
  case 0
  then show ?case by (simp add: saga_from.simps [of actions i])
next
  case (Suc n)
  then have i: "i < length actions" by simp
  obtain r w1 where r: "run (act_action (actions ! i)) w = (r, w1)"
    by (cases "run (act_action (actions ! i)) w")
  show ?case
  proof (cases r)
    case (Ok u)
    with Suc.prems(2) i r have next': "run (saga_from actions (Suc i)) w1 = (Err err, w')"
      by (simp add: saga_from.simps [of actions i] run_bindR)
    have "v w' = v ((ws @ [w1]) ! 0)"
    proof (rule Suc.hyps(1) [OF _ Suc.prems(1) next'])
      show "n = length actions - Suc i" using Suc.hyps(2) by simp
      show "Suc i \<le> length actions" using i by simp
      show "length (ws @ [w1]) = Suc (Suc i)" using Suc.prems(4) by simp
      show "(ws @ [w1]) ! Suc i = w1" using Suc.prems(4) by (simp add: nth_append)
      show "run (act_action (actions ! k)) ((ws @ [w1]) ! k) = (Ok (), (ws @ [w1]) ! Suc k)" if "k < Suc i" for k
        using that Suc.prems(4,6) Suc.prems(5) [of k] r Ok by (cases "k = i") (auto simp: nth_append)
    qed
    with Suc.prems(4) show ?thesis by (simp add: nth_append)
  next
    case (Err e)
    with Suc.prems(2) i r have un: "run (saga_undo e actions i) w1 = (Err err, w')"
      by (simp add: saga_from.simps [of actions i] run_bindR)
    have "v w1 = v (ws ! i)"
      using Suc.prems(1) [of "actions ! i"] i r Err Suc.prems(6) by (force simp: undoes_def)
    from undo_restores [OF Suc.prems(1,3,4,5) this, of e] un show ?thesis by auto
  next
    case Panic
    with Suc.prems(2) i r show ?thesis by (simp add: saga_from.simps [of actions i] run_bindR)
  qed
qed

section \<open>Which actions run\<close>

text \<open>Running actions one after the other as long as they succeed.\<close>

fun run_all :: "'w action list \<Rightarrow> 'w \<Rightarrow> unit result \<times> 'w" where
  "run_all [] w = (Ok (), w)"
| "run_all (a # as) w =
     (case run (act_action a) w of (Ok _, w1) \<Rightarrow> run_all as w1 | (Err e, w1) \<Rightarrow> (Err e, w1) | (Panic, w1) \<Rightarrow> (Panic, w1))"

text \<open>Running the compensations of a list, in the order given, until one fails.\<close>

fun run_undo :: "'w action list \<Rightarrow> 'w \<Rightarrow> unit result \<times> 'w" where
  "run_undo [] w = (Ok (), w)"
| "run_undo (a # as) w =
     (case act_compensate a of
        None \<Rightarrow> run_undo as w
      | Some c \<Rightarrow>
          (case run c w of (Ok _, w1) \<Rightarrow> run_undo as w1 | (Err e, w1) \<Rightarrow> (Err e, w1) | (Panic, w1) \<Rightarrow> (Panic, w1)))"

lemma run_saga_undo:
  "j \<le> length actions \<Longrightarrow>
   run (saga_undo err actions j) w =
     (case run_undo (rev (take j actions)) w of (Panic, w') \<Rightarrow> (Panic, w') | (_, w') \<Rightarrow> (Err err, w'))"
proof (induction j arbitrary: w)
  case 0
  then show ?case by simp
next
  case (Suc j)
  then have t: "rev (take (Suc j) actions) = actions ! j # rev (take j actions)"
    by (simp add: take_Suc_conv_app_nth)
  show ?case
  proof (cases "act_compensate (actions ! j)")
    case None
    with Suc t show ?thesis by simp
  next
    case (Some c)
    obtain r w1 where "run c w = (r, w1)" by (cases "run c w")
    with Some Suc t show ?thesis by (cases r) (auto simp: run_bindR)
  qed
qed

lemma run_saga_skip:
  "run_all (take i actions) w = (Ok (), wi) \<Longrightarrow> i \<le> length actions \<Longrightarrow>
   run (saga_from actions 0) w = run (saga_from actions i) wi"
proof (induction i arbitrary: wi)
  case 0
  then show ?case by simp
next
  case (Suc i)
  have app: "run_all (xs @ ys) w = (case run_all xs w of (Ok _, w1) \<Rightarrow> run_all ys w1 | (Err e, w1) \<Rightarrow> (Err e, w1) | (Panic, w1) \<Rightarrow> (Panic, w1))"
    for xs ys :: "'a action list" and w
    by (induction xs arbitrary: w) (auto split: prod.splits outcome.splits)
  from Suc.prems have "run_all (take i actions @ [actions ! i]) w = (Ok (), wi)"
    by (simp add: take_Suc_conv_app_nth)
  then obtain w1 where w1: "run_all (take i actions) w = (Ok (), w1)"
    and a: "run (act_action (actions ! i)) w1 = (Ok (), wi)"
    by (auto simp: app split: prod.splits outcome.splits)
  from Suc.IH [OF w1] Suc.prems(2) have "run (saga_from actions 0) w = run (saga_from actions i) w1" by simp
  also have "\<dots> = run (saga_from actions (Suc i)) wi"
    using a Suc.prems(2) by (simp add: saga_from.simps [of actions i] run_bindR)
  finally show ?case .
qed

text \<open>
  C25: a saga whose actions all succeed runs each once, in order; if one fails, no later action runs,
  the compensations of exactly the actions before it run, last one first and stopping at the first
  that fails, and the error returned is always the one of the failed action.
\<close>

theorem saga_Run_spec:
  "(run_all actions w = (Ok (), w') \<longrightarrow> run (saga_Run actions) w = (Ok (), w')) \<and>
   (\<forall>xs a ys w1 e w2. actions = xs @ a # ys \<and> run_all xs w = (Ok (), w1) \<and> run (act_action a) w1 = (Err e, w2) \<longrightarrow>
      run (saga_Run actions) w =
        (case run_undo (rev xs) w2 of (Panic, w3) \<Rightarrow> (Panic, w3) | (_, w3) \<Rightarrow> (Err e, w3)))"
proof (intro conjI impI allI)
  assume "run_all actions w = (Ok (), w')"
  then have "run (saga_from actions 0) w = run (saga_from actions (length actions)) w'"
    by (intro run_saga_skip) auto
  then show "run (saga_Run actions) w = (Ok (), w')"
    by (simp add: saga_Run_def saga_from.simps [of actions "length actions"])
next
  fix xs a ys w1 e w2
  assume a: "actions = xs @ a # ys \<and> run_all xs w = (Ok (), w1) \<and> run (act_action a) w1 = (Err e, w2)"
  then have "run (saga_from actions 0) w = run (saga_from actions (length xs)) w1"
    by (intro run_saga_skip) auto
  also have "\<dots> = run (saga_undo e actions (length xs)) w2"
    using a by (subst saga_from.simps) (simp add: run_bindR)
  also have "\<dots> = (case run_undo (rev xs) w2 of (Panic, w3) \<Rightarrow> (Panic, w3) | (_, w3) \<Rightarrow> (Err e, w3))"
    using a by (simp add: run_saga_undo)
  finally show "run (saga_Run actions) w =
      (case run_undo (rev xs) w2 of (Panic, w3) \<Rightarrow> (Panic, w3) | (_, w3) \<Rightarrow> (Err e, w3))"
    by (simp add: saga_Run_def)
qed

text \<open>
  C26: a saga is all or nothing: if every action leaves things alone when it fails and is taken back by
  its compensation (or changes nothing and has none), a saga that returns an error has left what the
  user of the saga looks at as it was before.
\<close>

theorem saga_all_or_nothing:
  assumes "\<And>a. a \<in> set actions \<Longrightarrow> undoes v a" and "run (saga_Run actions) w = (Err err, w')"
  shows "v w' = v w"
  using from_restores [of actions v 0 w err w' "[w]"] assms by (simp add: saga_Run_def)

section \<open>Instances\<close>

text \<open>Take one from a counter and give it back; and an action that fails.\<close>

definition take_one :: "nat action" where
  "take_one = NewAction ''take'' (call (\<lambda>n. (Ok (), n + 1))) (Some (call (\<lambda>n. (Ok (), n - 1))))"

definition give_up :: "nat action" where
  "give_up = NewAction ''fail'' (call (\<lambda>n. (Err (Sentinel ErrConsistency), n))) None"

theorem saga_Run_spec_witness: "run (saga_Run [take_one, take_one, give_up]) 5 = (Err (Sentinel ErrConsistency), 5)"
proof -
  have "[take_one, take_one, give_up] = [take_one, take_one] @ give_up # []" by simp
  moreover have "run_all [take_one, take_one] 5 = (Ok (), 7)"
    by (simp add: take_one_def NewAction_def)
  moreover have "run (act_action give_up) 7 = (Err (Sentinel ErrConsistency), 7)"
    by (simp add: give_up_def NewAction_def)
  ultimately have "run (saga_Run [take_one, take_one, give_up]) 5 =
      (case run_undo (rev [take_one, take_one]) 7 of (Panic, w3) \<Rightarrow> (Panic, w3) | (_, w3) \<Rightarrow> (Err (Sentinel ErrConsistency), w3))"
    using saga_Run_spec [of "[take_one, take_one, give_up]" 5] by blast
  then show ?thesis by (simp add: take_one_def NewAction_def)
qed

theorem saga_all_or_nothing_witness: "snd (run (saga_Run [take_one, give_up]) 3) = 3"
proof -
  have u: "undoes id a" if "a \<in> set [take_one, give_up]" for a
    using that by (auto simp: undoes_def take_one_def give_up_def NewAction_def)
  have "run (saga_Run [take_one, give_up]) 3 = (Err (Sentinel ErrConsistency), snd (run (saga_Run [take_one, give_up]) 3))"
    by (simp add: saga_Run_def saga_from.simps run_bindR take_one_def give_up_def NewAction_def)
  from saga_all_or_nothing [OF u this] show ?thesis by simp
qed

end
