(* ===== verification/Retry.thy ===== *)
theory Retry
  imports Proc
begin

text \<open>
  The retrier (\<open>pkg/util/retry\<close>).  The loop waits in a \<open>select\<close> on the context and on a ticker; what
  the \<open>select\<close> picks, time after time, is a list of events.  A retry that is still waiting when the
  events run out has not returned: \<open>None\<close>.
\<close>

section \<open>The loop\<close>

datatype event = Tick | Done

definition Forever_period :: duration where "Forever_period = second"

text \<open>\<open>cerr\<close> is what \<open>c.Err()\<close> answers once the context is done, \<open>rerr\<close> the last callback error.\<close>

fun retry_loop ::
    "gerror \<Rightarrow> ('w, unit) proc \<Rightarrow> gerror \<Rightarrow> event list \<Rightarrow> 'w \<Rightarrow> (unit result \<times> 'w) option" where
  "retry_loop cerr f rerr [] w = None"
| "retry_loop cerr f rerr (Done # evs) w = Some (Err (RetryError cerr rerr), w)"
| "retry_loop cerr f rerr (Tick # evs) w =
     (case run f w of
        (Ok _, w1) \<Rightarrow> Some (Ok (), w1)
      | (Err e, w1) \<Rightarrow> retry_loop cerr f e evs w1
      | (Panic, w1) \<Rightarrow> Some (Panic, w1))"

definition DoWithContext ::
    "gerror \<Rightarrow> ('w, unit) proc \<Rightarrow> event list \<Rightarrow> 'w \<Rightarrow> (unit result \<times> 'w) option" where
  "DoWithContext cerr f evs w =
     (case run f w of
        (Ok _, w1) \<Rightarrow> Some (Ok (), w1)
      | (Err e, w1) \<Rightarrow> retry_loop cerr f e evs w1
      | (Panic, w1) \<Rightarrow> Some (Panic, w1))"

text \<open>\<open>Do\<close> uses a context that is never done: every event is a tick.\<close>

definition Do :: "('w, unit) proc \<Rightarrow> nat \<Rightarrow> 'w \<Rightarrow> (unit result \<times> 'w) option" where
  "Do f ticks w = DoWithContext (Sentinel ContextCanceled) f (replicate ticks Tick) w"

section \<open>What it returns\<close>

text \<open>The outcomes of calling the callback \<open>n\<close> times, each after the one before has failed.\<close>

fun attempts :: "('w, unit) proc \<Rightarrow> nat \<Rightarrow> 'w \<Rightarrow> unit result \<times> 'w" where
  "attempts f 0 w = run f w"
| "attempts f (Suc n) w =
     (case run f w of (Err e, w1) \<Rightarrow> attempts f n w1 | x \<Rightarrow> x)"

lemma retry_loop_ticks:
  "retry_loop cerr f e (replicate n Tick @ Done # evs) w =
     Some (case n of
       0 \<Rightarrow> (Err (RetryError cerr e), w)
     | Suc m \<Rightarrow> (case attempts f m w of (Err e', w') \<Rightarrow> (Err (RetryError cerr e'), w') | x \<Rightarrow> x))"
proof (induction n arbitrary: e w)
  case 0
  then show ?case by simp
next
  case (Suc n)
  obtain r w1 where r: "run f w = (r, w1)" by (cases "run f w")
  show ?case
  proof (cases r)
    case (Err e1)
    with r Suc.IH [of e1 w1] show ?thesis by (cases n) auto
  next
    case (Ok u)
    with r show ?thesis by (cases n) auto
  next
    case Panic
    with r show ?thesis by (cases n) auto
  qed
qed

text \<open>
  C27: a retry under a context that is done after \<open>n\<close> ticks returns, and returns what the last of at
  most \<open>n + 1\<close> calls returned: nil as soon as a call succeeds, and otherwise an error that carries
  both the context's error and that of the last call, whose text is shown.
\<close>

theorem DoWithContext_returns:
  "DoWithContext cerr f (replicate n Tick @ Done # evs) w =
     Some (case attempts f n w of (Err e, w') \<Rightarrow> (Err (RetryError cerr e), w') | x \<Rightarrow> x) \<and>
   errors_Is (RetryError cerr e') s = (errors_Is cerr s \<or> errors_Is e' s) \<and>
   error_text (RetryError cerr e') = error_text e'"
proof -
  have "DoWithContext cerr f (replicate n Tick @ Done # evs) w =
     retry_loop cerr f cerr (replicate (Suc n) Tick @ Done # evs) w"
    by (simp add: DoWithContext_def)
  then show ?thesis by (simp only: retry_loop_ticks) simp
qed

text \<open>Without a context, the retry returns as soon as some call succeeds.\<close>

lemma Do_returns:
  assumes "attempts f n w = (Ok (), w')"
  shows "Do f n w = Some (Ok (), w')"
proof -
  have loop: "retry_loop cerr f e (Tick # replicate m Tick) w = Some (Ok (), w')"
    if "attempts f m w = (Ok (), w')" for m w e cerr
    using that
  proof (induction m arbitrary: w e)
    case 0
    then show ?case by simp
  next
    case (Suc m)
    obtain r w1 where r: "run f w = (r, w1)" by (cases "run f w")
    show ?case
    proof (cases r)
      case (Err e1)
      with r Suc.prems have "attempts f m w1 = (Ok (), w')" by simp
      from Suc.IH [OF this, of e1] have "retry_loop cerr f e1 (replicate (Suc m) Tick) w1 = Some (Ok (), w')"
        by (simp only: replicate_Suc)
      with r Err show ?thesis by (simp only: retry_loop.simps prod.case outcome.case)
    qed (use r Suc.prems in auto)
  qed
  have "Do f n w = retry_loop (Sentinel ContextCanceled) f (Sentinel ErrYield) (Tick # replicate n Tick) w"
    by (simp add: Do_def DoWithContext_def)
  with loop [OF assms] show ?thesis by simp
qed

end
