(* ===== verification/Trie_Dict.thy ===== *)
theory Trie_Dict
  imports Go_Errors Utf8
begin

text \<open>
  The dictionary trie (\<open>pkg/util/trie\<close>).  A \<open>range\<close> over a string decodes it as UTF-8 into runes
  (theory \<open>Utf8\<close>); the trie branches on runes.  The locale
  \<open>dictionary\<close> is the contract of a set of words, interpreted on the trie.
\<close>

section \<open>The trie\<close>

datatype trie = TrieNode (trie_word: bool) (trie_children: "(rune, trie) fmap")

definition trie_New :: trie where
  "trie_New = TrieNode False fmempty"

text \<open>The loops of \<open>AddWord\<close> and \<open>CheckWord\<close> go down the trie, one rune at a time.\<close>

fun add_runes :: "rune list \<Rightarrow> trie \<Rightarrow> trie" where
  "add_runes [] (TrieNode w ch) = TrieNode True ch"
| "add_runes (c # cs) (TrieNode w ch) =
     (let child = (case fmlookup ch c of None \<Rightarrow> TrieNode False fmempty | Some t \<Rightarrow> t)
      in TrieNode w (fmupd c (add_runes cs child) ch))"

fun check_runes :: "rune list \<Rightarrow> trie \<Rightarrow> bool" where
  "check_runes [] (TrieNode w ch) = w"
| "check_runes (c # cs) (TrieNode w ch) =
     (case fmlookup ch c of None \<Rightarrow> False | Some t \<Rightarrow> check_runes cs t)"

definition AddWord :: "string \<Rightarrow> trie \<Rightarrow> trie" where
  "AddWord word t = add_runes (runes word) t"

definition CheckWord :: "string \<Rightarrow> trie \<Rightarrow> bool" where
  "CheckWord word t = check_runes (runes word) t"

text \<open>
  \<open>AddDictionary\<close>: the words the scanner yields, and the error it ends with; the words read before an
  error stay.
\<close>

definition AddDictionary :: "string list \<times> gerror option \<Rightarrow> trie \<Rightarrow> unit result \<times> trie" where
  "AddDictionary scan t =
     (case snd scan of None \<Rightarrow> Ok () | Some e \<Rightarrow> Err e, foldl (\<lambda>t word. AddWord word t) t (fst scan))"

section \<open>The contract of a dictionary\<close>

locale dictionary =
  fixes empty_dict :: 'd and add :: "'k \<Rightarrow> 'd \<Rightarrow> 'd" and check :: "'k \<Rightarrow> 'd \<Rightarrow> bool"
  assumes check_empty: "\<not> check k empty_dict"
    and check_add: "check k (add k' d) \<longleftrightarrow> k = k' \<or> check k d"
begin

lemma check_adds: "check k (foldl (\<lambda>d x. add x d) d xs) \<longleftrightarrow> k \<in> set xs \<or> check k d"
  by (induction xs arbitrary: d) (auto simp: check_add)

lemma check_dictionary: "check k (foldl (\<lambda>d x. add x d) empty_dict xs) \<longleftrightarrow> k \<in> set xs"
  by (simp add: check_adds check_empty)

end

lemma check_new: "\<not> check_runes k (TrieNode False fmempty)"
  by (cases k) auto

lemma check_add_runes: "check_runes k (add_runes k' t) \<longleftrightarrow> k = k' \<or> check_runes k t"
proof (induction k' t arbitrary: k rule: add_runes.induct)
  case (1 w ch)
  then show ?case by (cases k) auto
next
  case (2 c cs w ch)
  show ?case
  proof (cases k)
    case Nil
    then show ?thesis by simp
  next
    case (Cons d ds)
    with 2 show ?thesis by (cases "fmlookup ch c") (auto simp: Let_def check_new)
  qed
qed

interpretation trie: dictionary trie_New add_runes check_runes
  by unfold_locales (simp_all add: trie_New_def check_new check_add_runes)

text \<open>
  The trie is the set of the words added: after loading a dictionary into a new trie, a word is
  found exactly when some word of the dictionary has the same runes, which for ASCII text means
  that it is in the dictionary; a scanner error does not lose the words read before it.
\<close>

theorem AddDictionary_CheckWord:
  "(CheckWord word (snd (AddDictionary (ws, err) trie_New)) \<longleftrightarrow> (\<exists>x \<in> set ws. runes word = runes x)) \<and>
   (ascii word \<and> (\<forall>x \<in> set ws. ascii x) \<longrightarrow>
      (CheckWord word (snd (AddDictionary (ws, err) trie_New)) \<longleftrightarrow> word \<in> set ws))"
proof -
  have "foldl (\<lambda>t word. AddWord word t) t ws = foldl (\<lambda>t x. add_runes x t) t (map runes ws)" for t
    by (induction ws arbitrary: t) (auto simp: AddWord_def)
  then have all: "CheckWord word (snd (AddDictionary (ws, err) trie_New)) \<longleftrightarrow> (\<exists>x \<in> set ws. runes word = runes x)"
    by (auto simp: AddDictionary_def CheckWord_def trie.check_dictionary)
  then show ?thesis by (auto simp: runes_ascii_inj)
qed

theorem AddDictionary_CheckWord_witness:
  "CheckWord ''ab'' (snd (AddDictionary ([''a'', ''ab''], None) trie_New)) \<and>
   \<not> CheckWord ''b'' (snd (AddDictionary ([''a'', ''ab''], None) trie_New))"
proof -
  have "(ascii w \<and> (\<forall>x \<in> set [''a'', ''ab'']. ascii x) \<longrightarrow>
      (CheckWord w (snd (AddDictionary ([''a'', ''ab''], None) trie_New)) \<longleftrightarrow> w \<in> set [''a'', ''ab'']))" for w
    using AddDictionary_CheckWord [of w "[''a'', ''ab'']" None] by (rule conjunct2)
  from this [of "''ab''"] this [of "''b''"] show ?thesis
    by (simp add: ascii_def)
qed

end
