(* ===== verification/Caches.thy ===== *)
theory Caches
  imports Go_Errors
begin

text \<open>
  The two small caches: a value with a timeout (\<open>pkg/util/cache/timeout\_cache.go\<close>) and the typed
  wrapper of an expiring LRU cache (\<open>pkg/util/cache/lruexpirecache.go\<close>), which copies values on the
  way in and out.
\<close>

section \<open>A value with a timeout\<close>

record 'v timeout_cache =
  tc_value :: 'v
  tc_refresh :: duration
  tc_invalid :: time

definition timeout_New :: "'v \<Rightarrow> duration \<Rightarrow> 'v timeout_cache" where
  "timeout_New zero refresh = \<lparr>tc_value = zero, tc_refresh = refresh, tc_invalid = zero_time\<rparr>"

text \<open>The zero value of the value type is an argument.\<close>

definition timeout_Get :: "'v \<Rightarrow> time \<Rightarrow> 'v timeout_cache \<Rightarrow> 'v \<times> bool" where
  "timeout_Get zero now m = (if now > tc_invalid m then (zero, False) else (tc_value m, True))"

definition timeout_Set :: "time \<Rightarrow> 'v \<Rightarrow> 'v timeout_cache \<Rightarrow> 'v timeout_cache" where
  "timeout_Set now value m = m\<lparr>tc_invalid := now + tc_refresh m, tc_value := value\<rparr>"

definition timeout_Invalidate :: "'v timeout_cache \<Rightarrow> 'v timeout_cache" where
  "timeout_Invalidate m = m\<lparr>tc_invalid := zero_time\<rparr>"

text \<open>A sequence of calls, each at a time of its own.\<close>

datatype 'v tc_call = TcSet time 'v | TcInvalidate

fun tc_apply :: "'v tc_call \<Rightarrow> 'v timeout_cache \<Rightarrow> 'v timeout_cache" where
  "tc_apply (TcSet now value) m = timeout_Set now value m"
| "tc_apply TcInvalidate m = timeout_Invalidate m"

lemma tc_refresh_fixed: "tc_refresh (fold tc_apply cs m) = tc_refresh m"
proof (induction cs arbitrary: m)
  case (Cons c cs)
  then show ?case by (cases c) (auto simp: timeout_Set_def timeout_Invalidate_def)
qed simp

text \<open>
  A timeout cache answers exactly with the last value set, and only if nothing invalidated it
  since and no more than the refresh period has passed since it was set; otherwise, and before any
  value was set, it answers with the zero value and false.
\<close>

theorem timeout_Get_last:
  assumes "now > zero_time"
  shows "timeout_Get zero now (fold tc_apply cs (timeout_New zero refresh)) =
    (case rev cs of
       TcSet t v # _ \<Rightarrow> if now \<le> t + refresh then (v, True) else (zero, False)
     | _ \<Rightarrow> (zero, False))"
proof (cases cs rule: rev_cases)
  case Nil
  with assms show ?thesis by (simp add: timeout_New_def timeout_Get_def)
next
  case (snoc cs' c)
  have "tc_refresh (fold tc_apply cs' (timeout_New zero refresh)) = refresh"
    by (simp add: tc_refresh_fixed timeout_New_def)
  with snoc assms show ?thesis
    by (cases c) (auto simp: timeout_Get_def timeout_Set_def timeout_Invalidate_def)
qed

section \<open>The typed LRU cache\<close>

text \<open>
  The cache underneath is a library: \<open>lru_add\<close> and \<open>lru_get\<close> are its operations on its state, whose
  values are of any type: \<open>inject\<close> and \<open>project\<close> are the conversion to it and the type assertion.
  \<open>copy\<close> is \<open>deep.Copy\<close>.
\<close>

record ('k, 'a, 's) lru_lib =
  lru_add :: "'k \<Rightarrow> 'a \<Rightarrow> duration \<Rightarrow> 's \<Rightarrow> 's"
  lru_get :: "'k \<Rightarrow> 's \<Rightarrow> 'a option \<times> 's"

definition lru_Add ::
    "('k, 'a, 's) lru_lib \<Rightarrow> ('t \<Rightarrow> 'a) \<Rightarrow> ('t \<Rightarrow> 't option) \<Rightarrow> 'k \<Rightarrow> 't \<Rightarrow> duration \<Rightarrow> 's \<Rightarrow> 's" where
  "lru_Add lib inject copy key value ttl s =
     (case copy value of None \<Rightarrow> s | Some t \<Rightarrow> lru_add lib key (inject t) ttl s)"

definition lru_Get ::
    "('k, 'a, 's) lru_lib \<Rightarrow> ('a \<Rightarrow> 't option) \<Rightarrow> ('t \<Rightarrow> 't option) \<Rightarrow> bool \<Rightarrow> 't \<Rightarrow> 'k \<Rightarrow> 's \<Rightarrow> ('t \<times> bool) \<times> 's" where
  "lru_Get lib project copy zeroCopy zero key s =
     (case lru_get lib key s of
        (None, s') \<Rightarrow> ((zero, False), s')
      | (Some value, s') \<Rightarrow>
          (case project value of
             None \<Rightarrow> ((zero, False), s')
           | Some typedValue \<Rightarrow>
               if zeroCopy then ((typedValue, True), s')
               else (case copy typedValue of
                       None \<Rightarrow> ((zero, False), s')
                     | Some t \<Rightarrow> ((t, True), s'))))"

text \<open>
  A value that can be copied is read back right after it was added, if the cache underneath returns
  what it was just given.
\<close>

lemma lru_Add_Get:
  assumes "\<And>t. project (inject t) = Some t" and "copy value = Some value'" and "copy value' = Some value''"
    and "fst (lru_get lib key (lru_add lib key (inject value') ttl s)) = Some (inject value')"
  shows "fst (lru_Get lib project copy zeroCopy zero key (lru_Add lib inject copy key value ttl s)) =
     (if zeroCopy then value' else value'', True)"
  using assms by (cases "lru_get lib key (lru_add lib key (inject value') ttl s)") (simp add: lru_Get_def lru_Add_def)

theorem timeout_Get_last_witness:
  "timeout_Get (0 :: nat) (5 * second) (fold tc_apply [TcSet 0 7] (timeout_New 0 (10 * second))) = (7, True)"
  using timeout_Get_last [of "5 * second" 0 "[TcSet 0 7]" "10 * second"] by (simp add: zero_time_def second_def)

section \<open>The memoised address (pkg/util/util.go)\<close>

text \<open>
  \<open>natPrefix\<close> is the package variable.  \<open>body\<close> is what the request for the address yields, \<open>decode\<close> the
  field of the JSON it holds, empty when there is none.
\<close>

definition GetNATPrefix :: "string result \<Rightarrow> (string \<Rightarrow> string result) \<Rightarrow> string \<Rightarrow> string result \<times> string" where
  "GetNATPrefix body decode natPrefix =
     (if natPrefix \<noteq> '''' then (Ok natPrefix, natPrefix)
      else case bind_outcome body decode of
        Ok address \<Rightarrow> (let natPrefix = address @ ''/32'' in (Ok natPrefix, natPrefix))
      | Err e \<Rightarrow> (Err e, natPrefix)
      | Panic \<Rightarrow> (Panic, natPrefix))"

text \<open>The first address that is got is kept for good; until then every call asks again.\<close>

lemma GetNATPrefix_memoised:
  assumes "GetNATPrefix body decode natPrefix = (Ok p, natPrefix')"
  shows "natPrefix' = p \<and> GetNATPrefix body' decode' natPrefix' = (Ok p, p)"
  using assms by (auto simp: GetNATPrefix_def Let_def split: if_splits outcome.splits)

text \<open>An answer without an address is kept just the same.\<close>

lemma GetNATPrefix_empty:
  "decode text = Ok '''' \<Longrightarrow> GetNATPrefix (Ok text) decode '''' = (Ok ''/32'', ''/32'')"
  by (simp add: GetNATPrefix_def Let_def)

end
