(* ===== verification/Spec2Isabelle.thy ===== *)
theory Spec2Isabelle
  imports Lifecycle_System Deep_Copy_Correct Reconciler Provisioners References Argo_Driver Contexts App_Provisioner Remote_Cluster
    Refresh_Cache Refresh_System Invalidation Http Server_Errors Conversion Server_Util Messaging
    Http_Client Middleware Telemetry Net_Types Manager_Run Registration Openapi_Lint License_Check
    Docs_Generate Api_Client Saga Retry Resource_Id Trie_Dict Caches
begin

text \<open>
  \<^bold>\<open>A verification library for the core library (pkg/).\<close>

  \<^bold>\<open>The program.\<close>  The repository is the library under a family of Kubernetes controllers and API
  servers.  A controller reconciles custom resources: the generic reconciler
  (\<open>pkg/manager/reconcile.go\<close>) keeps a finalizer on a resource, calls a tree of provisioners and records
  the outcome as a status condition.  Provisioners (\<open>pkg/provisioners\<close>) are combined serially,
  concurrently and conditionally; the leaves install Helm applications through the driver interface of
  \<open>pkg/cd\<close>, implemented on Argo CD, on this cluster or on a remote one.  Services hold references on
  each other's resources by further finalizers (\<open>pkg/manager/reference.go\<close>).  On the API side the servers
  read resources through a refresh-ahead cache, check ownership, project resources onto the API and
  answer errors (\<open>pkg/server\<close>); sagas and retries order their writes.

  \<^bold>\<open>How code becomes definitions.\<close>  A call that returns \<open>(T, error)\<close> has an \<open>outcome\<close>: a value, an error
  or a panic (theory \<open>Prelude\<close>).  Errors are values of \<open>gerror\<close> (\<open>Go_Errors\<close>) with the sentinels of the
  repository, wrapping, \<open>errors.Is\<close> and \<open>errors.As\<close>.  Code that talks to the world is a \<open>proc\<close>
  (\<open>Proc\<close>): a tree of atomic accesses, run alone by \<open>run\<close>, or among goroutines by \<open>interleave\<close> under any
  schedule, so that what other processes do between two accesses is covered.  Go maps are finite maps
  and the order of a \<open>range\<close> is a \<open>walk\<close> that theorems quantify over.  \<open>Go_Stdlib\<close>, \<open>Utf8\<close> and \<open>Http\<close>
  hold what the sources use of the standard library: FNV and SHA-256, hexadecimal and base64 text, the
  decoding of strings into runes, HTTP headers and responses.

  \<^bold>\<open>Theories, their sources and what their lemmas show.\<close>

  \<^item> \<open>Constants\<close>: \<open>pkg/constants\<close>.
  \<^item> \<open>Api_Types\<close>: object metadata, status conditions and tags of \<open>pkg/apis/unikorn/v1alpha1\<close>; condition
    updates keep one condition per type and touch the transition time only on a change.
  \<^item> \<open>Provisioners\<close>: \<open>pkg/provisioners\<close> with \<open>serial\<close>, \<open>concurrent\<close>, \<open>conditional\<close>.  A group fails at its
    first failing member, deprovisioning runs in reverse, a concurrent group waits for everyone under
    every schedule; the locale \<open>proc_contract\<close> lifts invariants and error vocabularies to compositions.
  \<^item> \<open>Reconciler\<close>: \<open>pkg/manager/reconcile.go\<close> and the provisioning log.  Finalizer before provisioning,
    no finalizer dropped before deprovisioning was recorded, requeue on every branch, no untyped error
    text in a status, edge-triggered logging.
  \<^item> \<open>References\<close>: \<open>pkg/manager/reference.go\<close>.  Adding and removing references is exact, and a reference
    blocks deletion.
  \<^item> \<open>Interference\<close>: processes among others, by rely and guarantee: executions and systems as inductive
    step relations, and the soundness of the method.
  \<^item> \<open>Lifecycle\<close>, \<open>Lifecycle_System\<close>: the reconciler and the services that refer to its resource, on one
    stored object with resource versions, under every interleaving and with stale reads.  The reconciler
    takes no reference off and lets the object go only when nobody refers to it and nothing is provisioned;
    a reference that was put on stays; with fresh reads nothing provisioned is orphaned.
  \<^item> \<open>Argo_Driver\<close>: \<open>pkg/cd\<close> and \<open>pkg/cd/argocd/driver.go\<close>, with the interface as locale \<open>cd_driver\<close>,
    and the default API tester of \<open>pkg/util/util.go\<close>.  Success means in sync and healthy, deletion is gating, ambiguity is an error without a write,
    generated applications read back.
  \<^item> \<open>Memory\<close>, \<open>Api_Memory\<close>, \<open>Deep_Copy\<close>, \<open>Deep_Copy_Correct\<close>: memory as a list of cells, the API types with
    their pointers, slices and maps, and the deep copies of \<open>zz_generated.deepcopy.go\<close> and \<open>types.go\<close>.  The
    contract of a deep copy is the locale \<open>copier\<close>; every copy keeps it, so that an object and its copy are
    equal and do not see each other's writes, which is what the Argo driver needs to send a difference.
  \<^item> \<open>Contexts\<close>: contexts of provisioners, \<open>pkg/provisioners/resource\<close>, \<open>pkg/provisioners/util\<close>.
  \<^item> \<open>App_Provisioner\<close>: \<open>pkg/provisioners/application\<close>.
  \<^item> \<open>Remote_Cluster\<close>: \<open>pkg/provisioners/remotecluster\<close>; the last provisioner removes the cluster.
  \<^item> \<open>Refresh_Cache\<close>, \<open>Refresh_System\<close>, \<open>Invalidation\<close>: \<open>pkg/util/cache/refresh_ahead.go\<close>.  The operations;
    a transition system of writers, the backend and a refresh, with read-your-writes, epochs and
    convergence; a second one of the channel protocol behind \<open>Invalidate\<close>, with freshness of a
    successful call and the possibility of returning.
  \<^item> \<open>Caches\<close>: \<open>timeout_cache.go\<close> and \<open>lruexpirecache.go\<close>.
  \<^item> \<open>Saga\<close>: \<open>pkg/server/saga\<close>; \<open>Retry\<close>: \<open>pkg/util/retry\<close>; \<open>Resource_Id\<close>: \<open>pkg/util/resource.go\<close>;
    \<open>Trie_Dict\<close>: \<open>pkg/util/trie\<close>, with the locale \<open>dictionary\<close>.
  \<^item> \<open>Server_Errors\<close>: \<open>pkg/server/errors\<close>.  Tests recognise what the constructors make, internal errors
    are not shown to clients, propagated errors keep status, code and description.
  \<^item> \<open>Conversion\<close>: \<open>pkg/server/conversion\<close>.  The API status refines the disposition that the reconciler
    recorded and is always of the enumeration; the reason of its detail is of the enumeration when that
    of the recorded error is; created metadata reads back.
  \<^item> \<open>Server_Util\<close>: \<open>pkg/server/util\<close>.  Ownership, tag selectors, bodies.
  \<^item> \<open>Middleware\<close>, \<open>Telemetry\<close>: \<open>pkg/server/middleware\<close> and the lookup of routes in \<open>pkg/openapi/helpers\<close>.
    Requests are routed or rejected, preflights are answered without the application, log lines show no
    credentials, captured responses are the ones sent, spans show all but two headers.
  \<^item> \<open>Messaging\<close>: \<open>pkg/messaging\<close>, with the contract of consumers as locale \<open>event_consumers\<close>.  An
    acknowledged deletion has reached every dependent resource, and nothing else was deleted.
  \<^item> \<open>Http_Client\<close>: \<open>pkg/client/http.go\<close>.  TLS configurations fail closed, client certificates are
    always available and reloaded at a bounded rate, signed payloads read back.
  \<^item> \<open>Net_Types\<close>: addresses, prefixes, semantic versions and specifications of
    \<open>pkg/apis/unikorn/v1alpha1/types.go\<close>.  Which addresses decode, and that they are written back.
  \<^item> \<open>Manager_Run\<close>: \<open>pkg/manager/manager.go\<close>, \<open>pkg/options\<close>, \<open>pkg/client/client.go\<close>.  The order of start-up.
    \<open>Registration\<close>: \<open>register.go\<close> of the three API packages; a scheme is built and knows every type by its kind.
  \<^item> \<open>Openapi_Lint\<close>, \<open>License_Check\<close>, \<open>Docs_Generate\<close>: the tools under \<open>hack/\<close>.  The validator passes
    exactly the conforming documents, the license checker exactly the trees whose Go files are generated
    or carry the header, and a successful run of the generator leaves every output rendered.
  \<^item> \<open>Api_Client\<close>: \<open>pkg/testing\<close>.  When a request succeeds, that failures can
    be traced, that the token is not shown, which durations a configuration gives.

  \<^bold>\<open>Parameters.\<close>  Third-party code is an argument: the Kubernetes client as a record of processes, the
  finalizer and condition helpers (\<open>klib\<close>), the UUID library, URL parsing, YAML, the semantic version
  library, the LRU cache, the HTTP router and the OpenAPI schema, X.509, JOSE, the tracer, the API machinery
  and the deep copies of the Kubernetes types.  What is relied on is a named hypothesis (\<open>klib_ok\<close> and the
  like) with an instance in the witnesses.

  \<^bold>\<open>Bounds and fuel.\<close>  Loops that may not end take the events they see as a list: the retrier the ticks
  and the end of the context, the name generators the UUIDs they draw.  Their theorems say which lists
  suffice.  Epochs are 64-bit counters read as naturals; counters of remote clusters are integers.

  \<^bold>\<open>Not modelled.\<close>  Generated mocks, which are test doubles, and the embedded OpenAPI document, which is data;
  the output of log lines and spans; the parsing of flags, which only calls a library; constructors and
  accessors that only store or read a field.
\<close>

end
